(* ===== verification/Prelude.thy ===== *)
theory Prelude
  imports Main "HOL-Library.Sublist" "HOL-Library.List_Lexorder" "HOL-Library.Char_ord"
begin

text \<open>
  Shared vocabulary of the development.  It holds the computations that may raise
  (\<open>bindM\<close> and friends: a state, and either an exception or a value), the Python
  string operations the sources use (\<open>startswith\<close>, \<open>endswith\<close>, \<open>strip\<close>,
  \<open>rstrip\<close>, \<open>split\<close>, \<open>join\<close>, the \<open>in\<close> test), positional numerals
  (\<open>str\<close> of an \<open>int\<close> and the \<open>x\<close> format), primary-keyed tables of rows as
  lists (select, insert, conditional update, delete) and the lemmas about them that every
  component uses.  The Python text type is modelled by \<open>string\<close>, a list of characters with
  code points below 256.
\<close>

named_theorems monad_simps \<open>unfolding equations of the computation combinators\<close>
named_theorems row_simps \<open>facts on reading and updating table rows\<close>

section \<open>Computations with state and exceptions\<close>

text \<open>
  A computation takes a state and returns an exception or a value together with the state
  left behind: an exception does not undo what was already committed.
\<close>

type_synonym ('e, 's, 'a) comp = "'s \<Rightarrow> ('e + 'a) \<times> 's"

definition returnM :: "'a \<Rightarrow> ('e, 's, 'a) comp" where
  "returnM x = (\<lambda>s. (Inr x, s))"

definition throwM :: "'e \<Rightarrow> ('e, 's, 'a) comp" where
  "throwM e = (\<lambda>s. (Inl e, s))"

definition bindM :: "('e, 's, 'a) comp \<Rightarrow> ('a \<Rightarrow> ('e, 's, 'b) comp) \<Rightarrow> ('e, 's, 'b) comp" where
  "bindM m f = (\<lambda>s. case m s of (Inl e, t) \<Rightarrow> (Inl e, t) | (Inr x, t) \<Rightarrow> f x t)"

definition liftM :: "'e + 'a \<Rightarrow> ('e, 's, 'a) comp" where
  "liftM r = (\<lambda>s. (r, s))"

definition readM :: "('s \<Rightarrow> 'a) \<Rightarrow> ('e, 's, 'a) comp" where
  "readM f = (\<lambda>s. (Inr (f s), s))"

definition writeM :: "('s \<Rightarrow> 's) \<Rightarrow> ('e, 's, unit) comp" where
  "writeM f = (\<lambda>s. (Inr (), f s))"

definition guardM :: "bool \<Rightarrow> 'e \<Rightarrow> ('e, 's, unit) comp" where
  "guardM b e = (if b then returnM () else throwM e)"

text \<open>The same sequencing for pure computations that may raise.\<close>

definition bindE :: "'e + 'a \<Rightarrow> ('a \<Rightarrow> 'e + 'b) \<Rightarrow> 'e + 'b" where
  "bindE r f = (case r of Inl e \<Rightarrow> Inl e | Inr x \<Rightarrow> f x)"

definition of_option :: "'e \<Rightarrow> 'a option \<Rightarrow> 'e + 'a" where
  "of_option e r = (case r of None \<Rightarrow> Inl e | Some x \<Rightarrow> Inr x)"

lemma returnM_apply [simp, monad_simps]: "returnM x s = (Inr x, s)"
  by (simp add: returnM_def)

lemma throwM_apply [simp, monad_simps]: "throwM e s = (Inl e, s)"
  by (simp add: throwM_def)

lemma liftM_apply [simp, monad_simps]: "liftM r s = (r, s)"
  by (simp add: liftM_def)

lemma readM_apply [simp, monad_simps]: "readM f s = (Inr (f s), s)"
  by (simp add: readM_def)

lemma writeM_apply [simp, monad_simps]: "writeM f s = (Inr (), f s)"
  by (simp add: writeM_def)

lemma guardM_apply [monad_simps]: "guardM b e s = (if b then (Inr (), s) else (Inl e, s))"
  by (simp add: guardM_def)

lemma bindM_apply [monad_simps]:
  "bindM m f s = (case m s of (Inl e, t) \<Rightarrow> (Inl e, t) | (Inr x, t) \<Rightarrow> f x t)"
  by (simp add: bindM_def)

lemma bindM_Inr [simp]: "m s = (Inr x, t) \<Longrightarrow> bindM m f s = f x t"
  by (simp add: bindM_def)

lemma bindM_Inl [simp]: "m s = (Inl e, t) \<Longrightarrow> bindM m f s = (Inl e, t)"
  by (simp add: bindM_def)

lemma bindM_eq_Inr_iff:
  "bindM m f s = (Inr y, u) \<longleftrightarrow> (\<exists>x t. m s = (Inr x, t) \<and> f x t = (Inr y, u))"
  by (auto simp: bindM_def split: prod.splits sum.splits)

lemma bindM_eq_Inl_iff:
  "bindM m f s = (Inl e, u) \<longleftrightarrow>
     m s = (Inl e, u) \<or> (\<exists>x t. m s = (Inr x, t) \<and> f x t = (Inl e, u))"
  by (auto simp: bindM_def split: prod.splits sum.splits)

lemma bindM_InrE [elim]:
  assumes "bindM m f s = (Inr y, u)"
  obtains x t where "m s = (Inr x, t)" and "f x t = (Inr y, u)"
  using assms by (auto simp: bindM_eq_Inr_iff)

lemma guardM_eq_Inr_iff [simp]: "guardM b e s = (Inr x, t) \<longleftrightarrow> b \<and> t = s"
  by (auto simp: guardM_apply)

lemma guardM_eq_Inl_iff [simp]: "guardM b e s = (Inl e', t) \<longleftrightarrow> \<not> b \<and> e' = e \<and> t = s"
  by (auto simp: guardM_apply)

lemma bindE_simps [simp]: "bindE (Inl e) f = Inl e" "bindE (Inr x) f = f x"
  by (simp_all add: bindE_def)

lemma bindE_eq_Inr_iff: "bindE r f = Inr y \<longleftrightarrow> (\<exists>x. r = Inr x \<and> f x = Inr y)"
  by (cases r) auto

lemma of_option_simps [simp]: "of_option e None = Inl e" "of_option e (Some x) = Inr x"
  by (simp_all add: of_option_def)

lemma of_option_eq_Inr_iff [simp]: "of_option e r = Inr x \<longleftrightarrow> r = Some x"
  by (cases r) auto

lemma of_option_eq_Inl_iff [simp]: "of_option e r = Inl e' \<longleftrightarrow> r = None \<and> e' = e"
  by (cases r) auto

text \<open>
  A computation that never changes the state keeps every state property; used for the
  read-only routes.
\<close>

definition pure_comp :: "('e, 's, 'a) comp \<Rightarrow> bool" where
  "pure_comp m \<longleftrightarrow> (\<forall>s. snd (m s) = s)"

lemma pure_comp_basic [simp, intro]:
  "pure_comp (returnM x)" "pure_comp (throwM e)" "pure_comp (liftM r)" "pure_comp (readM f)"
  "pure_comp (guardM b e)"
  by (auto simp: pure_comp_def guardM_apply)

lemma pure_comp_bindM [intro]:
  "pure_comp m \<Longrightarrow> (\<And>x. pure_comp (f x)) \<Longrightarrow> pure_comp (bindM m f)"
  unfolding pure_comp_def bindM_def by (auto split: prod.splits sum.splits) (metis snd_conv)+

text \<open>A projection of the state that both parts keep is kept by the sequence.\<close>

lemma bindM_frame:
  "g (snd (m s)) = g s \<Longrightarrow> (\<And>x t. g (snd (f x t)) = g t) \<Longrightarrow> g (snd (bindM m f s)) = g s"
  unfolding bindM_def by (cases "m s"; cases "fst (m s)") auto

lemma pure_compD: "pure_comp m \<Longrightarrow> m s = (r, t) \<Longrightarrow> t = s"
  by (metis pure_comp_def snd_conv)

section \<open>Python strings\<close>

definition startswith :: "string \<Rightarrow> string \<Rightarrow> bool" where
  "startswith s p \<longleftrightarrow> take (length p) s = p"

definition endswith :: "string \<Rightarrow> string \<Rightarrow> bool" where
  "endswith s p \<longleftrightarrow> length p \<le> length s \<and> drop (length s - length p) s = p"

fun contains :: "string \<Rightarrow> string \<Rightarrow> bool" where
  "contains sub [] = (sub = [])"
| "contains sub (c # s) = (startswith (c # s) sub \<or> contains sub s)"

definition lstrip_if :: "(char \<Rightarrow> bool) \<Rightarrow> string \<Rightarrow> string" where
  "lstrip_if P s = dropWhile P s"

definition rstrip_if :: "(char \<Rightarrow> bool) \<Rightarrow> string \<Rightarrow> string" where
  "rstrip_if P s = rev (dropWhile P (rev s))"

text \<open>\<open>str.isspace\<close> on the code points below 256.\<close>

definition py_space :: "char \<Rightarrow> bool" where
  "py_space c \<longleftrightarrow> (let n = of_char c :: nat in
     n \<in> {9, 10, 11, 12, 13, 28, 29, 30, 31, 32, 133, 160})"

definition strip :: "string \<Rightarrow> string" where
  "strip s = rstrip_if py_space (lstrip_if py_space s)"

fun split_on :: "char \<Rightarrow> string \<Rightarrow> string list" where
  "split_on c [] = [[]]"
| "split_on c (x # xs) =
     (if x = c then [] # split_on c xs
      else case split_on c xs of [] \<Rightarrow> [[x]] | y # ys \<Rightarrow> (x # y) # ys)"

fun join :: "string \<Rightarrow> string list \<Rightarrow> string" where
  "join sep [] = []"
| "join sep [s] = s"
| "join sep (s # t # ss) = s @ sep @ join sep (t # ss)"

definition removesuffix :: "string \<Rightarrow> string \<Rightarrow> string" where
  "removesuffix s p = (if p \<noteq> [] \<and> endswith s p then take (length s - length p) s else s)"

lemma startswith_iff: "startswith s p \<longleftrightarrow> (\<exists>t. s = p @ t)"
  unfolding startswith_def by (metis append_eq_conv_conj append_take_drop_id)

lemma startswith_append [simp]: "startswith (p @ t) p"
  by (auto simp: startswith_iff)

lemma endswith_iff: "endswith s p \<longleftrightarrow> (\<exists>t. s = t @ p)"
proof
  assume "endswith s p"
  then show "\<exists>t. s = t @ p"
    unfolding endswith_def by (metis append_take_drop_id)
next
  assume "\<exists>t. s = t @ p"
  then show "endswith s p" by (auto simp: endswith_def)
qed

lemma endswith_append [simp]: "endswith (t @ p) p"
  by (auto simp: endswith_iff)

lemma contains_iff: "contains sub s \<longleftrightarrow> (\<exists>u v. s = u @ sub @ v)"
proof (induction s)
  case Nil
  then show ?case by auto
next
  case (Cons c s)
  show ?case
  proof
    assume "contains sub (c # s)"
    then consider t where "c # s = sub @ t" | u v where "s = u @ sub @ v"
      using Cons by (auto simp: startswith_iff)
    then show "\<exists>u v. c # s = u @ sub @ v"
      by cases (metis append_Nil, metis append_Cons)
  next
    assume "\<exists>u v. c # s = u @ sub @ v"
    then obtain u v where eq: "c # s = u @ sub @ v" by blast
    show "contains sub (c # s)"
    proof (cases u)
      case Nil
      with eq have "startswith (c # s) sub" by (auto simp: startswith_iff)
      then show ?thesis by simp
    next
      case (Cons a w)
      with eq have "s = w @ sub @ v" by simp
      with Cons.IH show ?thesis by auto
    qed
  qed
qed

lemma dropWhile_idem_hd: "(s = [] \<or> \<not> P (hd s)) \<Longrightarrow> dropWhile P s = s"
  by (cases s) auto

lemma rstrip_if_append: "t = [] \<or> \<not> P (last t) \<Longrightarrow> rstrip_if P t = t"
  by (cases t rule: rev_cases) (auto simp: rstrip_if_def)

lemma rstrip_if_last: "rstrip_if P s = [] \<or> \<not> P (last (rstrip_if P s))"
  unfolding rstrip_if_def
  by (metis (no_types, lifting) dropWhile_eq_Nil_conv hd_dropWhile last_rev rev.simps(1))

lemma split_on_nonempty [simp]: "split_on c s \<noteq> []"
  by (induction s) (auto split: list.splits)

lemma split_on_free: "c \<notin> set s \<Longrightarrow> split_on c s = [s]"
  by (induction s) auto

lemma split_on_no_sep: "p \<in> set (split_on c s) \<Longrightarrow> c \<notin> set p"
  by (induction s arbitrary: p) (auto split: list.splits if_splits)

lemma join_split_on: "join [c] (split_on c s) = s"
proof (induction s)
  case Nil
  then show ?case by simp
next
  case (Cons x s)
  then show ?case
    by (cases "split_on c s"; cases "tl (split_on c s)") (auto split: list.splits)
qed

lemma split_on_append_sep: "c \<notin> set s \<Longrightarrow> split_on c (s @ c # t) = s # split_on c t"
  by (induction s) auto

lemma removesuffix_append [simp]: "p \<noteq> [] \<Longrightarrow> removesuffix (s @ p) p = s"
  by (simp add: removesuffix_def)

section \<open>Positional numerals\<close>

fun nat_digits :: "nat \<Rightarrow> nat \<Rightarrow> nat list" where
  "nat_digits b n = (if b < 2 \<or> n < b then [n] else nat_digits b (n div b) @ [n mod b])"

declare nat_digits.simps [simp del]

definition of_digits :: "nat \<Rightarrow> nat list \<Rightarrow> nat" where
  "of_digits b ds = foldl (\<lambda>a d. a * b + d) 0 ds"

definition digit_char :: "nat \<Rightarrow> char" where
  "digit_char d = char_of (if d < 10 then 48 + d else 87 + d)"

definition char_digit :: "char \<Rightarrow> nat option" where
  "char_digit c = (let n = of_char c :: nat in
     if 48 \<le> n \<and> n \<le> 57 then Some (n - 48)
     else if 97 \<le> n \<and> n \<le> 102 then Some (n - 87)
     else if 65 \<le> n \<and> n \<le> 70 then Some (n - 55) else None)"

definition is_digit :: "char \<Rightarrow> bool" where
  "is_digit c \<longleftrightarrow> (let n = of_char c :: nat in 48 \<le> n \<and> n \<le> 57)"

definition nat_str :: "nat \<Rightarrow> nat \<Rightarrow> string" where
  "nat_str b n = map digit_char (nat_digits b n)"

definition int_str :: "int \<Rightarrow> string" where
  "int_str n = (if n < 0 then CHR ''-'' # nat_str 10 (nat (- n)) else nat_str 10 (nat n))"

lemma of_digits_append: "of_digits b (xs @ [d]) = of_digits b xs * b + d"
  by (simp add: of_digits_def)

lemma of_digits_single: "of_digits b [d] = d"
  by (simp add: of_digits_def)

lemma of_digits_nat_digits: "of_digits b (nat_digits b n) = n"
proof (induction b n rule: nat_digits.induct)
  case (1 b n)
  then show ?case
    by (cases "b < 2 \<or> n < b")
       (auto simp: nat_digits.simps [of b n] of_digits_append of_digits_single)
qed

lemma nat_digits_bound: "2 \<le> b \<Longrightarrow> d \<in> set (nat_digits b n) \<Longrightarrow> d < b"
proof (induction b n rule: nat_digits.induct)
  case (1 b n)
  then show ?case
    by (cases "n < b") (auto simp: nat_digits.simps [of b n])
qed

lemma nat_digits_nonempty [simp]: "nat_digits b n \<noteq> []"
  by (subst nat_digits.simps) simp

lemma nat_digits_lead: "2 \<le> b \<Longrightarrow> hd (nat_digits b n) = 0 \<Longrightarrow> nat_digits b n = [0]"
proof (induction b n rule: nat_digits.induct)
  case (1 b n)
  show ?case
  proof (cases "n < b")
    case True
    with "1.prems" show ?thesis by (simp add: nat_digits.simps [of b n] nat_digits.simps [of b 0])
  next
    case False
    with "1.prems" have "nat_digits b (n div b) = [0]"
      using "1.IH" by (simp add: nat_digits.simps [of b n])
    then have "n div b = 0" using of_digits_nat_digits [of b "n div b"] by (simp add: of_digits_def)
    with False "1.prems" show ?thesis by (simp add: div_eq_0_iff)
  qed
qed

lemma char_digit_digit_char: "d < 16 \<Longrightarrow> char_digit (digit_char d) = Some d"
  by (simp add: char_digit_def digit_char_def)

lemma is_digit_digit_char: "d < 10 \<Longrightarrow> is_digit (digit_char d)"
  by (simp add: is_digit_def digit_char_def)

lemma nat_str_nonempty [simp]: "nat_str b n \<noteq> []"
  by (simp add: nat_str_def)

lemma nat_str_inj:
  assumes "2 \<le> b" "b \<le> 16" "nat_str b m = nat_str b n"
  shows "m = n"
proof -
  have "map (the \<circ> char_digit) (nat_str b k) = nat_digits b k" for k
  proof -
    have "the (char_digit (digit_char d)) = d" if "d \<in> set (nat_digits b k)" for d
      using nat_digits_bound [OF assms(1) that] assms(2) by (simp add: char_digit_digit_char)
    then show ?thesis by (auto simp: nat_str_def intro!: map_idI)
  qed
  then have "nat_digits b m = nat_digits b n" by (metis assms(3))
  then show ?thesis by (metis of_digits_nat_digits)
qed

section \<open>Primary-keyed tables\<close>

text \<open>
  A table is the list of its rows in insertion order.  \<open>tget\<close> is \<open>Session.get\<close> (by
  primary key), \<open>tinsert\<close> an insert that fails on a duplicate key, \<open>tupdate\<close> an
  \<open>UPDATE ... WHERE\<close>, \<open>tdelete\<close> a \<open>DELETE ... WHERE\<close>, \<open>tcount\<close> a
  \<open>SELECT count(*) ... WHERE\<close>.
\<close>

definition tget :: "('r \<Rightarrow> 'k) \<Rightarrow> 'k \<Rightarrow> 'r list \<Rightarrow> 'r option" where
  "tget key k rows = find (\<lambda>r. key r = k) rows"

definition tinsert :: "('r \<Rightarrow> 'k) \<Rightarrow> 'r \<Rightarrow> 'r list \<Rightarrow> 'r list option" where
  "tinsert key r rows = (if key r \<in> set (map key rows) then None else Some (rows @ [r]))"

definition tupdate :: "('r \<Rightarrow> bool) \<Rightarrow> ('r \<Rightarrow> 'r) \<Rightarrow> 'r list \<Rightarrow> 'r list" where
  "tupdate P f rows = map (\<lambda>r. if P r then f r else r) rows"

definition tdelete :: "('r \<Rightarrow> bool) \<Rightarrow> 'r list \<Rightarrow> 'r list" where
  "tdelete P rows = filter (\<lambda>r. \<not> P r) rows"

definition tcount :: "('r \<Rightarrow> bool) \<Rightarrow> 'r list \<Rightarrow> nat" where
  "tcount P rows = length (filter P rows)"

lemma find_SomeD: "find P xs = Some x \<Longrightarrow> x \<in> set xs \<and> P x"
  by (induction xs) (auto split: if_splits)

lemma tget_Nil [simp]: "tget key k [] = None"
  by (simp add: tget_def)

lemma tget_Cons: "tget key k (r # rs) = (if key r = k then Some r else tget key k rs)"
  by (simp add: tget_def)

lemma tget_SomeD: "tget key k rows = Some r \<Longrightarrow> r \<in> set rows \<and> key r = k"
  by (induction rows) (auto simp: tget_Cons split: if_splits)

lemma tget_None_iff: "tget key k rows = None \<longleftrightarrow> k \<notin> set (map key rows)"
  by (induction rows) (auto simp: tget_Cons)

lemma tget_append:
  "tget key k (xs @ ys) = (case tget key k xs of None \<Rightarrow> tget key k ys | Some r \<Rightarrow> Some r)"
  by (induction xs) (auto simp: tget_Cons)

lemma tget_eq_Some_iff:
  "distinct (map key rows) \<Longrightarrow> tget key k rows = Some r \<longleftrightarrow> r \<in> set rows \<and> key r = k"
  by (induction rows) (auto simp: tget_Cons)

lemma tinsert_eq_Some_iff:
  "tinsert key r rows = Some rows' \<longleftrightarrow> key r \<notin> set (map key rows) \<and> rows' = rows @ [r]"
  by (auto simp: tinsert_def)

lemma tupdate_Nil [simp]: "tupdate P f [] = []"
  by (simp add: tupdate_def)

lemma tupdate_append [simp]: "tupdate P f (xs @ ys) = tupdate P f xs @ tupdate P f ys"
  by (simp add: tupdate_def)

lemma set_tupdate: "set (tupdate P f rows) = (\<lambda>r. if P r then f r else r) ` set rows"
  by (simp add: tupdate_def)

lemma tupdate_none: "tcount P rows = 0 \<Longrightarrow> tupdate P f rows = rows"
  by (auto simp: tcount_def tupdate_def filter_empty_conv intro!: map_idI)

lemma tcount_pos_iff: "0 < tcount P rows \<longleftrightarrow> (\<exists>r \<in> set rows. P r)"
  by (auto simp: tcount_def filter_empty_conv)

lemma distinct_tdelete: "distinct (map key rows) \<Longrightarrow> distinct (map key (tdelete P rows))"
  by (simp add: tdelete_def distinct_map_filter)

text \<open>
  The contract every attribute assignment on an ORM row satisfies: it keeps the primary key.
  The table facts that follow from it are proved once here.
\<close>

locale keyed_update =
  fixes key :: "'r \<Rightarrow> 'k" and f :: "'r \<Rightarrow> 'r"
  assumes key_update [simp]: "key (f r) = key r"
begin

lemma keys_tupdate [simp]: "map key (tupdate P f rows) = map key rows"
  by (simp add: tupdate_def)

lemma tget_tupdate:
  "tget key k (tupdate P f rows) = map_option (\<lambda>r. if P r then f r else r) (tget key k rows)"
  by (induction rows) (auto simp: tupdate_def tget_Cons)

lemma tget_tupdate_key:
  "tget key k (tupdate (\<lambda>r. key r = j) f rows) =
     (if k = j then map_option f (tget key k rows) else tget key k rows)"
proof -
  have "\<And>r. tget key k rows = Some r \<Longrightarrow> key r = k" by (auto dest: tget_SomeD)
  then show ?thesis by (cases "tget key k rows") (auto simp: tget_tupdate)
qed

lemma tupdate_key_absent: "k \<notin> set (map key rows) \<Longrightarrow> tupdate (\<lambda>r. key r = k) f rows = rows"
  by (induction rows) (auto simp: tupdate_def)

end

end
