(* ===== verification/Base64.thy ===== *)
theory Base64
  imports Prelude
begin

text \<open>
  Base64url as the relay uses it: \<open>b64url_decode\<close> of \<^verbatim>\<open>_util.py\<close> over the
  standard library's \<open>urlsafe_b64decode\<close>, whose non-strict decoder skips characters outside
  the alphabet, and the padding-free encoding that \<^verbatim>\<open>http01.py\<close> and
  \<^verbatim>\<open>le_client.py\<close> write.  \<open>None\<close> stands for the exception the decoder raises.
  The lemmas show that decoding inverts encoding and describe the encoder's output.
\<close>

section \<open>The alphabet\<close>

definition b64_char :: "nat \<Rightarrow> char" where
  "b64_char v = char_of (if v < 26 then v + 65 else if v < 52 then v + 71
     else if v < 62 then v - 4 else if v = 62 then 45 else 95)"

definition urlsafe_char :: "char \<Rightarrow> bool" where
  "urlsafe_char c \<longleftrightarrow> (let n = of_char c :: nat in
     65 \<le> n \<and> n \<le> 90 \<or> 97 \<le> n \<and> n \<le> 122 \<or> 48 \<le> n \<and> n \<le> 57 \<or> n = 45 \<or> n = 95)"

text \<open>The decoder's table after \<open>-_\<close> was translated to \<open>+/\<close>: both spellings are read.\<close>

definition b64_val :: "char \<Rightarrow> nat option" where
  "b64_val c = (let n = of_char c :: nat in
     if 65 \<le> n \<and> n \<le> 90 then Some (n - 65)
     else if 97 \<le> n \<and> n \<le> 122 then Some (n - 71)
     else if 48 \<le> n \<and> n \<le> 57 then Some (n + 4)
     else if n = 43 \<or> n = 45 then Some 62
     else if n = 47 \<or> n = 95 then Some 63
     else None)"

section \<open>Decoding\<close>

text \<open>
  \<open>binascii.a2b_base64\<close> in its non-strict mode: \<open>q\<close> is the position in the current
  quad, \<open>left\<close> the bits left over from the previous character, \<open>pads\<close> the pad
  characters seen since the last data character.  A complete pad sequence ends the input.
\<close>

fun a2b :: "nat \<Rightarrow> nat \<Rightarrow> nat \<Rightarrow> string \<Rightarrow> string option" where
  "a2b q left pads [] = (if q = 0 then Some [] else None)"
| "a2b q left pads (c # cs) =
     (if c = CHR ''='' then
        (if 2 \<le> q \<and> 4 \<le> q + Suc pads then Some []
         else a2b q left (if 2 \<le> q then Suc pads else pads) cs)
      else case b64_val c of
        None \<Rightarrow> a2b q left pads cs
      | Some v \<Rightarrow>
          if q = 0 then a2b 1 v 0 cs
          else if q = 1 then
            map_option ((#) (char_of (left * 4 + v div 16))) (a2b 2 (v mod 16) 0 cs)
          else if q = 2 then
            map_option ((#) (char_of (left * 16 + v div 4))) (a2b 3 (v mod 4) 0 cs)
          else map_option ((#) (char_of (left * 64 + v))) (a2b 0 0 0 cs))"

definition urlsafe_b64decode :: "string \<Rightarrow> string option" where
  "urlsafe_b64decode s =
     (if \<forall>c \<in> set s. (of_char c :: nat) < 128 then a2b 0 0 0 s else None)"

definition b64url_decode :: "string \<Rightarrow> string option" where
  "b64url_decode s =
     (let rem = length s mod 4;
          padded = (if rem \<noteq> 0 then s @ replicate (4 - rem) CHR ''='' else s)
      in urlsafe_b64decode padded)"

section \<open>Encoding\<close>

fun urlsafe_b64encode :: "string \<Rightarrow> string" where
  "urlsafe_b64encode [] = []"
| "urlsafe_b64encode [a] =
     (let x = of_char a :: nat in
      [b64_char (x div 4), b64_char ((x mod 4) * 16), CHR ''='', CHR ''=''])"
| "urlsafe_b64encode [a, b] =
     (let x = of_char a :: nat; y = of_char b :: nat in
      [b64_char (x div 4), b64_char ((x mod 4) * 16 + y div 16), b64_char ((y mod 16) * 4),
       CHR ''=''])"
| "urlsafe_b64encode (a # b # c # cs) =
     (let x = of_char a :: nat; y = of_char b :: nat; z = of_char c :: nat in
      b64_char (x div 4) # b64_char ((x mod 4) * 16 + y div 16) #
      b64_char ((y mod 16) * 4 + z div 64) # b64_char (z mod 64) # urlsafe_b64encode cs)"

definition b64url_encode :: "string \<Rightarrow> string" where
  "b64url_encode bs = rstrip_if (\<lambda>c. c = CHR ''='') (urlsafe_b64encode bs)"

section \<open>Facts about the alphabet\<close>

lemma b64_val_b64_char: "v < 64 \<Longrightarrow> b64_val (b64_char v) = Some v"
  by (auto simp: b64_val_def b64_char_def Let_def)

lemma urlsafe_b64_char: "v < 64 \<Longrightarrow> urlsafe_char (b64_char v)"
  by (auto simp: urlsafe_char_def b64_char_def Let_def)

lemma urlsafe_not_pad: "urlsafe_char c \<Longrightarrow> c \<noteq> CHR ''=''"
  by (auto simp: urlsafe_char_def Let_def)

lemma b64_char_not_pad: "v < 64 \<Longrightarrow> b64_char v \<noteq> CHR ''=''"
  by (rule urlsafe_not_pad [OF urlsafe_b64_char])

lemma urlsafe_ascii: "urlsafe_char c \<Longrightarrow> (of_char c :: nat) < 128"
  by (auto simp: urlsafe_char_def Let_def)

lemma sextet_bounds:
  fixes x y z :: nat
  assumes "x < 256" "y < 256" "z < 256"
  shows "x div 4 < 64" "x mod 4 * 16 + y div 16 < 64" "y mod 16 * 4 + z div 64 < 64" "z mod 64 < 64"
    "x mod 4 * 16 < 64" "y mod 16 * 4 < 64"
  using assms by auto

section \<open>Decoding inverts encoding\<close>

lemma a2b_data:
  assumes "v < 64"
  shows "a2b q left pads (b64_char v # cs) =
    (if q = 0 then a2b 1 v 0 cs
     else if q = 1 then map_option ((#) (char_of (left * 4 + v div 16))) (a2b 2 (v mod 16) 0 cs)
     else if q = 2 then map_option ((#) (char_of (left * 16 + v div 4))) (a2b 3 (v mod 4) 0 cs)
     else map_option ((#) (char_of (left * 64 + v))) (a2b 0 0 0 cs))"
  using assms by (simp add: b64_val_b64_char b64_char_not_pad)

lemma char_of_split:
  "char_of (of_char c div 4 * 4 + (of_char c mod 4 :: nat)) = c"
  "char_of (of_char c mod 16 + of_char c div 16 * (16 :: nat)) = c"
  "char_of (of_char c div 64 * 64 + (of_char c mod 64 :: nat)) = c"
  by (simp_all add: ac_simps)

lemma regroup:
  fixes x y z :: nat
  assumes "x < 256" "y < 256" "z < 256"
  shows "x div 4 * 4 + (x mod 4 * 16 + y div 16) div 16 = x"
    "(x mod 4 * 16 + y div 16) mod 16 * 16 + (y mod 16 * 4 + z div 64) div 4 = y"
    "(y mod 16 * 4 + z div 64) mod 4 * 64 + z mod 64 = z"
    "x div 4 * 4 + x mod 4 * 16 div 16 = x"
    "(x mod 4 * 16 + y div 16) mod 16 * 16 + y mod 16 * 4 div 4 = y"
proof -
  have a: "y div 16 < 16" and b: "z div 64 < 4" using assms by auto
  have "(x mod 4 * 16 + y div 16) div 16 = x mod 4" using a by simp
  then show "x div 4 * 4 + (x mod 4 * 16 + y div 16) div 16 = x" by simp
  have m: "(x mod 4 * 16 + y div 16) mod 16 = y div 16" using a by simp
  have "(y mod 16 * 4 + z div 64) div 4 = y mod 16" using b by simp
  with m show "(x mod 4 * 16 + y div 16) mod 16 * 16 + (y mod 16 * 4 + z div 64) div 4 = y" by simp
  show "(x mod 4 * 16 + y div 16) mod 16 * 16 + y mod 16 * 4 div 4 = y" using m by simp
  have "(y mod 16 * 4 + z div 64) mod 4 = z div 64" using b by simp
  then show "(y mod 16 * 4 + z div 64) mod 4 * 64 + z mod 64 = z" by simp
  show "x div 4 * 4 + x mod 4 * 16 div 16 = x" by simp
qed

lemma a2b_urlsafe_b64encode: "a2b 0 0 0 (urlsafe_b64encode bs) = Some bs"
proof (induction bs rule: urlsafe_b64encode.induct)
  case 1
  then show ?case by simp
next
  case (2 a)
  note bd = sextet_bounds [of "of_char a" 0 0] and rg = regroup [of "of_char a" 0 0]
  show ?case
    using bd rg by (simp add: Let_def a2b_data del: a2b.simps(2)) simp
next
  case (3 a b)
  note bd = sextet_bounds [of "of_char a" "of_char b" 0] and rg = regroup [of "of_char a" "of_char b" 0]
  show ?case
    using bd rg by (simp add: Let_def a2b_data del: a2b.simps(2)) simp
next
  case (4 a b c cs)
  note bd = sextet_bounds [of "of_char a" "of_char b" "of_char c"]
    and rg = regroup [of "of_char a" "of_char b" "of_char c"]
  show ?case
    using bd rg "4.IH" by (simp add: Let_def a2b_data del: a2b.simps(2))
qed

lemma urlsafe_b64encode_length: "length (urlsafe_b64encode bs) = 4 * ((length bs + 2) div 3)"
proof (induction bs rule: urlsafe_b64encode.induct)
  case (4 a b c cs)
  have "(length (a # b # c # cs) + 2) div 3 = Suc ((length cs + 2) div 3)" by simp
  with 4 show ?case by (simp add: Let_def)
qed (simp_all add: Let_def)

lemma Suc3_mod_3: "Suc (Suc (Suc n)) mod 3 = n mod 3"
  by presburger

text \<open>The data characters of an encoding, without the padding.\<close>

fun b64_data :: "string \<Rightarrow> string" where
  "b64_data [] = []"
| "b64_data [a] = take 2 (urlsafe_b64encode [a])"
| "b64_data [a, b] = take 3 (urlsafe_b64encode [a, b])"
| "b64_data (a # b # c # cs) = take 4 (urlsafe_b64encode [a, b, c]) @ b64_data cs"

lemma b64_data_urlsafe: "c \<in> set (b64_data bs) \<Longrightarrow> urlsafe_char c"
proof (induction bs rule: b64_data.induct)
  case (4 a b c cs)
  then show ?case
    using sextet_bounds [of "of_char a" "of_char b" "of_char c"]
    by (auto simp: Let_def urlsafe_b64_char)
next
  case (3 a b)
  then show ?case
    using sextet_bounds [of "of_char a" "of_char b" 0] by (auto simp: Let_def urlsafe_b64_char)
next
  case (2 a)
  then show ?case
    using sextet_bounds [of "of_char a" 0 0] by (auto simp: Let_def urlsafe_b64_char)
qed auto

lemma b64_data_pad:
  "urlsafe_b64encode bs = b64_data bs @ replicate ((3 - length bs mod 3) mod 3) CHR ''=''"
proof (induction bs rule: b64_data.induct)
  case (4 a b c cs)
  with Suc3_mod_3 [of "length cs"] show ?case by (simp add: Let_def)
qed (simp_all add: Let_def numeral_2_eq_2)

lemma b64url_encode_data: "b64url_encode bs = b64_data bs"
proof -
  have strip: "rstrip_if P (xs @ replicate n c) = rstrip_if P xs" if "P c" for P xs and c :: char and n
    using that by (auto simp: rstrip_if_def dropWhile_append)
  have "b64_data bs = [] \<or> last (b64_data bs) \<noteq> CHR ''=''"
    using b64_data_urlsafe urlsafe_not_pad by (metis last_in_set)
  then show ?thesis
    unfolding b64url_encode_def b64_data_pad [of bs] by (simp add: strip rstrip_if_append)
qed

lemma b64_data_length_mod:
  "length (b64_data bs) mod 4 = (let r = length bs mod 3 in if r = 0 then 0 else r + 1)"
proof (induction bs rule: b64_data.induct)
  case (4 a b c cs)
  with Suc3_mod_3 [of "length cs"] show ?case by (simp add: Let_def)
qed (simp_all add: Let_def)

lemma repad:
  "(let rem = length (b64_data bs) mod 4 in
    if rem \<noteq> 0 then b64_data bs @ replicate (4 - rem) CHR ''='' else b64_data bs)
   = urlsafe_b64encode bs"
proof -
  have "length bs mod 3 < 3" by simp
  then consider "length bs mod 3 = 0" | "length bs mod 3 = 1" | "length bs mod 3 = 2" by linarith
  then show ?thesis
  proof cases
    case 1
    then have "length (b64_data bs) mod 4 = 0" by (simp add: b64_data_length_mod)
    with 1 show ?thesis by (simp only: b64_data_pad [of bs] Let_def) simp
  next
    case 2
    then have "length (b64_data bs) mod 4 = 2" by (simp add: b64_data_length_mod)
    with 2 show ?thesis by (simp only: b64_data_pad [of bs] Let_def) simp
  next
    case 3
    then have "length (b64_data bs) mod 4 = 3" by (simp add: b64_data_length_mod)
    with 3 show ?thesis by (simp only: b64_data_pad [of bs] Let_def) simp
  qed
qed

lemma b64url_decode_encode [simp]: "b64url_decode (b64url_encode bs) = Some bs"
proof -
  have "\<forall>c \<in> set (urlsafe_b64encode bs). (of_char c :: nat) < 128"
    unfolding b64_data_pad [of bs] by (auto dest!: b64_data_urlsafe urlsafe_ascii)
  then show ?thesis
    using repad [of bs]
    by (simp add: b64url_decode_def b64url_encode_data Let_def urlsafe_b64decode_def
        a2b_urlsafe_b64encode)
qed

lemma b64url_encode_inj: "b64url_encode a = b64url_encode b \<longleftrightarrow> a = b"
  by (metis b64url_decode_encode option.inject)

lemma b64url_encode_urlsafe: "c \<in> set (b64url_encode bs) \<Longrightarrow> urlsafe_char c"
  by (simp add: b64url_encode_data b64_data_urlsafe)

end
