(* ===== verification/Json.thy ===== *)
theory Json
  imports Base64
begin

text \<open>
  JSON documents and Python's reading and writing of them: \<open>json.dumps\<close> (with its default
  and with the compact separators, ASCII output), \<open>json.loads\<close> on text, the reading of
  dictionaries (\<open>dict.get\<close>, truth value, \<open>repr\<close>), and \<open>canonical_jwk\<close> of
  \<^verbatim>\<open>_util.py\<close>.  \<open>None\<close> stands for the exception \<open>loads\<close> raises.  A number
  with a fraction or an exponent keeps its spelling (\<open>JFloat\<close>).  The lemmas show that
  \<open>loads\<close> inverts \<open>dumps\<close>, that the parser's fuel is enough for every input, and that
  the canonical text of a key depends on its fields and not on their order.
\<close>

section \<open>Values\<close>

datatype json =
    JNull
  | JBool bool
  | JInt int
  | JFloat string
  | JStr string
  | JArr "json list"
  | JObj "(string \<times> json) list"

text \<open>A Python dictionary as its items in insertion order.\<close>

definition dict_set :: "string \<Rightarrow> 'v \<Rightarrow> (string \<times> 'v) list \<Rightarrow> (string \<times> 'v) list" where
  "dict_set k v d =
     (if k \<in> set (map fst d) then map (\<lambda>(k', v'). if k' = k then (k', v) else (k', v')) d
      else d @ [(k, v)])"

definition dict_of :: "(string \<times> 'v) list \<Rightarrow> (string \<times> 'v) list" where
  "dict_of kvs = foldl (\<lambda>d (k, v). dict_set k v d) [] kvs"

text \<open>\<open>d.get(k)\<close>: a missing key and a JSON null both read as \<open>None\<close>.\<close>

definition dict_get :: "string \<Rightarrow> json \<Rightarrow> (string \<times> json) list \<Rightarrow> json" where
  "dict_get k dflt d = (case map_of d k of None \<Rightarrow> dflt | Some v \<Rightarrow> v)"

fun truthy :: "json \<Rightarrow> bool" where
  "truthy JNull = False"
| "truthy (JBool b) = b"
| "truthy (JInt n) = (n \<noteq> 0)"
| "truthy (JFloat l) = (\<exists>c \<in> set (takeWhile (\<lambda>c. c \<noteq> CHR ''e'' \<and> c \<noteq> CHR ''E'') l).
      c \<notin> {CHR ''0'', CHR ''.'', CHR ''-''})"
| "truthy (JStr s) = (s \<noteq> [])"
| "truthy (JArr xs) = (xs \<noteq> [])"
| "truthy (JObj kvs) = (kvs \<noteq> [])"

section \<open>Writing\<close>

definition hex_byte :: "nat \<Rightarrow> string" where
  "hex_byte n = [digit_char (n div 16), digit_char (n mod 16)]"

definition json_escape :: "char \<Rightarrow> string" where
  "json_escape c = (let n = of_char c :: nat in
     if n = 34 then [CHR 0x5C, CHR 0x22]
     else if n = 92 then [CHR 0x5C, CHR 0x5C]
     else if n = 10 then [CHR 0x5C, CHR ''n'']
     else if n = 13 then [CHR 0x5C, CHR ''r'']
     else if n = 9 then [CHR 0x5C, CHR ''t'']
     else if n = 12 then [CHR 0x5C, CHR ''f'']
     else if n = 8 then [CHR 0x5C, CHR ''b'']
     else if 32 \<le> n \<and> n \<le> 126 then [c]
     else [CHR 0x5C, CHR ''u'', CHR ''0'', CHR ''0''] @ hex_byte n)"

definition json_quote :: "string \<Rightarrow> string" where
  "json_quote s = CHR 0x22 # concat (map json_escape s) @ [CHR 0x22]"

fun jtext :: "string \<Rightarrow> string \<Rightarrow> json \<Rightarrow> string"
  and jelems :: "string \<Rightarrow> string \<Rightarrow> json list \<Rightarrow> string"
  and jmembers :: "string \<Rightarrow> string \<Rightarrow> (string \<times> json) list \<Rightarrow> string" where
  "jtext i k JNull = ''null''"
| "jtext i k (JBool b) = (if b then ''true'' else ''false'')"
| "jtext i k (JInt n) = int_str n"
| "jtext i k (JFloat l) = l"
| "jtext i k (JStr s) = json_quote s"
| "jtext i k (JArr xs) = CHR ''['' # jelems i k xs @ '']''"
| "jtext i k (JObj kvs) = CHR ''{'' # jmembers i k kvs @ ''}''"
| "jelems i k [] = []"
| "jelems i k [v] = jtext i k v"
| "jelems i k (v # w # vs) = jtext i k v @ i @ jelems i k (w # vs)"
| "jmembers i k [] = []"
| "jmembers i k [(key, v)] = json_quote key @ k @ jtext i k v"
| "jmembers i k ((key, v) # kv # kvs) =
     json_quote key @ k @ jtext i k v @ i @ jmembers i k (kv # kvs)"

definition json_dumps :: "json \<Rightarrow> string" where
  "json_dumps j = jtext '', '' '': '' j"

text \<open>\<open>sort_keys=True\<close>: the items of every dictionary in the order of their keys.\<close>

fun sort_json :: "json \<Rightarrow> json" where
  "sort_json (JArr xs) = JArr (map sort_json xs)"
| "sort_json (JObj kvs) = JObj (sort_key fst (map (\<lambda>kv. (fst kv, sort_json (snd kv))) kvs))"
| "sort_json j = j"

definition canonical_jwk :: "json \<Rightarrow> string" where
  "canonical_jwk jwk_data = jtext '','' '':'' (sort_json jwk_data)"

section \<open>Reading\<close>

definition json_ws :: "char \<Rightarrow> bool" where
  "json_ws c \<longleftrightarrow> (let n = of_char c :: nat in n = 32 \<or> n = 9 \<or> n = 10 \<or> n = 13)"

definition skip_ws :: "string \<Rightarrow> string" where
  "skip_ws s = dropWhile json_ws s"

definition simple_escape :: "char \<Rightarrow> char option" where
  "simple_escape c = (let n = of_char c :: nat in
     if n = 34 \<or> n = 92 \<or> n = 47 then Some c
     else if c = CHR ''b'' then Some (CHR 0x08) else if c = CHR ''f'' then Some (CHR 0x0C)
     else if c = CHR ''n'' then Some (CHR 0x0A) else if c = CHR ''r'' then Some (CHR 0x0D)
     else if c = CHR ''t'' then Some (CHR 0x09) else None)"

text \<open>
  The rest of a string literal after its opening quote.  A unicode escape beyond code point
  255 lies outside the modelled text and is reported as a failure.
\<close>

definition hex4 :: "char \<Rightarrow> char \<Rightarrow> char \<Rightarrow> char \<Rightarrow> char option" where
  "hex4 a b c d = (case (char_digit a, char_digit b, char_digit c, char_digit d) of
     (Some w, Some x, Some y, Some z) \<Rightarrow>
       if w = 0 \<and> x = 0 then Some (char_of (y * 16 + z)) else None
   | _ \<Rightarrow> None)"

fun parse_str :: "string \<Rightarrow> (string \<times> string) option" where
  "parse_str [] = None"
| "parse_str (c # cs) =
     (if c = CHR 0x22 then Some ([], cs)
      else if c = CHR 0x5C then
        (case cs of
           [] \<Rightarrow> None
         | e # cs' \<Rightarrow>
             if e = CHR ''u'' then
               (case cs' of
                  w # x # y # z # cs'' \<Rightarrow>
                    (case hex4 w x y z of
                       None \<Rightarrow> None
                     | Some ch \<Rightarrow> map_option (\<lambda>(t, r). (ch # t, r)) (parse_str cs''))
                | _ \<Rightarrow> None)
             else (case simple_escape e of
                 None \<Rightarrow> None
               | Some ch \<Rightarrow> map_option (\<lambda>(t, r). (ch # t, r)) (parse_str cs')))
      else if (of_char c :: nat) < 32 then None
      else map_option (\<lambda>(t, r). (c # t, r)) (parse_str cs))"

definition scan_frac :: "string \<Rightarrow> string \<times> string" where
  "scan_frac s = (case s of
     c # d # cs \<Rightarrow> if c = CHR ''.'' \<and> is_digit d
       then (c # takeWhile is_digit (d # cs), dropWhile is_digit (d # cs)) else ([], s)
   | _ \<Rightarrow> ([], s))"

definition scan_exp :: "string \<Rightarrow> string \<times> string" where
  "scan_exp s = (case s of
     c # cs \<Rightarrow>
       if c = CHR ''e'' \<or> c = CHR ''E'' then
         (let sign = (case cs of d # _ \<Rightarrow> if d = CHR ''+'' \<or> d = CHR ''-'' then [d] else [] | [] \<Rightarrow> []);
              digs = drop (length sign) cs
          in if takeWhile is_digit digs \<noteq> []
             then (c # sign @ takeWhile is_digit digs, dropWhile is_digit digs) else ([], s))
       else ([], s)
   | [] \<Rightarrow> ([], s))"

definition digits_val :: "string \<Rightarrow> nat" where
  "digits_val s = of_digits 10 (map (\<lambda>c. of_char c - 48) s)"

definition parse_unsigned :: "bool \<Rightarrow> string \<Rightarrow> (json \<times> string) option" where
  "parse_unsigned neg s = (case s of
     [] \<Rightarrow> None
   | c # cs \<Rightarrow>
       if \<not> is_digit c then None
       else let ip = (if c = CHR ''0'' then [c] else takeWhile is_digit s);
                r1 = (if c = CHR ''0'' then cs else dropWhile is_digit s);
                (fp, r2) = scan_frac r1;
                (ep, r3) = scan_exp r2
            in if fp = [] \<and> ep = []
               then Some (JInt (if neg then - int (digits_val ip) else int (digits_val ip)), r3)
               else Some (JFloat ((if neg then ''-'' else '''') @ ip @ fp @ ep), r3))"

definition parse_scalar :: "string \<Rightarrow> (json \<times> string) option" where
  "parse_scalar s =
     (if startswith s ''null'' then Some (JNull, drop 4 s)
      else if startswith s ''true'' then Some (JBool True, drop 4 s)
      else if startswith s ''false'' then Some (JBool False, drop 5 s)
      else if startswith s ''NaN'' then Some (JFloat ''NaN'', drop 3 s)
      else if startswith s ''Infinity'' then Some (JFloat ''Infinity'', drop 8 s)
      else if startswith s ''-Infinity'' then Some (JFloat ''-Infinity'', drop 9 s)
      else if startswith s ''-'' then parse_unsigned True (drop 1 s)
      else parse_unsigned False s)"

fun pval :: "nat \<Rightarrow> string \<Rightarrow> (json \<times> string) option"
  and pelems :: "nat \<Rightarrow> string \<Rightarrow> (json list \<times> string) option"
  and pmembers :: "nat \<Rightarrow> string \<Rightarrow> ((string \<times> json) list \<times> string) option" where
  "pval 0 s = None"
| "pval (Suc n) s = (case s of
     [] \<Rightarrow> None
   | c # cs \<Rightarrow>
       if c = CHR 0x22 then map_option (\<lambda>(t, r). (JStr t, r)) (parse_str cs)
       else if c = CHR ''['' then
         (if startswith (skip_ws cs) '']'' then Some (JArr [], drop 1 (skip_ws cs))
          else map_option (\<lambda>(vs, r). (JArr vs, r)) (pelems n (skip_ws cs)))
       else if c = CHR ''{'' then
         (if startswith (skip_ws cs) ''}'' then Some (JObj [], drop 1 (skip_ws cs))
          else map_option (\<lambda>(kvs, r). (JObj (dict_of kvs), r)) (pmembers n (skip_ws cs)))
       else parse_scalar s)"
| "pelems 0 s = None"
| "pelems (Suc n) s = (case pval n s of
     None \<Rightarrow> None
   | Some (v, r) \<Rightarrow> (case skip_ws r of
       [] \<Rightarrow> None
     | c # r' \<Rightarrow>
         if c = CHR '']'' then Some ([v], r')
         else if c = CHR '','' then map_option (\<lambda>(vs, r2). (v # vs, r2)) (pelems n (skip_ws r'))
         else None))"
| "pmembers 0 s = None"
| "pmembers (Suc n) s = (case s of
     [] \<Rightarrow> None
   | q # cs \<Rightarrow>
       if q \<noteq> CHR 0x22 then None
       else (case parse_str cs of
           None \<Rightarrow> None
         | Some (key, r) \<Rightarrow>
             if \<not> startswith (skip_ws r) '':'' then None
             else (case pval n (skip_ws (drop 1 (skip_ws r))) of
                 None \<Rightarrow> None
               | Some (v, r1) \<Rightarrow> (case skip_ws r1 of
                   [] \<Rightarrow> None
                 | c # r' \<Rightarrow>
                     if c = CHR ''}'' then Some ([(key, v)], r')
                     else if c = CHR '','' then
                       map_option (\<lambda>(kvs, r2). ((key, v) # kvs, r2)) (pmembers n (skip_ws r'))
                     else None))))"

definition json_loads :: "string \<Rightarrow> json option" where
  "json_loads s = (let t = skip_ws s in
     case pval (2 * length t + 1) t of
       None \<Rightarrow> None
     | Some (v, r) \<Rightarrow> if skip_ws r = [] then Some v else None)"

section \<open>Reading back what was written\<close>

lemma char_eq_of_nat: "(of_char c :: nat) = n \<Longrightarrow> c = char_of n"
  by (metis char_of_char)

lemma hex4_byte: "n < 256 \<Longrightarrow>
    hex4 (CHR ''0'') (CHR ''0'') (digit_char (n div 16)) (digit_char (n mod 16)) = Some (char_of n)"
  by (simp add: hex4_def char_digit_digit_char) (simp add: char_digit_def)

lemma parse_str_plain:
  assumes "of_char c \<noteq> (34 :: nat)" "of_char c \<noteq> (92 :: nat)" "32 \<le> (of_char c :: nat)"
  shows "parse_str (c # t) = map_option (\<lambda>(u, r). (c # u, r)) (parse_str t)"
  using assms by auto

lemma parse_str_simple:
  assumes "simple_escape e = Some ch" "e \<noteq> CHR ''u''"
  shows "parse_str (CHR 0x5C # e # t) = map_option (\<lambda>(u, r). (ch # u, r)) (parse_str t)"
  using assms by simp

lemma parse_str_unicode:
  "parse_str ([CHR 0x5C, CHR ''u'', CHR ''0'', CHR ''0''] @ hex_byte (of_char c) @ t) =
     map_option (\<lambda>(u, r). (c # u, r)) (parse_str t)"
  by (simp add: hex_byte_def hex4_byte)

lemma parse_str_escape:
  "parse_str (json_escape c @ t) = map_option (\<lambda>(u, r). (c # u, r)) (parse_str t)"
proof -
  have e: "simple_escape (CHR 0x22) = Some (CHR 0x22)" "simple_escape (CHR 0x5C) = Some (CHR 0x5C)"
    "simple_escape (CHR ''n'') = Some (CHR 0x0A)" "simple_escape (CHR ''r'') = Some (CHR 0x0D)"
    "simple_escape (CHR ''t'') = Some (CHR 0x09)" "simple_escape (CHR ''f'') = Some (CHR 0x0C)"
    "simple_escape (CHR ''b'') = Some (CHR 0x08)"
    by (simp_all add: simple_escape_def)
  have chars: "char_of (34 :: nat) = CHR 0x22" "char_of (92 :: nat) = CHR 0x5C"
    "char_of (10 :: nat) = CHR 0x0A" "char_of (13 :: nat) = CHR 0x0D" "char_of (9 :: nat) = CHR 0x09"
    "char_of (12 :: nat) = CHR 0x0C" "char_of (8 :: nat) = CHR 0x08"
    by (simp_all add: char_of_def bit_0)
  consider (q) "of_char c = (34 :: nat)" | (b) "of_char c = (92 :: nat)" | (n) "of_char c = (10 :: nat)"
    | (r) "of_char c = (13 :: nat)" | (t) "of_char c = (9 :: nat)" | (f) "of_char c = (12 :: nat)"
    | (bs) "of_char c = (8 :: nat)"
    | (plain) "of_char c \<notin> {34, 92, 10, 13, 9, 12, 8 :: nat}" "32 \<le> (of_char c :: nat)"
        "of_char c \<le> (126 :: nat)"
    | (uni) "of_char c \<notin> {34, 92, 10, 13, 9, 12, 8 :: nat}"
        "\<not> (32 \<le> (of_char c :: nat) \<and> of_char c \<le> (126 :: nat))"
    by blast
  then show ?thesis
  proof cases
    case plain
    then have "json_escape c = [c]" by (simp add: json_escape_def Let_def)
    with plain show ?thesis by (simp add: parse_str_plain del: parse_str.simps)
  next
    case uni
    then have "json_escape c = [CHR 0x5C, CHR ''u'', CHR ''0'', CHR ''0''] @ hex_byte (of_char c)"
      by (simp add: json_escape_def Let_def)
    then show ?thesis using parse_str_unicode [of c t] by (simp del: parse_str.simps)
  qed (auto simp: json_escape_def parse_str_simple e chars simp del: parse_str.simps
        dest!: char_eq_of_nat)
qed

lemma parse_str_quote: "parse_str (concat (map json_escape s) @ CHR 0x22 # rest) = Some (s, rest)"
  by (induction s) (simp_all add: parse_str_escape del: parse_str.simps(2), simp)

definition num_end :: "string \<Rightarrow> bool" where
  "num_end rest \<longleftrightarrow> rest = [] \<or> (\<not> is_digit (hd rest) \<and> hd rest \<notin> {CHR ''.'', CHR ''e'', CHR ''E''})"

lemma scan_end: "num_end r \<Longrightarrow> scan_frac r = ([], r) \<and> scan_exp r = ([], r)"
  by (auto simp: num_end_def scan_frac_def scan_exp_def split: list.splits)

lemma digits_val_nat_str: "digits_val (nat_str 10 n) = n"
proof -
  have "of_char (digit_char d) - 48 = d" if "d \<in> set (nat_digits 10 n)" for d
    using nat_digits_bound [OF _ that] by (simp add: digit_char_def)
  then have "map (\<lambda>c. of_char c - 48) (nat_str 10 n) = nat_digits 10 n"
    by (auto simp: nat_str_def intro!: map_idI)
  then show ?thesis by (simp add: digits_val_def of_digits_nat_digits)
qed

lemma nat_str_digits: "c \<in> set (nat_str 10 n) \<Longrightarrow> is_digit c"
  using nat_digits_bound [of 10 _ n] by (auto simp: nat_str_def is_digit_digit_char)

lemma takeWhile_digits:
  assumes "num_end r"
  shows "takeWhile is_digit (nat_str 10 n @ r) = nat_str 10 n"
    and "dropWhile is_digit (nat_str 10 n @ r) = r"
  using assms nat_str_digits [of _ n]
  by (cases r; auto simp: num_end_def)+

lemma nat_str_zero_lead: "hd (nat_str 10 n) = CHR ''0'' \<Longrightarrow> nat_str 10 n = ''0''"
proof -
  assume a: "hd (nat_str 10 n) = CHR ''0''"
  have b: "hd (nat_digits 10 n) < 10" by (rule nat_digits_bound [of _ _ n]) simp_all
  from a have "digit_char (hd (nat_digits 10 n)) = CHR ''0''" by (simp add: nat_str_def hd_map)
  then have "char_digit (digit_char (hd (nat_digits 10 n))) = Some 0"
    by (simp add: char_digit_def)
  with b have "hd (nat_digits 10 n) = 0" by (simp add: char_digit_digit_char)
  then have "nat_digits 10 n = [0]" by (intro nat_digits_lead) auto
  then show ?thesis by (simp add: nat_str_def digit_char_def char_of_def bit_0)
qed

lemma parse_unsigned_nat_str:
  assumes "num_end r"
  shows "parse_unsigned neg (nat_str 10 n @ r) =
    Some (JInt (if neg then - int n else int n), r)"
proof -
  obtain c cs where eq: "nat_str 10 n = c # cs" by (cases "nat_str 10 n") auto
  have d: "is_digit c" using nat_str_digits [of c n] eq by simp
  have z: "c = CHR ''0'' \<Longrightarrow> cs = []" using nat_str_zero_lead [of n] eq by auto
  have v: "digits_val (c # cs) = n" using digits_val_nat_str [of n] eq by simp
  show ?thesis
    using takeWhile_digits [OF assms, of n] d z v scan_end [OF assms]
    by (auto simp: parse_unsigned_def eq Let_def)
qed

text \<open>
  Documents without fractional numbers whose dictionaries have distinct keys: everything the
  relay writes, and every document \<open>loads\<close> builds from integers, strings and containers.
\<close>

fun wf_json :: "json \<Rightarrow> bool" where
  "wf_json (JFloat l) = False"
| "wf_json (JArr xs) = list_all wf_json xs"
| "wf_json (JObj kvs) = (distinct (map fst kvs) \<and> list_all (\<lambda>kv. wf_json (snd kv)) kvs)"
| "wf_json j = True"

definition ok_seps :: "string \<Rightarrow> string \<Rightarrow> bool" where
  "ok_seps i k \<longleftrightarrow> (\<exists>u v. i = CHR '','' # u \<and> k = CHR '':'' # v \<and> list_all json_ws u \<and> list_all json_ws v)"

lemma skip_ws_append: "list_all json_ws u \<Longrightarrow> skip_ws (u @ t) = skip_ws t"
  by (induction u) (auto simp: skip_ws_def)

lemma skip_ws_id: "\<not> json_ws c \<Longrightarrow> skip_ws (c # t) = c # t"
  by (simp add: skip_ws_def)

lemma not_ws [simp]:
  "\<not> json_ws (CHR 0x22)" "\<not> json_ws (CHR ''['')" "\<not> json_ws (CHR '']'')" "\<not> json_ws (CHR ''{'')"
  "\<not> json_ws (CHR ''}'')" "\<not> json_ws (CHR '','')" "\<not> json_ws (CHR '':'')" "\<not> json_ws (CHR ''n'')"
  "\<not> json_ws (CHR ''t'')" "\<not> json_ws (CHR ''f'')" "\<not> json_ws (CHR ''-'')"
  by (simp_all add: json_ws_def)

lemma not_ws_digit: "is_digit c \<Longrightarrow> \<not> json_ws c"
  by (auto simp: json_ws_def is_digit_def Let_def)

lemma int_str_Cons:
  obtains c cs where "int_str n = c # cs" "c = CHR ''-'' \<or> is_digit c"
proof (cases "n < 0")
  case True
  then show ?thesis using that by (simp add: int_str_def)
next
  case False
  obtain c cs where "nat_str 10 (nat n) = c # cs" by (cases "nat_str 10 (nat n)") auto
  with False that show ?thesis using nat_str_digits [of c "nat n"] by (simp add: int_str_def)
qed

lemma jtext_skip_ws: "wf_json j \<Longrightarrow> skip_ws (jtext i k j @ rest) = jtext i k j @ rest"
proof (cases j)
  case (JInt n)
  then show ?thesis
    using int_str_Cons [of n] not_ws_digit by (metis append_Cons jtext.simps(3) not_ws(11) skip_ws_id)
qed (auto simp: skip_ws_id json_quote_def)

lemma parse_scalar_int: "num_end r \<Longrightarrow> parse_scalar (int_str n @ r) = Some (JInt n, r)"
proof -
  assume r: "num_end r"
  have d: "\<not> is_digit (CHR ''n'')" "\<not> is_digit (CHR ''t'')" "\<not> is_digit (CHR ''f'')"
    "\<not> is_digit (CHR ''N'')" "\<not> is_digit (CHR ''I'')" "\<not> is_digit (CHR ''-'')"
    by (simp_all add: is_digit_def)
  have h: "is_digit (hd (nat_str 10 m))" for m using nat_str_digits [of _ m] by simp
  have ne: "nat_str 10 m \<noteq> []" for m by simp
  show ?thesis
  proof (cases "n < 0")
    case True
    obtain c cs where eq: "nat_str 10 (nat (- n)) = c # cs" by (cases "nat_str 10 (nat (- n))") auto
    with h [of "nat (- n)"] have "is_digit c" by simp
    with True d eq parse_unsigned_nat_str [OF r, of True "nat (- n)"] show ?thesis
      by (auto simp: parse_scalar_def int_str_def startswith_def)
  next
    case False
    obtain c cs where eq: "nat_str 10 (nat n) = c # cs" by (cases "nat_str 10 (nat n)") auto
    with h [of "nat n"] have "is_digit c" by simp
    with False d eq parse_unsigned_nat_str [OF r, of False "nat n"] show ?thesis
      by (auto simp: parse_scalar_def int_str_def startswith_def)
  qed
qed

lemma jtext_hd:
  assumes "wf_json j"
  obtains c cs where "jtext i k j = c # cs" "\<not> json_ws c" "c \<noteq> CHR '']''" "c \<noteq> CHR ''}''"
proof (cases j)
  case (JInt n)
  obtain c cs where c: "int_str n = c # cs" "c = CHR ''-'' \<or> is_digit c" by (rule int_str_Cons)
  have nd: "\<not> is_digit (CHR '']'')" "\<not> is_digit (CHR ''}'')" by (simp_all add: is_digit_def)
  have "\<not> json_ws c" "c \<noteq> CHR '']''" "c \<noteq> CHR ''}''"
    using c(2) not_ws_digit nd by auto
  with c(1) JInt that show ?thesis by simp
next
  case (JBool b)
  with that show ?thesis by (cases b) auto
qed (use assms that in \<open>auto simp: json_quote_def\<close>)

lemma jelems_hd:
  assumes "xs \<noteq> []" "list_all wf_json xs"
  obtains c cs where "jelems i k xs = c # cs" "\<not> json_ws c" "c \<noteq> CHR '']''"
proof -
  obtain v vs where xs: "xs = v # vs" "wf_json v" using assms by (cases xs) auto
  obtain c cs where "jtext i k v = c # cs" "\<not> json_ws c" "c \<noteq> CHR '']''"
    using jtext_hd [OF xs(2)] by blast
  with xs that show ?thesis by (cases vs) auto
qed

lemma jmembers_hd:
  assumes "kvs \<noteq> []"
  obtains cs where "jmembers i k kvs = CHR 0x22 # cs"
proof -
  obtain key v vs where "kvs = (key, v) # vs" using assms by (cases kvs) auto
  with that show ?thesis by (cases vs) (auto simp: json_quote_def)
qed

lemma dict_set_fresh: "k \<notin> set (map fst d) \<Longrightarrow> dict_set k v d = d @ [(k, v)]"
  by (auto simp: dict_set_def)

lemma dict_of_distinct: "distinct (map fst kvs) \<Longrightarrow> dict_of kvs = kvs"
proof -
  have "distinct (map fst (d @ kvs)) \<Longrightarrow> foldl (\<lambda>d (k, v). dict_set k v d) d kvs = d @ kvs" for d
    by (induction kvs arbitrary: d) (auto simp: dict_set_fresh)
  from this [of "[]"] show "distinct (map fst kvs) \<Longrightarrow> dict_of kvs = kvs" by (simp add: dict_of_def)
qed

lemma num_end_closers [simp]:
  "num_end (CHR '']'' # r)" "num_end (CHR ''}'' # r)" "num_end (CHR '','' # r)" "num_end []"
  by (simp_all add: num_end_def is_digit_def)

lemma pval_array:
  assumes "list_all wf_json xs" "xs \<noteq> []" "pelems m (jelems i k xs @ CHR '']'' # rest) = Some (xs, rest)"
  shows "pval (Suc m) (jtext i k (JArr xs) @ rest) = Some (JArr xs, rest)"
proof -
  obtain c cs where "jelems i k xs = c # cs" "\<not> json_ws c" "c \<noteq> CHR '']''"
    using assms(1,2) jelems_hd [of xs i k] by blast
  with assms(3) show ?thesis by (auto simp: skip_ws_id startswith_def)
qed

lemma pval_object:
  assumes "kvs \<noteq> []" "distinct (map fst kvs)" "pmembers m (jmembers i k kvs @ CHR ''}'' # rest) = Some (kvs, rest)"
  shows "pval (Suc m) (jtext i k (JObj kvs) @ rest) = Some (JObj kvs, rest)"
proof -
  obtain cs where "jmembers i k kvs = CHR 0x22 # cs" using assms(1) jmembers_hd by blast
  with assms(2,3) show ?thesis by (auto simp: skip_ws_id startswith_def dict_of_distinct)
qed

lemma ok_sepsE:
  assumes "ok_seps i k"
  obtains u u' where "i = CHR '','' # u" "list_all json_ws u" "k = CHR '':'' # u'" "list_all json_ws u'"
  using assms by (auto simp: ok_seps_def)

lemma pelems_Cons:
  assumes "ok_seps i k" "list_all wf_json (w # vs)"
    "pval m (jtext i k v @ i @ jelems i k (w # vs) @ CHR '']'' # rest) = Some (v, i @ jelems i k (w # vs) @ CHR '']'' # rest)"
    "pelems m (jelems i k (w # vs) @ CHR '']'' # rest) = Some (w # vs, rest)"
  shows "pelems (Suc m) (jelems i k (v # w # vs) @ CHR '']'' # rest) = Some (v # w # vs, rest)"
proof -
  obtain u where i: "i = CHR '','' # u" "list_all json_ws u" using assms(1) by (rule ok_sepsE)
  obtain c cs where "jelems i k (w # vs) = c # cs" "\<not> json_ws c"
    using jelems_hd [of "w # vs" i k] assms(2) by (metis list.distinct(1))
  then have "skip_ws (u @ jelems i k (w # vs) @ CHR '']'' # rest) = jelems i k (w # vs) @ CHR '']'' # rest"
    by (simp add: skip_ws_append [OF i(2)] skip_ws_id)
  with assms(3,4) i show ?thesis by (simp add: skip_ws_id)
qed

lemma pmembers_Nil:
  assumes "ok_seps i k" "wf_json v" "pval m (jtext i k v @ CHR ''}'' # rest) = Some (v, CHR ''}'' # rest)"
  shows "pmembers (Suc m) (jmembers i k [(key, v)] @ CHR ''}'' # rest) = Some ([(key, v)], rest)"
proof -
  obtain u where k: "k = CHR '':'' # u" "list_all json_ws u" using assms(1) by (rule ok_sepsE)
  have "skip_ws (u @ jtext i k v @ CHR ''}'' # rest) = jtext i k v @ CHR ''}'' # rest"
    using assms(2) by (simp add: skip_ws_append [OF k(2)] jtext_skip_ws)
  with assms(3) k show ?thesis
    by (simp add: json_quote_def parse_str_quote skip_ws_id startswith_def)
qed

lemma pmembers_Cons:
  assumes "ok_seps i k" "wf_json v"
    "pval m (jtext i k v @ i @ jmembers i k (kv # kvs) @ CHR ''}'' # rest) = Some (v, i @ jmembers i k (kv # kvs) @ CHR ''}'' # rest)"
    "pmembers m (jmembers i k (kv # kvs) @ CHR ''}'' # rest) = Some (kv # kvs, rest)"
  shows "pmembers (Suc m) (jmembers i k ((key, v) # kv # kvs) @ CHR ''}'' # rest) = Some ((key, v) # kv # kvs, rest)"
proof -
  let ?tl = "jmembers i k (kv # kvs) @ CHR ''}'' # rest"
  obtain u u' where i: "i = CHR '','' # u" "list_all json_ws u" and k: "k = CHR '':'' # u'" "list_all json_ws u'"
    using assms(1) by (rule ok_sepsE)
  have s1: "skip_ws (u' @ jtext i k v @ i @ ?tl) = jtext i k v @ i @ ?tl"
    using assms(2) by (simp add: skip_ws_append [OF k(2)] jtext_skip_ws)
  obtain cs where "jmembers i k (kv # kvs) = CHR 0x22 # cs" using jmembers_hd by blast
  then have s2: "skip_ws (u @ ?tl) = ?tl" by (simp add: skip_ws_append [OF i(2)] skip_ws_id)
  from assms(3,4) k i s1 s2 show ?thesis
    by (simp add: json_quote_def parse_str_quote skip_ws_id startswith_def)
qed

lemma jtext_pval:
  assumes seps: "ok_seps i k"
  shows "wf_json j \<Longrightarrow> num_end rest \<Longrightarrow> 2 * length (jtext i k j) + 1 \<le> n
           \<Longrightarrow> pval n (jtext i k j @ rest) = Some (j, rest)"
    and "list_all wf_json xs \<Longrightarrow> xs \<noteq> [] \<Longrightarrow> 2 * length (jelems i k xs) + 2 \<le> n
           \<Longrightarrow> pelems n (jelems i k xs @ CHR '']'' # rest) = Some (xs, rest)"
    and "list_all (\<lambda>kv. wf_json (snd kv)) kvs \<Longrightarrow> kvs \<noteq> [] \<Longrightarrow> 2 * length (jmembers i k kvs) + 2 \<le> n
           \<Longrightarrow> pmembers n (jmembers i k kvs @ CHR ''}'' # rest) = Some (kvs, rest)"
  using seps
proof (induction i k j and i k xs and i k kvs arbitrary: n rest and n rest and n rest
    rule: jtext_jelems_jmembers.induct)
  case (1 i k) then show ?case by (cases n) (auto simp: parse_scalar_def startswith_def)
next
  case (2 i k b) then show ?case by (cases n) (auto simp: parse_scalar_def startswith_def)
next
  case (3 i k m)
  obtain c cs where c: "int_str m = c # cs" "c = CHR ''-'' \<or> is_digit c" by (rule int_str_Cons)
  then have nc: "c \<noteq> CHR 0x22" "c \<noteq> CHR ''[''" "c \<noteq> CHR ''{''" by (auto simp: is_digit_def)
  from 3 show ?case using parse_scalar_int [of rest m] c(1) nc by (cases n) auto
next
  case (4 i k l) then show ?case by simp
next
  case (5 i k s) then show ?case by (cases n) (auto simp: json_quote_def parse_str_quote)
next
  case (6 i k xs)
  then obtain m where n: "n = Suc m" by (cases n) auto
  show ?case
  proof (cases "xs = []")
    case False
    with 6 n show ?thesis unfolding n by (intro pval_array) auto
  qed (simp add: n skip_ws_id startswith_def)
next
  case (7 i k kvs)
  then obtain m where n: "n = Suc m" by (cases n) auto
  show ?case
  proof (cases "kvs = []")
    case False
    with 7 n show ?thesis unfolding n by (intro pval_object) auto
  qed (simp add: n skip_ws_id startswith_def)
next
  case (9 i k v)
  then obtain m where n: "n = Suc m" by (cases n) auto
  with 9 show ?case by (simp add: skip_ws_id)
next
  case (10 i k v w vs)
  then obtain m where n: "n = Suc m" by (cases n) auto
  obtain u where "i = CHR '','' # u" using "10.prems"(4) by (rule ok_sepsE)
  with 10 n show ?case unfolding n by (intro pelems_Cons) auto
next
  case (12 i k key v)
  then obtain m where n: "n = Suc m" by (cases n) auto
  with 12 show ?case unfolding n by (intro pmembers_Nil) (auto simp: json_quote_def)
next
  case (13 i k key v kv kvs)
  then obtain m where n: "n = Suc m" by (cases n) auto
  obtain u where "i = CHR '','' # u" using "13.prems"(4) by (rule ok_sepsE)
  with 13 n show ?case unfolding n by (intro pmembers_Cons) (auto simp: json_quote_def)
qed simp_all

lemma ok_seps_used [simp]: "ok_seps '', '' '': ''" "ok_seps '','' '':''"
  by (simp_all add: ok_seps_def json_ws_def)

lemma json_loads_jtext: "ok_seps i k \<Longrightarrow> wf_json j \<Longrightarrow> json_loads (jtext i k j) = Some j"
  using jtext_pval(1) [of i k j "[]" "2 * length (jtext i k j) + 1"] jtext_skip_ws [of j i k "[]"]
  by (simp add: json_loads_def skip_ws_def)

lemma json_loads_dumps [simp]: "wf_json j \<Longrightarrow> json_loads (json_dumps j) = Some j"
  by (simp add: json_dumps_def json_loads_jtext)

lemma json_dumps_inj: "wf_json a \<Longrightarrow> wf_json b \<Longrightarrow> json_dumps a = json_dumps b \<longleftrightarrow> a = b"
  by (metis json_loads_dumps option.inject)

lemma json_dumps_nonempty: "wf_json j \<Longrightarrow> json_dumps j \<noteq> []"
  unfolding json_dumps_def by (metis jtext_hd list.distinct(1))

section \<open>The parser's fuel\<close>

lemma parse_str_length: "parse_str s = Some (t, r) \<Longrightarrow> length r < length s"
proof (induction "length s" arbitrary: s t rule: less_induct)
  case less
  have IH: "length r < length s" if "parse_str u = Some (t', r)" "length u < length s" for u t'
    using less.hyps [OF that(2,1)] that(2) by simp
  from less.prems show ?case
    by (cases s) (auto split: if_splits list.splits option.splits dest!: IH)
qed

lemma scan_frac_length: "length (snd (scan_frac s)) \<le> length s"
  by (auto simp: scan_frac_def length_dropWhile_le intro!: le_SucI split: list.splits)

lemma scan_exp_length: "length (snd (scan_exp s)) \<le> length s"
proof -
  have "length (dropWhile P (drop m t)) \<le> Suc (length t)" for P and t :: string and m
    using length_dropWhile_le [of P "drop m t"] by simp
  then show ?thesis by (auto simp: scan_exp_def Let_def split: list.splits)
qed

lemma parse_unsigned_length: "parse_unsigned neg s = Some (v, r) \<Longrightarrow> length r < length s"
proof (cases s)
  case (Cons c cs)
  let ?r1 = "if c = CHR ''0'' then cs else dropWhile is_digit s"
  assume a: "parse_unsigned neg s = Some (v, r)"
  then have d: "is_digit c" using Cons by (auto simp: parse_unsigned_def split: if_splits)
  then have "length ?r1 < length s" using Cons length_dropWhile_le [of is_digit cs] by (auto simp: le_imp_less_Suc)
  moreover have "r = snd (scan_exp (snd (scan_frac ?r1)))"
    using a Cons d by (auto simp: parse_unsigned_def Let_def split: prod.splits if_splits)
  ultimately show ?thesis
    using scan_exp_length [of "snd (scan_frac ?r1)"] scan_frac_length [of ?r1] by simp
qed (simp add: parse_unsigned_def)

lemma parse_scalar_length: "s \<noteq> [] \<Longrightarrow> parse_scalar s = Some (v, r) \<Longrightarrow> length r < length s"
  by (auto simp: parse_scalar_def split: if_splits dest!: parse_unsigned_length)

lemma skip_ws_length: "length (skip_ws s) \<le> length s"
  by (simp add: skip_ws_def length_dropWhile_le)

lemma pval_length:
  "pval n s = Some (v, r) \<Longrightarrow> length r < length s"
  "pelems n s = Some (vs, r) \<Longrightarrow> length r < length s"
  "pmembers n s = Some (kvs, r) \<Longrightarrow> length r < length s"
proof (induction n s and n s and n s arbitrary: v r and vs r and kvs r
    rule: pval_pelems_pmembers.induct)
  case (2 n s)
  show ?case
  proof (cases s)
    case (Cons c cs)
    have ws: "length (skip_ws cs) \<le> length cs" by (rule skip_ws_length)
    note IH = "2.IH"(1) [OF Cons] "2.IH"(2) [OF Cons]
    show ?thesis
      using "2.prems" Cons IH ws parse_str_length parse_scalar_length [of s v r]
      by (auto split: if_splits) fastforce+
  qed (use "2.prems" in simp)
next
  case (4 n s)
  from "4.prems" obtain w t c t' where p: "pval n s = Some (w, t)" "skip_ws t = c # t'"
    by (auto split: option.splits list.splits)
  have a: "length t < length s" using "4.IH"(1) [OF p(1)] .
  have b: "length t' < length t" using skip_ws_length [of t] p(2) by simp
  from "4.prems" p show ?case
    using a b "4.IH"(2) [OF p(1) refl p(2)] skip_ws_length [of t']
    by (auto split: if_splits)
next
  case (6 n s)
  from "6.prems" obtain cs key t w u c u' where
    p: "s = CHR 0x22 # cs" "parse_str cs = Some (key, t)" "startswith (skip_ws t) '':''"
      "pval n (skip_ws (drop 1 (skip_ws t))) = Some (w, u)" "skip_ws u = c # u'"
    by (auto split: option.splits list.splits if_splits)
  have a: "length t < length cs" by (rule parse_str_length [OF p(2)])
  have b: "length (skip_ws (drop 1 (skip_ws t))) \<le> length t"
    using skip_ws_length [of t] skip_ws_length [of "drop 1 (skip_ws t)"] by simp
  have c: "length u < length (skip_ws (drop 1 (skip_ws t)))"
    using "6.IH"(1) [of "CHR 0x22" cs] p by auto
  have d: "length u' < length u" using skip_ws_length [of u] p(5) by simp
  have e: "c = CHR '','' \<Longrightarrow> pmembers n (skip_ws u') = Some (l, r) \<Longrightarrow> length r < length s" for l
    using "6.IH"(2) [of "CHR 0x22" cs "(key, t)" key t "(w, u)" w u c u' l r] p a b c d skip_ws_length [of u']
    by (auto split: if_splits)
  from "6.prems" p e a b c d show ?case by (auto split: if_splits)
qed simp_all

lemma pval_fuel:
  "2 * length s + 1 \<le> n \<Longrightarrow> n \<le> m \<Longrightarrow> pval m s = pval n s"
  "2 * length s + 2 \<le> n \<Longrightarrow> n \<le> m \<Longrightarrow> pelems m s = pelems n s"
  "2 * length s + 2 \<le> n \<Longrightarrow> n \<le> m \<Longrightarrow> pmembers m s = pmembers n s"
proof (induction n s and n s and n s arbitrary: m and m and m rule: pval_pelems_pmembers.induct)
  case (2 n s)
  obtain m' where m: "m = Suc m'" "n \<le> m'" using "2.prems" by (cases m) auto
  show ?case
  proof (cases s)
    case (Cons c cs)
    have ws: "2 * length (skip_ws cs) + 2 \<le> n" using skip_ws_length [of cs] "2.prems" Cons by simp
    have e: "c = CHR ''['' \<Longrightarrow> \<not> startswith (skip_ws cs) '']'' \<Longrightarrow>
        pelems m' (skip_ws cs) = pelems n (skip_ws cs)"
      using "2.IH"(1) [OF Cons, of m'] ws m by simp
    have f: "c = CHR ''{'' \<Longrightarrow> \<not> startswith (skip_ws cs) ''}'' \<Longrightarrow>
        pmembers m' (skip_ws cs) = pmembers n (skip_ws cs)"
      using "2.IH"(2) [OF Cons, of m'] ws m by simp
    show ?thesis using e f by (simp add: Cons m)
  qed (simp add: m)
next
  case (4 n s)
  obtain m' where m: "m = Suc m'" "n \<le> m'" using "4.prems" by (cases m) auto
  have v: "pval m' s = pval n s" using "4.IH"(1) [where m = m'] "4.prems" m by simp
  have vs: "pelems m' (skip_ws t') = pelems n (skip_ws t')"
    if p: "pval n s = Some (w, t)" "skip_ws t = CHR '','' # t'" for w t t'
  proof -
    have "length t < length s" by (rule pval_length(1) [OF p(1)])
    moreover have "length t' < length t" using skip_ws_length [of t] p(2) by simp
    ultimately have "2 * length (skip_ws t') + 2 \<le> n" using skip_ws_length [of t'] "4.prems" by simp
    then show ?thesis using "4.IH"(2) [OF p(1) refl p(2), where m = m'] m by simp
  qed
  show ?case using vs by (auto simp: m v split: option.splits list.splits)
next
  case (6 n s)
  obtain m' where m: "m = Suc m'" "n \<le> m'" using "6.prems" by (cases m) auto
  have v: "pval m' (skip_ws (drop 1 (skip_ws t))) = pval n (skip_ws (drop 1 (skip_ws t)))"
    if p: "s = CHR 0x22 # cs" "parse_str cs = Some (key, t)" "startswith (skip_ws t) '':''" for cs key t
  proof -
    have "2 * length (skip_ws (drop 1 (skip_ws t))) + 1 \<le> n"
      using parse_str_length [OF p(2)] p(1) "6.prems" skip_ws_length [of t]
        skip_ws_length [of "drop 1 (skip_ws t)"] by simp
    then show ?thesis using "6.IH"(1) [OF p(1) _ p(2) refl, where m = m'] p(3) m by simp
  qed
  have vs: "pmembers m' (skip_ws u') = pmembers n (skip_ws u')"
    if p: "s = CHR 0x22 # cs" "parse_str cs = Some (key, t)" "startswith (skip_ws t) '':''"
      "pval n (skip_ws (drop 1 (skip_ws t))) = Some (w, u)" "skip_ws u = CHR '','' # u'" for cs key t w u u'
  proof -
    have "length t < length cs" by (rule parse_str_length [OF p(2)])
    moreover have "length u < length (skip_ws (drop 1 (skip_ws t)))" by (rule pval_length(1) [OF p(4)])
    ultimately have "2 * length (skip_ws u') + 2 \<le> n"
      using p(1,5) "6.prems" skip_ws_length [of t] skip_ws_length [of u] skip_ws_length [of u']
        skip_ws_length [of "drop 1 (skip_ws t)"] by simp
    then show ?thesis using "6.IH"(2) [OF p(1) _ p(2) refl _ p(4) refl p(5), where m = m'] p(3) m by simp
  qed
  show ?case using v vs by (auto simp: m split: option.splits list.splits)
qed auto

text \<open>
  The fuel \<open>json_loads\<close> gives the parser is enough: with any larger amount the answer is
  the same, so no document is rejected for want of fuel.
\<close>

lemma json_loads_fuel:
  "2 * length (skip_ws s) + 1 \<le> n \<Longrightarrow>
   json_loads s = (case pval n (skip_ws s) of
       None \<Rightarrow> None | Some (v, r) \<Rightarrow> if skip_ws r = [] then Some v else None)"
  using pval_fuel(1) [of "skip_ws s" "2 * length (skip_ws s) + 1" n] by (simp add: json_loads_def Let_def)

section \<open>Canonical text of a key\<close>

text \<open>Two documents are the same dictionary when sorting their items makes them equal.\<close>

lemma distinct_map_sort_key: "distinct (map f (sort_key f xs)) \<longleftrightarrow> distinct (map f xs)"
  by (simp add: distinct_map)

lemma wf_sort_json: "wf_json j \<Longrightarrow> wf_json (sort_json j)"
proof (induction j rule: wf_json.induct)
  case (3 kvs)
  have "distinct (map fst (sort_key fst (map (\<lambda>kv. (fst kv, sort_json (snd kv))) kvs)))"
    using "3.prems" by (simp only: distinct_map_sort_key) (simp add: comp_def)
  with 3 show ?case by (auto simp: list_all_iff)
qed (auto simp: list_all_iff)

lemma canonical_jwk_eq_iff:
  "wf_json a \<Longrightarrow> wf_json b \<Longrightarrow> canonical_jwk a = canonical_jwk b \<longleftrightarrow> sort_json a = sort_json b"
  unfolding canonical_jwk_def
  by (metis json_loads_jtext ok_seps_used(2) option.inject wf_sort_json)

lemma canonical_jwk_loads: "wf_json j \<Longrightarrow> json_loads (canonical_jwk j) = Some (sort_json j)"
  by (simp add: canonical_jwk_def json_loads_jtext wf_sort_json)

text \<open>The order of the members does not matter.\<close>

lemma sort_json_members:
  assumes "distinct (map fst kvs)" "distinct (map fst kvs')" "set kvs = set kvs'"
  shows "sort_json (JObj kvs) = sort_json (JObj kvs')"
proof -
  let ?f = "\<lambda>kv. (fst kv, sort_json (snd kv))"
  have d: "distinct (map fst (sort_key fst (map ?f xs)))" if "distinct (map fst xs)" for xs
    using that by (simp only: distinct_map_sort_key) (simp add: comp_def)
  have s: "set (sort_key fst (map ?f kvs)) = set (sort_key fst (map ?f kvs'))" using assms(3) by simp
  have "inj_on fst (set (sort_key fst (map ?f kvs)) \<union> set (sort_key fst (map ?f kvs')))"
    using d [OF assms(1)] s unfolding distinct_map by simp
  then have "sort_key fst (map ?f kvs) = sort_key fst (map ?f kvs')"
    by (rule map_sorted_distinct_set_unique) (use d [OF assms(1)] d [OF assms(2)] s in simp_all)
  then show ?thesis by simp
qed

end
