(* ===== verification/Config.thy ===== *)
theory Config
  imports Json
begin

text \<open>
  Settings of \<^verbatim>\<open>config.py\<close> with their defaults and derived properties, the error-type
  URNs of \<^verbatim>\<open>acme_errors.py\<close>, the exceptions the code raises, and the clock: a naive UTC
  \<open>datetime\<close> is the number of microseconds since 0001-01-01, so that comparison and
  \<open>timedelta\<close> arithmetic are those of integers, printed by \<open>isoformat\<close>.
\<close>

section \<open>Exceptions\<close>

text \<open>
  \<open>HTTPException\<close> carries its status code and detail; \<open>AcmeExc\<close> is an exception of the
  gufo-acme hierarchy with its class name and its text; \<open>PyError\<close> is any other exception, by
  class name.
\<close>

datatype exc =
    HTTPException int json
  | Http01ValidationError string string
  | AcmeExc string string
  | PyError string

section \<open>Error types (acme_errors.py)\<close>

definition acme_error_prefix :: string where
  "acme_error_prefix = ''urn:ietf:params:acme:error:''"

definition ACCOUNT_DOES_NOT_EXIST :: string where
  "ACCOUNT_DOES_NOT_EXIST = acme_error_prefix @ ''accountDoesNotExist''"

definition CONNECTION :: string where
  "CONNECTION = acme_error_prefix @ ''connection''"

definition DNS :: string where
  "DNS = acme_error_prefix @ ''dns''"

definition MALFORMED :: string where
  "MALFORMED = acme_error_prefix @ ''malformed''"

definition ORDER_NOT_READY :: string where
  "ORDER_NOT_READY = acme_error_prefix @ ''orderNotReady''"

definition RATE_LIMITED :: string where
  "RATE_LIMITED = acme_error_prefix @ ''rateLimited''"

definition REJECTED_IDENTIFIER :: string where
  "REJECTED_IDENTIFIER = acme_error_prefix @ ''rejectedIdentifier''"

definition SERVER_INTERNAL :: string where
  "SERVER_INTERNAL = acme_error_prefix @ ''serverInternal''"

definition UNAUTHORIZED :: string where
  "UNAUTHORIZED = acme_error_prefix @ ''unauthorized''"

text \<open>The \<open>{"type": ..., "detail": ...}\<close> problem documents the routes raise.\<close>

definition problem :: "string \<Rightarrow> string \<Rightarrow> json" where
  "problem ty detail = JObj [(''type'', JStr ty), (''detail'', JStr detail)]"

lemma wf_problem [simp]: "wf_json (problem ty d)"
  by (simp add: problem_def)

section \<open>Settings (config.py)\<close>

record settings =
  dns_provider :: string
  relay_domain :: string
  acme_email :: string
  le_directory :: string
  dns_propagation_wait :: int
  database_url :: string
  le_account_key_path :: string
  ssl_dir :: string
  nonce_ttl :: int
  nonce_max :: int
  log_level :: string
  serve_tls :: bool
  allowed_domains :: string
  le_verify_ssl :: bool
  challenge_http_port :: int
  challenge_timeout :: int
  challenge_retries :: int
  challenge_retry_delay :: int
  dns_zone_overrides :: string
  order_rate_limit :: int
  order_rate_window :: int

definition default_settings :: "string \<Rightarrow> string \<Rightarrow> string \<Rightarrow> settings" where
  "default_settings provider domain email =
     \<lparr>dns_provider = provider, relay_domain = domain, acme_email = email,
      le_directory = ''https://acme-v02.api.letsencrypt.org/directory'',
      dns_propagation_wait = 30,
      database_url = ''sqlite+aiosqlite:////data/relay.db'',
      le_account_key_path = ''/data/le_account.key'', ssl_dir = ''/data/ssl'',
      nonce_ttl = 600, nonce_max = 10000, log_level = ''INFO'', serve_tls = True,
      allowed_domains = '''', le_verify_ssl = True, challenge_http_port = 80,
      challenge_timeout = 5, challenge_retries = 3, challenge_retry_delay = 2,
      dns_zone_overrides = '''', order_rate_limit = 0, order_rate_window = 604800\<rparr>"

definition relay_base_url :: "settings \<Rightarrow> string" where
  "relay_base_url cfg =
     (if startswith (relay_domain cfg) ''http://'' \<or> startswith (relay_domain cfg) ''https://''
      then rstrip_if (\<lambda>c. c = CHR ''/'') (relay_domain cfg)
      else ''https://'' @ relay_domain cfg)"

definition allowed_domain_list :: "settings \<Rightarrow> string list" where
  "allowed_domain_list cfg =
     (if allowed_domains cfg = [] then []
      else map strip (filter (\<lambda>d. strip d \<noteq> []) (split_on CHR '','' (allowed_domains cfg))))"

definition dns_zone_override_list :: "settings \<Rightarrow> string list" where
  "dns_zone_override_list cfg =
     (if dns_zone_overrides cfg = [] then []
      else map (\<lambda>z. rstrip_if (\<lambda>c. c = CHR ''.'') (strip z))
             (filter (\<lambda>z. strip z \<noteq> []) (split_on CHR '','' (dns_zone_overrides cfg))))"

lemma allowed_domain_list_nonempty: "d \<in> set (allowed_domain_list cfg) \<Longrightarrow> d \<noteq> []"
  by (auto simp: allowed_domain_list_def split: if_splits)

section \<open>Time\<close>

type_synonym datetime = int

definition seconds :: "int \<Rightarrow> int" where
  "seconds n = n * 1000000"

definition days :: "int \<Rightarrow> int" where
  "days n = seconds (n * 86400)"

text \<open>Python's proleptic Gregorian calendar (\<open>datetime._ord2ymd\<close>), day 1 is 0001-01-01.\<close>

definition days_before_month :: "int \<Rightarrow> int" where
  "days_before_month m =
     (if m \<le> 1 then 0 else [0, 31, 59, 90, 120, 151, 181, 212, 243, 273, 304, 334] ! nat (m - 1))"

definition days_in_month :: "int \<Rightarrow> int" where
  "days_in_month m = [31, 28, 31, 30, 31, 30, 31, 31, 30, 31, 30, 31] ! nat (m - 1)"

definition ord2ymd :: "int \<Rightarrow> int \<times> int \<times> int" where
  "ord2ymd ord =
     (let n = ord - 1;
          n400 = n div 146097; n = n mod 146097;
          year = n400 * 400 + 1;
          n100 = n div 36524; n = n mod 36524;
          n4 = n div 1461; n = n mod 1461;
          n1 = n div 365; n = n mod 365;
          year = year + n100 * 100 + n4 * 4 + n1
      in if n1 = 4 \<or> n100 = 4 then (year - 1, 12, 31)
         else let leap = (n1 = 3 \<and> (n4 \<noteq> 24 \<or> n100 = 3));
                  month = (n + 50) div 32;
                  preceding = days_before_month month + (if month > 2 \<and> leap then 1 else 0)
              in if preceding > n
                 then let month' = month - 1;
                          preceding' = preceding - (days_in_month month' + (if month' = 2 \<and> leap then 1 else 0))
                      in (year, month', n - preceding' + 1)
                 else (year, month, n - preceding + 1))"

definition pad0 :: "nat \<Rightarrow> int \<Rightarrow> string" where
  "pad0 w n = (let s = nat_str 10 (nat n) in replicate (w - length s) CHR ''0'' @ s)"

definition isoformat :: "datetime \<Rightarrow> string" where
  "isoformat t =
     (let day = t div 86400000000; us = t mod 86400000000;
          (y, m, d) = ord2ymd (day + 1);
          secs = us div 1000000; micro = us mod 1000000
      in pad0 4 y @ ''-'' @ pad0 2 m @ ''-'' @ pad0 2 d @ ''T'' @
         pad0 2 (secs div 3600) @ '':'' @ pad0 2 (secs div 60 mod 60) @ '':'' @ pad0 2 (secs mod 60) @
         (if micro = 0 then [] else ''.'' @ pad0 6 micro))"

end
