(* ===== verification/Models.thy ===== *)
theory Models
  imports Config
begin

text \<open>
  The five tables of \<^verbatim>\<open>db/models.py\<close> as records of rows and the database as the record
  of its tables.  The ORM and SQLite are used through the table operations of \<open>Prelude\<close>:
  rows keep insertion order, a duplicate primary key makes the commit fail, foreign keys are
  declared but not enforced (the engine does not switch SQLite's checking on).
\<close>

section \<open>Rows\<close>

record account_row =
  a_id :: string
  a_public_key :: string
  a_contact :: "string option"
  a_status :: string
  a_created_at :: datetime

record order_row =
  o_id :: string
  o_account_id :: string
  o_status :: string
  o_identifiers :: string
  o_le_order_url :: "string option"
  o_cert_id :: "string option"
  o_expires_at :: "datetime option"
  o_created_at :: datetime
  o_error :: "string option"

record authz_row =
  z_id :: string
  z_order_id :: string
  z_identifier :: string
  z_status :: string
  z_challenge_token :: "string option"
  z_le_authz_url :: "string option"
  z_created_at :: datetime
  z_error :: "string option"

record cert_row =
  c_id :: string
  c_order_id :: string
  c_pem_chain :: string
  c_issued_at :: datetime
  c_expires_at :: datetime
  c_serial :: "string option"

record nonce_row =
  n_value :: string
  n_used :: bool
  n_created_at :: datetime

record database =
  accounts :: "account_row list"
  orders :: "order_row list"
  authorizations :: "authz_row list"
  certificates :: "cert_row list"
  nonces :: "nonce_row list"

definition empty_db :: database where
  "empty_db = \<lparr>accounts = [], orders = [], authorizations = [], certificates = [], nonces = []\<rparr>"

type_synonym 'a dbm = "(exc, database, 'a) comp"

section \<open>Session operations\<close>

definition get_account :: "string \<Rightarrow> database \<Rightarrow> account_row option" where
  "get_account i db = tget a_id i (accounts db)"

definition get_order_row :: "string \<Rightarrow> database \<Rightarrow> order_row option" where
  "get_order_row i db = tget o_id i (orders db)"

definition get_authz_row :: "string \<Rightarrow> database \<Rightarrow> authz_row option" where
  "get_authz_row i db = tget z_id i (authorizations db)"

definition get_cert_row :: "string \<Rightarrow> database \<Rightarrow> cert_row option" where
  "get_cert_row i db = tget c_id i (certificates db)"

definition get_nonce_row :: "string \<Rightarrow> database \<Rightarrow> nonce_row option" where
  "get_nonce_row v db = tget n_value v (nonces db)"

text \<open>\<open>scalar_one_or_none\<close> raises when the query returns more than one row.\<close>

definition scalar_one_or_none :: "'r list \<Rightarrow> exc + 'r option" where
  "scalar_one_or_none rows =
     (case rows of [] \<Rightarrow> Inr None | [r] \<Rightarrow> Inr (Some r) | _ \<Rightarrow> Inl (PyError ''MultipleResultsFound''))"

text \<open>Inserting several rows of one table in one commit: all of them or none.\<close>

fun tinsert_all :: "('r \<Rightarrow> 'k) \<Rightarrow> 'r list \<Rightarrow> 'r list \<Rightarrow> 'r list option" where
  "tinsert_all key [] rows = Some rows"
| "tinsert_all key (r # rs) rows =
     (case tinsert key r rows of None \<Rightarrow> None | Some rows' \<Rightarrow> tinsert_all key rs rows')"

text \<open>
  Assigning an attribute of the order with a given key, and so on: an \<open>UPDATE\<close> of the row the
  ORM object stands for.
\<close>

definition update_order :: "string \<Rightarrow> (order_row \<Rightarrow> order_row) \<Rightarrow> database \<Rightarrow> database" where
  "update_order i f db = db\<lparr>orders := tupdate (\<lambda>r. o_id r = i) f (orders db)\<rparr>"

definition update_authz :: "string \<Rightarrow> (authz_row \<Rightarrow> authz_row) \<Rightarrow> database \<Rightarrow> database" where
  "update_authz i f db = db\<lparr>authorizations := tupdate (\<lambda>r. z_id r = i) f (authorizations db)\<rparr>"

definition update_account :: "string \<Rightarrow> (account_row \<Rightarrow> account_row) \<Rightarrow> database \<Rightarrow> database" where
  "update_account i f db = db\<lparr>accounts := tupdate (\<lambda>r. a_id r = i) f (accounts db)\<rparr>"

section \<open>Facts on rows\<close>

text \<open>Attribute assignments keep the primary key: the table facts of \<open>keyed_update\<close> apply.\<close>

interpretation order_status: keyed_update o_id "o_status_update f" for f
  by unfold_locales simp

interpretation order_error: keyed_update o_id "\<lambda>r. r\<lparr>o_status := st, o_error := e\<rparr>" for st e
  by unfold_locales simp

interpretation order_cert: keyed_update o_id "\<lambda>r. r\<lparr>o_cert_id := c, o_status := st\<rparr>" for c st
  by unfold_locales simp

interpretation authz_status: keyed_update z_id "z_status_update f" for f
  by unfold_locales simp

interpretation authz_error: keyed_update z_id "\<lambda>r. r\<lparr>z_status := st, z_error := e\<rparr>" for st e
  by unfold_locales simp

interpretation account_key: keyed_update a_id "a_public_key_update f" for f
  by unfold_locales simp

interpretation nonce_used: keyed_update n_value "n_used_update f" for f
  by unfold_locales simp

lemma scalar_one_or_none_Inr_iff:
  "scalar_one_or_none rows = Inr r \<longleftrightarrow>
     (rows = [] \<and> r = None) \<or> (\<exists>x. rows = [x] \<and> r = Some x)"
  by (auto simp: scalar_one_or_none_def split: list.splits)

lemma filter_unique_key:
  "distinct (map key rows) \<Longrightarrow>
   filter (\<lambda>r. key r = k) rows = (case tget key k rows of None \<Rightarrow> [] | Some r \<Rightarrow> [r])"
proof (induction rows)
  case (Cons r rows)
  show ?case
  proof (cases "key r = k")
    case True
    with Cons.prems have "filter (\<lambda>r. key r = k) rows = []" by (auto simp: filter_empty_conv image_iff)
    with True show ?thesis by (simp add: tget_Cons)
  next
    case False
    with Cons show ?thesis by (simp add: tget_Cons)
  qed
qed simp

text \<open>On a table whose keys are distinct, a query by primary key never raises.\<close>

lemma scalar_by_key:
  "distinct (map key rows) \<Longrightarrow>
   scalar_one_or_none (filter (\<lambda>r. key r = k) rows) = Inr (tget key k rows)"
  by (simp add: filter_unique_key scalar_one_or_none_def split: option.splits)

lemma tinsert_all_eq_Some:
  "tinsert_all key rs rows = Some rows' \<Longrightarrow> rows' = rows @ rs"
  by (induction rs arbitrary: rows) (fastforce simp: tinsert_eq_Some_iff split: option.splits)+

lemma tinsert_all_distinct:
  "tinsert_all key rs rows = Some rows' \<Longrightarrow> distinct (map key rows) \<Longrightarrow> distinct (map key rows')"
  by (induction rs arbitrary: rows) (auto simp: tinsert_eq_Some_iff split: option.splits)

lemma tinsert_all_fresh:
  "tinsert_all key rs rows = Some rows' \<Longrightarrow> r \<in> set rs \<Longrightarrow> key r \<notin> set (map key rows)"
proof (induction rs arbitrary: rows)
  case (Cons x xs)
  then show ?case by (fastforce simp: tinsert_eq_Some_iff split: option.splits)
qed simp

lemma tinsert_all_SomeI:
  "distinct (map key rs) \<Longrightarrow> set (map key rs) \<inter> set (map key rows) = {} \<Longrightarrow>
   tinsert_all key rs rows = Some (rows @ rs)"
  by (induction rs arbitrary: rows) (auto simp: tinsert_def)

lemma update_order_simps [simp]:
  "accounts (update_order i f db) = accounts db"
  "authorizations (update_order i f db) = authorizations db"
  "certificates (update_order i f db) = certificates db"
  "nonces (update_order i f db) = nonces db"
  "orders (update_order i f db) = tupdate (\<lambda>r. o_id r = i) f (orders db)"
  by (simp_all add: update_order_def)

lemma update_authz_simps [simp]:
  "accounts (update_authz i f db) = accounts db"
  "orders (update_authz i f db) = orders db"
  "certificates (update_authz i f db) = certificates db"
  "nonces (update_authz i f db) = nonces db"
  "authorizations (update_authz i f db) = tupdate (\<lambda>r. z_id r = i) f (authorizations db)"
  by (simp_all add: update_authz_def)

lemma update_account_simps [simp]:
  "accounts (update_account i f db) = tupdate (\<lambda>r. a_id r = i) f (accounts db)"
  "orders (update_account i f db) = orders db"
  "authorizations (update_account i f db) = authorizations db"
  "certificates (update_account i f db) = certificates db"
  "nonces (update_account i f db) = nonces db"
  by (simp_all add: update_account_def)

end
