(* ===== verification/Nonces.thy ===== *)
theory Nonces
  imports Models
begin

text \<open>
  The nonce store of \<^verbatim>\<open>services/nonce.py\<close>: issuing under the \<open>NONCE_MAX\<close> ceiling,
  consuming with one conditional update, pruning.  The interface the JWS layer relies on is the
  locale \<open>replay_guard\<close>; its interpretation here discharges the laws for the store.  The
  lemmas show exactly when a nonce is accepted, that pruning removes no nonce that could still be
  accepted, that the ceiling is kept, and that over any sequence of store operations a value is
  accepted at most as often as it was issued.
\<close>

section \<open>Operations\<close>

definition nonce_cap_reached :: "settings \<Rightarrow> database \<Rightarrow> bool" where
  "nonce_cap_reached cfg db \<longleftrightarrow> nonce_max cfg > 0 \<and> int (length (nonces db)) \<ge> nonce_max cfg"

definition insert_nonce :: "string \<Rightarrow> datetime \<Rightarrow> string option dbm" where
  "insert_nonce value now = (\<lambda>db.
     case tinsert n_value \<lparr>n_value = value, n_used = False, n_created_at = now\<rparr> (nonces db) of
         None \<Rightarrow> (Inl (PyError ''IntegrityError''), db)
       | Some ns \<Rightarrow> (Inr (Some value), db\<lparr>nonces := ns\<rparr>))"

definition generate_nonce :: "settings \<Rightarrow> string \<Rightarrow> datetime \<Rightarrow> string option dbm" where
  "generate_nonce cfg value now =
     bindM (readM (nonce_cap_reached cfg)) (\<lambda>full. if full then returnM None else insert_nonce value now)"

definition nonce_cutoff :: "settings \<Rightarrow> datetime \<Rightarrow> datetime" where
  "nonce_cutoff cfg now = now - seconds (nonce_ttl cfg)"

definition nonce_match :: "string \<Rightarrow> datetime \<Rightarrow> nonce_row \<Rightarrow> bool" where
  "nonce_match value cutoff r \<longleftrightarrow> n_value r = value \<and> \<not> n_used r \<and> n_created_at r \<ge> cutoff"

definition consume_nonce :: "settings \<Rightarrow> datetime \<Rightarrow> string \<Rightarrow> unit dbm" where
  "consume_nonce cfg now value = (\<lambda>db.
     let P = nonce_match value (nonce_cutoff cfg now);
         rowcount = tcount P (nonces db);
         db' = db\<lparr>nonces := tupdate P (\<lambda>r. r\<lparr>n_used := True\<rparr>) (nonces db)\<rparr>
     in if rowcount = 0
        then (Inl (HTTPException 400 (JStr ''Invalid, already-used, or expired nonce'')), db')
        else (Inr (), db'))"

definition prune_nonces :: "settings \<Rightarrow> datetime \<Rightarrow> unit dbm" where
  "prune_nonces cfg now = (\<lambda>db.
     (Inr (), db\<lparr>nonces := tdelete (\<lambda>r. n_created_at r < nonce_cutoff cfg now) (nonces db)\<rparr>))"

section \<open>The interface: a guard against replays\<close>

text \<open>
  What the callers of \<open>consume_nonce\<close> rely on: \<open>live t s v\<close> says that the value \<open>v\<close>
  would be accepted at time \<open>t\<close>, and \<open>spent s v\<close> that it can never be accepted again
  unless it is issued anew.
\<close>

locale replay_guard =
  fixes invar :: "'s \<Rightarrow> bool"
    and live :: "'t \<Rightarrow> 's \<Rightarrow> string \<Rightarrow> bool"
    and spent :: "'s \<Rightarrow> string \<Rightarrow> bool"
    and consume :: "'t \<Rightarrow> string \<Rightarrow> ('e, 's, unit) comp"
  assumes invar_consume: "invar s \<Longrightarrow> invar (snd (consume t v s))"
    and accepted: "live t s v \<Longrightarrow> fst (consume t v s) = Inr ()"
    and refused: "\<not> live t s v \<Longrightarrow> \<exists>e. consume t v s = (Inl e, s)"
    and consume_spends: "invar s \<Longrightarrow> live t s v \<Longrightarrow> spent (snd (consume t v s)) v"
    and spent_not_live: "spent s v \<Longrightarrow> \<not> live t s v"
    and spent_stable: "spent s v \<Longrightarrow> spent (snd (consume t w s)) v"
begin

lemma accept_iff: "(\<exists>s'. consume t v s = (Inr (), s')) \<longleftrightarrow> live t s v"
  using accepted [of t s v] refused [of t s v] by (cases "consume t v s") fastforce

lemma spent_rejected: "spent s v \<Longrightarrow> \<exists>e. consume t v s = (Inl e, s)"
  by (rule refused) (rule spent_not_live)

lemma consumed_spent: "invar s \<Longrightarrow> consume t v s = (Inr (), s') \<Longrightarrow> spent s' v"
  using consume_spends [of s t v] accept_iff [of t v s] by auto

lemma no_replay: "invar s \<Longrightarrow> consume t v s = (Inr (), s') \<Longrightarrow> \<exists>e. consume t' v s' = (Inl e, s')"
  by (rule spent_rejected [OF consumed_spent])

end

section \<open>The store satisfies the interface\<close>

definition nonce_live :: "settings \<Rightarrow> datetime \<Rightarrow> database \<Rightarrow> string \<Rightarrow> bool" where
  "nonce_live cfg now db v \<longleftrightarrow> (\<exists>r \<in> set (nonces db). nonce_match v (nonce_cutoff cfg now) r)"

definition nonce_spent :: "database \<Rightarrow> string \<Rightarrow> bool" where
  "nonce_spent db v \<longleftrightarrow> (\<forall>r \<in> set (nonces db). n_value r = v \<longrightarrow> n_used r)"

lemma consume_nonce_cases:
  "consume_nonce cfg now v db =
     (if nonce_live cfg now db v
      then (Inr (), db\<lparr>nonces := tupdate (nonce_match v (nonce_cutoff cfg now)) (\<lambda>r. r\<lparr>n_used := True\<rparr>) (nonces db)\<rparr>)
      else (Inl (HTTPException 400 (JStr ''Invalid, already-used, or expired nonce'')), db))"
  using tcount_pos_iff [of "nonce_match v (nonce_cutoff cfg now)" "nonces db"]
  by (auto simp: consume_nonce_def nonce_live_def Let_def tupdate_none)

definition nonce_keys_ok :: "database \<Rightarrow> bool" where
  "nonce_keys_ok db \<longleftrightarrow> distinct (map n_value (nonces db))"

lemma consume_nonce_db:
  "snd (consume_nonce cfg now v db) =
     db\<lparr>nonces := tupdate (nonce_match v (nonce_cutoff cfg now)) (\<lambda>r. r\<lparr>n_used := True\<rparr>) (nonces db)\<rparr>"
  by (simp add: consume_nonce_def Let_def)

lemma consume_nonce_frame [simp]:
  "accounts (snd (consume_nonce cfg now v db)) = accounts db"
  "orders (snd (consume_nonce cfg now v db)) = orders db"
  "authorizations (snd (consume_nonce cfg now v db)) = authorizations db"
  "certificates (snd (consume_nonce cfg now v db)) = certificates db"
  by (simp_all add: consume_nonce_db)

lemma nonce_keys_consume: "nonce_keys_ok (snd (consume_nonce cfg now v db)) = nonce_keys_ok db"
  by (simp add: consume_nonce_db nonce_keys_ok_def)

lemma nonce_spent_update:
  assumes "nonce_keys_ok db" "nonce_live cfg now db v"
  shows "nonce_spent (snd (consume_nonce cfg now v db)) v"
proof -
  from assms(2) obtain r where r: "r \<in> set (nonces db)" "nonce_match v (nonce_cutoff cfg now) r"
    by (auto simp: nonce_live_def)
  have "r' = r" if "r' \<in> set (nonces db)" "n_value r' = v" for r'
    using assms(1) r that by (auto simp: nonce_keys_ok_def nonce_match_def distinct_map dest: inj_onD)
  with r(2) show ?thesis
    by (auto simp: nonce_spent_def consume_nonce_db set_tupdate split: if_splits)
qed

lemma nonce_spent_stable: "nonce_spent db v \<Longrightarrow> nonce_spent (snd (consume_nonce cfg now w db)) v"
  by (auto simp: nonce_spent_def consume_nonce_db set_tupdate)

interpretation nonce_store: replay_guard nonce_keys_ok "nonce_live cfg" nonce_spent "consume_nonce cfg"
  for cfg
proof unfold_locales
  fix s t v w
  show "nonce_keys_ok s \<Longrightarrow> nonce_keys_ok (snd (consume_nonce cfg t v s))"
    by (simp add: nonce_keys_consume)
  show "nonce_live cfg t s v \<Longrightarrow> fst (consume_nonce cfg t v s) = Inr ()"
    by (simp add: consume_nonce_cases)
  show "\<not> nonce_live cfg t s v \<Longrightarrow> \<exists>e. consume_nonce cfg t v s = (Inl e, s)"
    by (simp add: consume_nonce_cases)
  show "nonce_keys_ok s \<Longrightarrow> nonce_live cfg t s v \<Longrightarrow> nonce_spent (snd (consume_nonce cfg t v s)) v"
    by (rule nonce_spent_update)
  show "nonce_spent s v \<Longrightarrow> \<not> nonce_live cfg t s v"
    by (auto simp: nonce_spent_def nonce_live_def nonce_match_def)
  show "nonce_spent s v \<Longrightarrow> nonce_spent (snd (consume_nonce cfg t w s)) v"
    by (rule nonce_spent_stable)
qed

section \<open>Issuing and pruning\<close>

lemma generate_nonce_cases:
  "generate_nonce cfg v now db =
     (if nonce_max cfg > 0 \<and> int (length (nonces db)) \<ge> nonce_max cfg then (Inr None, db)
      else if v \<in> set (map n_value (nonces db)) then (Inl (PyError ''IntegrityError''), db)
      else (Inr (Some v), db\<lparr>nonces := nonces db @ [\<lparr>n_value = v, n_used = False, n_created_at = now\<rparr>]\<rparr>))"
  by (auto simp: generate_nonce_def nonce_cap_reached_def insert_nonce_def tinsert_def bindM_apply)

lemma insert_nonce_frame:
  assumes "insert_nonce v now db = (r, db')"
  shows "accounts db' = accounts db" "orders db' = orders db" "authorizations db' = authorizations db"
    "certificates db' = certificates db" "nonce_keys_ok db \<Longrightarrow> nonce_keys_ok db'"
  using assms by (auto simp: insert_nonce_def tinsert_def nonce_keys_ok_def split: if_splits)

lemma generate_nonce_frame [simp]:
  "accounts (snd (generate_nonce cfg v now db)) = accounts db"
  "orders (snd (generate_nonce cfg v now db)) = orders db"
  "authorizations (snd (generate_nonce cfg v now db)) = authorizations db"
  "certificates (snd (generate_nonce cfg v now db)) = certificates db"
  by (simp_all add: generate_nonce_cases)

lemma nonce_keys_generate: "nonce_keys_ok db \<Longrightarrow> nonce_keys_ok (snd (generate_nonce cfg v now db))"
  by (auto simp: generate_nonce_cases nonce_keys_ok_def)

lemma nonce_keys_prune: "nonce_keys_ok db \<Longrightarrow> nonce_keys_ok (snd (prune_nonces cfg now db))"
  by (simp add: prune_nonces_def nonce_keys_ok_def distinct_tdelete)

lemma generate_nonce_cap:
  "0 < nonce_max cfg \<Longrightarrow> int (length (nonces db)) \<le> nonce_max cfg \<Longrightarrow>
   int (length (nonces (snd (generate_nonce cfg v now db)))) \<le> nonce_max cfg"
  by (simp add: generate_nonce_cases)

lemma prune_keeps_live:
  "now \<le> now' \<Longrightarrow> nonce_live cfg now' (snd (prune_nonces cfg now db)) v = nonce_live cfg now' db v"
  by (auto simp: nonce_live_def prune_nonces_def tdelete_def nonce_match_def nonce_cutoff_def)

lemma generated_is_live:
  assumes "generate_nonce cfg v now db = (Inr (Some v), db')" "now \<le> now'"
    "now' \<le> now + seconds (nonce_ttl cfg)"
  shows "nonce_live cfg now' db' v"
  using assms by (auto simp: generate_nonce_cases nonce_live_def nonce_match_def nonce_cutoff_def split: if_splits)

section \<open>Sequences of store operations\<close>

datatype nonce_op = Issue string datetime | Consume string datetime | Prune datetime

text \<open>One operation, and whether it was the successful consumption of \<open>v\<close>.\<close>

fun nonce_step :: "settings \<Rightarrow> string \<Rightarrow> nonce_op \<Rightarrow> database \<Rightarrow> bool \<times> database" where
  "nonce_step cfg v (Issue w t) db = (False, snd (generate_nonce cfg w t db))"
| "nonce_step cfg v (Consume w t) db =
     (w = v \<and> fst (consume_nonce cfg t w db) = Inr (), snd (consume_nonce cfg t w db))"
| "nonce_step cfg v (Prune t) db = (False, snd (prune_nonces cfg t db))"

fun nonce_accepts :: "settings \<Rightarrow> string \<Rightarrow> nonce_op list \<Rightarrow> database \<Rightarrow> nat" where
  "nonce_accepts cfg v [] db = 0"
| "nonce_accepts cfg v (op # ops) db =
     (let (ok, db') = nonce_step cfg v op db in (if ok then 1 else 0) + nonce_accepts cfg v ops db')"

definition nonce_issues :: "string \<Rightarrow> nonce_op list \<Rightarrow> nat" where
  "nonce_issues v ops = length (filter (\<lambda>op. \<exists>t. op = Issue v t) ops)"

definition unused_count :: "string \<Rightarrow> database \<Rightarrow> nat" where
  "unused_count v db = tcount (\<lambda>r. n_value r = v \<and> \<not> n_used r) (nonces db)"

lemma unused_count_consume_le: "unused_count v (snd (consume_nonce cfg t w db)) \<le> unused_count v db"
proof -
  have "tcount (\<lambda>r. n_value r = v \<and> \<not> n_used r) (tupdate P (\<lambda>r. r\<lparr>n_used := True\<rparr>) ns)
      \<le> tcount (\<lambda>r. n_value r = v \<and> \<not> n_used r) ns" for P ns
    by (induction ns) (auto simp: tcount_def tupdate_def)
  then show ?thesis by (simp add: unused_count_def consume_nonce_db)
qed

lemma unused_count_consume_less:
  assumes "nonce_live cfg t db v"
  shows "unused_count v (snd (consume_nonce cfg t v db)) < unused_count v db"
proof -
  let ?P = "nonce_match v (nonce_cutoff cfg t)" and ?u = "\<lambda>r. n_value r = v \<and> \<not> n_used r"
  have le: "tcount ?u (tupdate ?P (\<lambda>r. r\<lparr>n_used := True\<rparr>) ns) \<le> tcount ?u ns" for ns
    by (induction ns) (auto simp: tcount_def tupdate_def)
  have "r \<in> set ns \<Longrightarrow> ?P r \<Longrightarrow>
      tcount ?u (tupdate ?P (\<lambda>r. r\<lparr>n_used := True\<rparr>) ns) < tcount ?u ns" for r ns
  proof (induction ns)
    case (Cons a ns)
    have le_ns: "length (filter ?u (map (\<lambda>r. if ?P r then r\<lparr>n_used := True\<rparr> else r) ns)) \<le> length (filter ?u ns)"
      using le [of ns] by (simp add: tcount_def tupdate_def)
    show ?case
    proof (cases "?P a")
      case True
      then have "?u a" by (simp add: nonce_match_def)
      with True le_ns show ?thesis by (simp add: tcount_def tupdate_def)
    next
      case False
      with Cons show ?thesis by (auto simp: tcount_def tupdate_def)
    qed
  qed simp
  with assms show ?thesis by (auto simp: unused_count_def consume_nonce_db nonce_live_def)
qed

lemma nonce_accepts_bound:
  "nonce_accepts cfg v ops db \<le> nonce_issues v ops + unused_count v db"
proof (induction ops arbitrary: db)
  case (Cons op ops)
  show ?case
  proof (cases op)
    case (Issue w t)
    have "unused_count v (snd (generate_nonce cfg w t db)) \<le> (if w = v then 1 else 0) + unused_count v db"
      by (auto simp: generate_nonce_cases unused_count_def tcount_def)
    with Issue Cons.IH [of "snd (generate_nonce cfg w t db)"] show ?thesis
      by (auto simp: nonce_issues_def split: if_splits)
  next
    case (Consume w t)
    let ?db' = "snd (consume_nonce cfg t w db)"
    have "(if w = v \<and> fst (consume_nonce cfg t w db) = Inr () then 1 else 0) + unused_count v ?db'
        \<le> unused_count v db"
      using unused_count_consume_le [of v cfg t w db] unused_count_consume_less [of cfg t db v]
      by (auto simp: consume_nonce_cases split: if_splits)
    with Consume Cons.IH [of ?db'] show ?thesis by (auto simp: nonce_issues_def split: if_splits)
  next
    case (Prune t)
    have "length (filter P (filter Q xs)) \<le> length (filter P xs)" for P Q and xs :: "nonce_row list"
      by (induction xs) auto
    then have "unused_count v (snd (prune_nonces cfg t db)) \<le> unused_count v db"
      by (simp add: unused_count_def prune_nonces_def tdelete_def tcount_def)
    with Prune Cons.IH [of "snd (prune_nonces cfg t db)"] show ?thesis by (simp add: nonce_issues_def)
  qed
qed simp

section \<open>The size of the store\<close>

fun nonce_run :: "settings \<Rightarrow> nonce_op list \<Rightarrow> database \<Rightarrow> database" where
  "nonce_run cfg [] db = db"
| "nonce_run cfg (op # ops) db = nonce_run cfg ops (snd (nonce_step cfg '''' op db))"

definition issued_since :: "datetime \<Rightarrow> nonce_op list \<Rightarrow> nat" where
  "issued_since t ops = length (filter (\<lambda>op. case op of Issue w u \<Rightarrow> t \<le> u | _ \<Rightarrow> False) ops)"

definition rows_since :: "datetime \<Rightarrow> database \<Rightarrow> nat" where
  "rows_since t db = length (filter (\<lambda>r. t \<le> n_created_at r) (nonces db))"

lemma nonce_run_append: "nonce_run cfg (ops @ ops') db = nonce_run cfg ops' (nonce_run cfg ops db)"
  by (induction ops arbitrary: db) simp_all

lemma rows_since_consume: "rows_since t (snd (consume_nonce cfg now v db)) = rows_since t db"
proof -
  have "length (filter (\<lambda>r. t \<le> n_created_at r) (tupdate P (\<lambda>r. r\<lparr>n_used := True\<rparr>) ns)) =
      length (filter (\<lambda>r. t \<le> n_created_at r) ns)" for P ns
    by (induction ns) (auto simp: tupdate_def)
  then show ?thesis by (simp add: rows_since_def consume_nonce_db)
qed

lemma rows_since_prune: "rows_since t (snd (prune_nonces cfg now db)) \<le> rows_since t db"
proof -
  have "length (filter P (filter Q ns)) \<le> length (filter P ns)" for P Q and ns :: "nonce_row list"
    by (induction ns) auto
  then show ?thesis by (simp add: rows_since_def prune_nonces_def tdelete_def del: filter_filter)
qed

lemma rows_since_step: "rows_since t (snd (nonce_step cfg v op db)) \<le> issued_since t [op] + rows_since t db"
  using rows_since_prune [of t cfg _ db]
  by (cases op) (simp_all add: rows_since_consume, auto simp: rows_since_def issued_since_def generate_nonce_cases)

lemma rows_since_run: "rows_since t (nonce_run cfg ops db) \<le> issued_since t ops + rows_since t db"
proof (induction ops arbitrary: db)
  case (Cons op ops)
  have "issued_since t (op # ops) = issued_since t [op] + issued_since t ops" by (simp add: issued_since_def)
  with Cons [of "snd (nonce_step cfg '''' op db)"] rows_since_step [of t cfg "''''" op db] show ?case by simp
qed (simp add: issued_since_def)

text \<open>No row is older than the expiry time of the last pruning.\<close>

lemma nonce_run_young:
  assumes "\<forall>r \<in> set (nonces db). t \<le> n_created_at r" "\<forall>w u. Issue w u \<in> set ops \<longrightarrow> t \<le> u"
  shows "\<forall>r \<in> set (nonces (nonce_run cfg ops db)). t \<le> n_created_at r"
  using assms
proof (induction ops arbitrary: db)
  case (Cons op ops)
  have "\<forall>r \<in> set (nonces (snd (nonce_step cfg '''' op db))). t \<le> n_created_at r"
    using Cons.prems by (cases op) (auto simp: generate_nonce_cases consume_nonce_db set_tupdate prune_nonces_def tdelete_def)
  with Cons show ?case by simp
qed simp

lemma pruned_store_bounded:
  assumes "\<forall>w u. Issue w u \<in> set ops' \<longrightarrow> nonce_cutoff cfg now \<le> u"
  shows "length (nonces (nonce_run cfg (ops @ Prune now # ops') db)) \<le>
    issued_since (nonce_cutoff cfg now) (ops @ Prune now # ops') + rows_since (nonce_cutoff cfg now) db"
proof -
  let ?t = "nonce_cutoff cfg now" and ?last = "nonce_run cfg (ops @ Prune now # ops') db"
  have "\<forall>r \<in> set (nonces ?last). ?t \<le> n_created_at r"
    unfolding nonce_run_append nonce_run.simps
    by (rule nonce_run_young [OF _ assms]) (simp add: prune_nonces_def tdelete_def)
  then have "filter (\<lambda>r. ?t \<le> n_created_at r) (nonces ?last) = nonces ?last" by (simp add: filter_id_conv)
  then have "rows_since ?t ?last = length (nonces ?last)" by (simp add: rows_since_def)
  with rows_since_run [of ?t cfg "ops @ Prune now # ops'" db] show ?thesis by simp
qed

lemma nonce_run_cap:
  assumes "0 < nonce_max cfg" "int (length (nonces db)) \<le> nonce_max cfg"
  shows "int (length (nonces (nonce_run cfg ops db))) \<le> nonce_max cfg"
  using assms(2)
proof (induction ops arbitrary: db)
  case (Cons op ops)
  have "int (length (filter P (nonces db))) \<le> nonce_max cfg" for P
    using Cons.prems length_filter_le [of P "nonces db"] by linarith
  then have "int (length (nonces (snd (nonce_step cfg '''' op db)))) \<le> nonce_max cfg"
    using Cons.prems generate_nonce_cap [OF assms(1), of db]
    by (cases op) (simp_all add: consume_nonce_db prune_nonces_def tdelete_def tupdate_def)
  with Cons.IH show ?case by simp
qed simp

text \<open>The ceiling holds only while issuing is not interrupted between the count and the insert.\<close>

lemma concurrent_nonces_exceed_cap:
  assumes "0 < nonce_max cfg" "int (length (nonces db)) = nonce_max cfg - 1" "v \<noteq> w"
    "v \<notin> set (map n_value (nonces db))" "w \<notin> set (map n_value (nonces db))"
  shows "\<not> nonce_cap_reached cfg db \<and> (\<exists>db1 db2. insert_nonce v now db = (Inr (Some v), db1) \<and>
    insert_nonce w now' db1 = (Inr (Some w), db2) \<and> nonce_max cfg < int (length (nonces db2)))"
  using assms by (auto simp: nonce_cap_reached_def insert_nonce_def tinsert_def)

end
