(* ===== verification/Schemas.thy ===== *)
theory Schemas
  imports Nonces
begin

text \<open>
  Requests and responses, Python's \<open>repr\<close> of decoded JSON (it appears in error details), the
  payload and resource schemas of \<^verbatim>\<open>schemas/acme.py\<close> with their serialisation
  (\<open>model_dump(exclude_none=True)\<close>), and the record of the third-party operations the routes
  call: josepy's keys and signatures, pydantic's validation of payloads, the parsing of X.509
  certificates.  These operations are arguments of every definition that uses them.
\<close>

section \<open>repr and str\<close>

definition repr_char :: "char \<Rightarrow> char \<Rightarrow> string" where
  "repr_char q c = (let n = of_char c :: nat in
     if c = q \<or> n = 92 then [CHR 0x5C, c]
     else if n = 10 then [CHR 0x5C, CHR ''n''] else if n = 13 then [CHR 0x5C, CHR ''r'']
     else if n = 9 then [CHR 0x5C, CHR ''t'']
     else if (32 \<le> n \<and> n \<le> 126) \<or> (161 \<le> n \<and> n \<noteq> 173) then [c]
     else [CHR 0x5C, CHR ''x''] @ hex_byte n)"

definition repr_str :: "string \<Rightarrow> string" where
  "repr_str s = (let q = (if CHR 0x27 \<in> set s \<and> CHR 0x22 \<notin> set s then CHR 0x22 else CHR 0x27)
     in q # concat (map (repr_char q) s) @ [q])"

fun py_repr :: "json \<Rightarrow> string"
  and repr_elems :: "json list \<Rightarrow> string"
  and repr_members :: "(string \<times> json) list \<Rightarrow> string" where
  "py_repr JNull = ''None''"
| "py_repr (JBool b) = (if b then ''True'' else ''False'')"
| "py_repr (JInt n) = int_str n"
| "py_repr (JFloat l) = l"
| "py_repr (JStr s) = repr_str s"
| "py_repr (JArr xs) = CHR ''['' # repr_elems xs @ '']''"
| "py_repr (JObj kvs) = CHR ''{'' # repr_members kvs @ ''}''"
| "repr_elems [] = []"
| "repr_elems [v] = py_repr v"
| "repr_elems (v # w # vs) = py_repr v @ '', '' @ repr_elems (w # vs)"
| "repr_members [] = []"
| "repr_members [(k, v)] = repr_str k @ '': '' @ py_repr v"
| "repr_members ((k, v) # kv # kvs) =
     repr_str k @ '': '' @ py_repr v @ '', '' @ repr_members (kv # kvs)"

fun py_str :: "json \<Rightarrow> string" where
  "py_str (JStr s) = s"
| "py_str j = py_repr j"

section \<open>Requests and responses\<close>

record request =
  rq_method :: string
  rq_url :: string
  rq_content_type :: "string option"
  rq_body :: string

datatype content = JSONBody json | RawBody string string

record response =
  rs_status :: int
  rs_content :: content
  rs_headers :: "(string \<times> string) list"

definition json_response :: "json \<Rightarrow> int \<Rightarrow> (string \<times> string) list \<Rightarrow> response" where
  "json_response j code hs = \<lparr>rs_status = code, rs_content = JSONBody j, rs_headers = hs\<rparr>"

section \<open>Schemas (schemas/acme.py)\<close>

record acme_identifier =
  id_type :: string
  id_value :: string

record new_account_request =
  terms_of_service_agreed :: bool
  na_contact :: "string list option"
  only_return_existing :: bool

record account_response =
  ar_status :: string
  ar_contact :: "json option"
  ar_orders :: "string option"

record order_response =
  or_status :: string
  or_identifiers :: "acme_identifier list"
  or_authorizations :: "string list"
  or_finalize :: string
  or_certificate :: "string option"
  or_expires :: "string option"
  or_error :: "json option"

record challenge_object =
  ch_type :: string
  ch_url :: string
  ch_status :: string
  ch_token :: string
  ch_error :: "json option"

record authz_response =
  zr_status :: string
  zr_identifier :: acme_identifier
  zr_challenges :: "challenge_object list"

record directory_meta =
  dm_terms_of_service :: "string option"
  dm_website :: "string option"
  dm_caa_identities :: "string list option"
  dm_external_account_required :: "bool option"

record directory_response =
  dr_new_nonce :: string
  dr_new_account :: string
  dr_new_order :: string
  dr_revoke_cert :: string
  dr_key_change :: string
  dr_meta :: "directory_meta option"

definition opt_field :: "string \<Rightarrow> json option \<Rightarrow> (string \<times> json) list" where
  "opt_field k v = (case v of None \<Rightarrow> [] | Some j \<Rightarrow> [(k, j)])"

definition identifier_json :: "acme_identifier \<Rightarrow> json" where
  "identifier_json i = JObj [(''type'', JStr (id_type i)), (''value'', JStr (id_value i))]"

definition account_json :: "account_response \<Rightarrow> json" where
  "account_json r = JObj ([(''status'', JStr (ar_status r))] @ opt_field ''contact'' (ar_contact r) @
     opt_field ''orders'' (map_option JStr (ar_orders r)))"

definition order_json :: "order_response \<Rightarrow> json" where
  "order_json r = JObj ([(''status'', JStr (or_status r)),
       (''identifiers'', JArr (map identifier_json (or_identifiers r))),
       (''authorizations'', JArr (map JStr (or_authorizations r))),
       (''finalize'', JStr (or_finalize r))] @
     opt_field ''certificate'' (map_option JStr (or_certificate r)) @
     opt_field ''expires'' (map_option JStr (or_expires r)) @
     opt_field ''error'' (or_error r))"

definition challenge_json :: "challenge_object \<Rightarrow> json" where
  "challenge_json c = JObj ([(''type'', JStr (ch_type c)), (''url'', JStr (ch_url c)),
       (''status'', JStr (ch_status c)), (''token'', JStr (ch_token c))] @
     opt_field ''error'' (ch_error c))"

definition authz_json :: "authz_response \<Rightarrow> json" where
  "authz_json r = JObj [(''status'', JStr (zr_status r)),
     (''identifier'', identifier_json (zr_identifier r)),
     (''challenges'', JArr (map challenge_json (zr_challenges r)))]"

definition directory_meta_json :: "directory_meta \<Rightarrow> json" where
  "directory_meta_json m = JObj (opt_field ''termsOfService'' (map_option JStr (dm_terms_of_service m)) @
     opt_field ''website'' (map_option JStr (dm_website m)) @
     opt_field ''caaIdentities'' (map_option (\<lambda>xs. JArr (map JStr xs)) (dm_caa_identities m)) @
     opt_field ''externalAccountRequired'' (map_option JBool (dm_external_account_required m)))"

definition directory_json :: "directory_response \<Rightarrow> json" where
  "directory_json d = JObj ([(''newNonce'', JStr (dr_new_nonce d)), (''newAccount'', JStr (dr_new_account d)),
     (''newOrder'', JStr (dr_new_order d)), (''revokeCert'', JStr (dr_revoke_cert d)),
     (''keyChange'', JStr (dr_key_change d))] @ opt_field ''meta'' (map_option directory_meta_json (dr_meta d)))"

text \<open>\<open>Identifier(**i)\<close> on an object the relay stored itself.\<close>

definition identifier_of_json :: "json \<Rightarrow> acme_identifier option" where
  "identifier_of_json j = (case j of
     JObj kvs \<Rightarrow> (case (map_of kvs ''type'', map_of kvs ''value'') of
         (Some (JStr t), Some (JStr v)) \<Rightarrow> Some \<lparr>id_type = t, id_value = v\<rparr>
       | _ \<Rightarrow> None)
   | _ \<Rightarrow> None)"

lemma identifier_of_json_json [simp]: "identifier_of_json (identifier_json i) = Some i"
  by (simp add: identifier_of_json_def identifier_json_def)

lemma wf_identifier_json [simp]: "wf_json (identifier_json i)"
  by (simp add: identifier_json_def)

text \<open>The \<open>identifiers\<close> column of an order: written by \<open>new_order\<close>, read by the other routes.\<close>

definition dump_identifiers :: "acme_identifier list \<Rightarrow> string" where
  "dump_identifiers ids = json_dumps (JArr (map identifier_json ids))"

definition load_identifiers :: "string \<Rightarrow> exc + json list" where
  "load_identifiers s = (case json_loads s of
     Some (JArr js) \<Rightarrow> Inr js
   | Some _ \<Rightarrow> Inl (PyError ''TypeError'')
   | None \<Rightarrow> Inl (PyError ''JSONDecodeError''))"

lemma load_dump_identifiers [simp]:
  "load_identifiers (dump_identifiers ids) = Inr (map identifier_json ids)"
  by (simp add: load_identifiers_def dump_identifiers_def list_all_iff)

section \<open>Third-party operations\<close>

record 'k libs =
  jwk_from_json :: "json \<Rightarrow> 'k option"
  jwa_verify :: "string \<Rightarrow> 'k \<Rightarrow> string \<Rightarrow> string \<Rightarrow> bool option"
  jwk_thumbprint :: "'k \<Rightarrow> string"
  validate_new_account :: "json \<Rightarrow> new_account_request option"
  validate_new_order :: "json \<Rightarrow> acme_identifier list option"
  validate_finalize :: "json \<Rightarrow> string option"
  pem_leaf :: "string \<Rightarrow> (int \<times> datetime) option"
  der_serial :: "string \<Rightarrow> int option"

text \<open>
  The random and clock values one request draws, in the order in which it draws them:
  \<open>uuid4 i\<close> is the \<open>i\<close>-th identifier, \<open>token i\<close> the \<open>i\<close>-th challenge token,
  \<open>clock i\<close> the \<open>i\<close>-th reading of \<open>utcnow()\<close>.
\<close>

record draws =
  uuid4 :: "nat \<Rightarrow> string"
  token :: "nat \<Rightarrow> string"
  clock :: "nat \<Rightarrow> datetime"

end
