(* ===== verification/Jws.thy ===== *)
theory Jws
  imports Schemas
begin

text \<open>
  JWS verification of \<^verbatim>\<open>services/jws.py\<close>, the entry of every ACME POST: decoding the
  envelope, resolving the key from \<open>jwk\<close> or \<open>kid\<close>, checking the signature, consuming the
  nonce, decoding the payload, in the order of the source.  A value of the wrong JSON type raises
  what Python raises (\<open>PyError\<close>), which the server answers with status 500.  The lemmas
  characterise a successful verification, show that a refused request leaves the nonce alone,
  and that an accepted request is refused when it is sent again.
\<close>

section \<open>Decoding the envelope\<close>

definition allowed_algs :: "string list" where
  "allowed_algs = [''RS256'', ''RS384'', ''RS512'', ''ES256'', ''ES384'', ''ES512'']"

definition account_url_prefix :: "settings \<Rightarrow> string" where
  "account_url_prefix cfg = relay_base_url cfg @ ''/acme/account/''"

record jws_parts =
  jp_protected_b64 :: json
  jp_payload_b64 :: json
  jp_signature_b64 :: json
  jp_protected :: "(string \<times> json) list"
  jp_alg :: string

definition request_dict :: "request \<Rightarrow> exc + (string \<times> json) list" where
  "request_dict req = (case json_loads (rq_body req) of
     Some (JObj kvs) \<Rightarrow> Inr kvs
   | _ \<Rightarrow> Inl (HTTPException 400 (JStr ''Request body is not valid JSON'')))"

text \<open>\<open>b64url_decode\<close> applied to a decoded JSON value: only text has a base64 reading.\<close>

definition b64_of_json :: "json \<Rightarrow> exc + string" where
  "b64_of_json j = (case j of
     JStr s \<Rightarrow> of_option (PyError ''binascii.Error'') (b64url_decode s)
   | _ \<Rightarrow> Inl (PyError ''TypeError''))"

definition decode_protected :: "json \<Rightarrow> exc + json" where
  "decode_protected b64 = (case bindE (b64_of_json b64) (\<lambda>t. of_option (PyError ''JSONDecodeError'') (json_loads t)) of
     Inl _ \<Rightarrow> Inl (HTTPException 400 (JStr ''Invalid JWS protected header''))
   | Inr j \<Rightarrow> Inr j)"

text \<open>\<open>alg_name not in _ALLOWED_ALGS\<close>: an unhashable value raises instead.\<close>

definition check_alg :: "string \<Rightarrow> json \<Rightarrow> exc + string" where
  "check_alg what alg = (case alg of
     JArr _ \<Rightarrow> Inl (PyError ''TypeError'')
   | JObj _ \<Rightarrow> Inl (PyError ''TypeError'')
   | JStr s \<Rightarrow> if s \<in> set allowed_algs then Inr s
       else Inl (HTTPException 400 (JStr (what @ py_repr alg)))
   | _ \<Rightarrow> Inl (HTTPException 400 (JStr (what @ py_repr alg))))"

definition decode_jws :: "request \<Rightarrow> exc + jws_parts" where
  "decode_jws req =
     (if \<not> contains ''application/jose+json'' (case rq_content_type req of None \<Rightarrow> '''' | Some c \<Rightarrow> c)
      then Inl (HTTPException 415 (JStr ''Content-Type must be application/jose+json''))
      else bindE (request_dict req) (\<lambda>body.
        let protected_b64 = dict_get ''protected'' (JStr '''') body;
            payload_b64 = dict_get ''payload'' (JStr '''') body;
            signature_b64 = dict_get ''signature'' (JStr '''') body
        in if \<not> truthy protected_b64 \<or> \<not> truthy signature_b64
           then Inl (HTTPException 400 (JStr ''JWS missing required fields''))
           else bindE (decode_protected protected_b64) (\<lambda>protected.
             case protected of
               JObj header \<Rightarrow>
                 bindE (check_alg ''Unsupported JWS algorithm: '' (dict_get ''alg'' (JStr '''') header)) (\<lambda>alg_name.
                   if dict_get ''url'' JNull header \<noteq> JStr (rq_url req)
                   then Inl (HTTPException 400 (JStr ''JWS url claim does not match request URL''))
                   else Inr \<lparr>jp_protected_b64 = protected_b64, jp_payload_b64 = payload_b64,
                             jp_signature_b64 = signature_b64, jp_protected = header, jp_alg = alg_name\<rparr>)
             | _ \<Rightarrow> Inl (PyError ''AttributeError''))))"

section \<open>The signing key\<close>

definition kid_account :: "'k libs \<Rightarrow> database \<Rightarrow> string \<Rightarrow> exc + 'k \<times> string" where
  "kid_account L db account_id =
     bindE (scalar_one_or_none (filter (\<lambda>a. a_id a = account_id) (accounts db))) (\<lambda>found.
       case found of
         None \<Rightarrow> Inl (HTTPException 401 (JStr ''Account not found''))
       | Some account \<Rightarrow>
           if a_status account \<noteq> ''valid'' then Inl (HTTPException 401 (JStr ''Account is not active''))
           else bindE (of_option (PyError ''JSONDecodeError'') (json_loads (a_public_key account))) (\<lambda>j.
             bindE (of_option (PyError ''DeserializationError'') (jwk_from_json L j)) (\<lambda>key.
               Inr (key, account_id))))"

definition resolve_key_and_account ::
  "'k libs \<Rightarrow> settings \<Rightarrow> (string \<times> json) list \<Rightarrow> database \<Rightarrow> exc + 'k \<times> string" where
  "resolve_key_and_account L cfg protected db =
     (let jwk_data = dict_get ''jwk'' JNull protected;
          kid = dict_get ''kid'' JNull protected
      in if jwk_data \<noteq> JNull \<and> kid \<noteq> JNull
         then Inl (HTTPException 400 (JStr (''JWS protected header must contain '' @ repr_str ''jwk'' @
                '' or '' @ repr_str ''kid'' @ '', not both'')))
         else if jwk_data \<noteq> JNull
         then bindE (of_option (PyError ''DeserializationError'') (jwk_from_json L jwk_data)) (\<lambda>key. Inr (key, ''''))
         else if kid \<noteq> JNull
         then (case kid of
             JStr k \<Rightarrow>
               let prefix = account_url_prefix cfg
               in if \<not> startswith k prefix
                  then Inl (HTTPException 400 (JStr ''JWS kid is not a valid account URL for this server''))
                  else let account_id = rstrip_if (\<lambda>c. c = CHR ''/'') (drop (length prefix) k)
                       in if account_id = ''''
                          then Inl (HTTPException 400 (JStr ''JWS kid is missing the account ID''))
                          else kid_account L db account_id
           | _ \<Rightarrow> Inl (PyError ''AttributeError''))
         else Inl (HTTPException 400 (JStr (''JWS protected header must contain '' @ repr_str ''jwk'' @
                '' or '' @ repr_str ''kid''))))"

section \<open>Signature, nonce, payload\<close>

definition verify_jws_signature :: "'k libs \<Rightarrow> string \<Rightarrow> 'k \<Rightarrow> string \<Rightarrow> string \<Rightarrow> exc + unit" where
  "verify_jws_signature L alg_name jwk signing_input sig_bytes =
     (if jwa_verify L alg_name jwk signing_input sig_bytes = Some True then Inr ()
      else Inl (HTTPException 400 (JStr ''JWS signature verification failed'')))"

definition encode_ascii :: "string \<Rightarrow> exc + string" where
  "encode_ascii s = (if \<forall>c \<in> set s. (of_char c :: nat) < 128 then Inr s else Inl (PyError ''UnicodeEncodeError''))"

definition decode_jws_payload :: "json \<Rightarrow> exc + json" where
  "decode_jws_payload payload_b64 =
     (if \<not> truthy payload_b64 then Inr (JObj [])
      else case bindE (b64_of_json payload_b64) (\<lambda>t. of_option (PyError ''JSONDecodeError'') (json_loads t)) of
          Inl _ \<Rightarrow> Inl (HTTPException 400 (JStr ''Invalid JWS payload encoding''))
        | Inr j \<Rightarrow> Inr j)"

text \<open>
  \<open>consume_nonce\<close> on the header's value as it was decoded: SQLite compares the text column with
  the text form of a number, finds no row for \<open>NULL\<close>, and cannot bind a container.
\<close>

definition consume_nonce_value :: "settings \<Rightarrow> datetime \<Rightarrow> json \<Rightarrow> unit dbm" where
  "consume_nonce_value cfg now v = (case v of
     JStr s \<Rightarrow> consume_nonce cfg now s
   | JNull \<Rightarrow> throwM (HTTPException 400 (JStr ''Invalid, already-used, or expired nonce''))
   | JBool b \<Rightarrow> consume_nonce cfg now (if b then ''1'' else ''0'')
   | JInt n \<Rightarrow> consume_nonce cfg now (int_str n)
   | JFloat l \<Rightarrow> consume_nonce cfg now l
   | _ \<Rightarrow> throwM (PyError ''DBAPIError''))"

section \<open>verify_jws\<close>

definition check_signature :: "'k libs \<Rightarrow> jws_parts \<Rightarrow> 'k \<Rightarrow> exc + unit" where
  "check_signature L p jwk =
     bindE (encode_ascii (py_str (jp_protected_b64 p) @ ''.'' @ py_str (jp_payload_b64 p))) (\<lambda>signing_input.
     bindE (b64_of_json (jp_signature_b64 p)) (\<lambda>sig_bytes.
       verify_jws_signature L (jp_alg p) jwk signing_input sig_bytes))"

definition verify_jws :: "'k libs \<Rightarrow> settings \<Rightarrow> datetime \<Rightarrow> request \<Rightarrow> (json \<times> string) dbm" where
  "verify_jws L cfg now req =
     bindM (liftM (decode_jws req)) (\<lambda>p.
     bindM (readM (resolve_key_and_account L cfg (jp_protected p))) (\<lambda>resolved.
     bindM (liftM resolved) (\<lambda>(jwk, account_id).
     bindM (liftM (check_signature L p jwk)) (\<lambda>_.
     bindM (consume_nonce_value cfg now (dict_get ''nonce'' (JStr '''') (jp_protected p))) (\<lambda>_.
     bindM (liftM (decode_jws_payload (jp_payload_b64 p))) (\<lambda>payload.
       returnM (payload, account_id)))))))"

section \<open>What a verification establishes\<close>

text \<open>The text under which the header's nonce is looked up.\<close>

definition nonce_text :: "json \<Rightarrow> string option" where
  "nonce_text v = (case v of JStr s \<Rightarrow> Some s | JBool b \<Rightarrow> Some (if b then ''1'' else ''0'')
     | JInt n \<Rightarrow> Some (int_str n) | JFloat l \<Rightarrow> Some l | _ \<Rightarrow> None)"

definition request_nonce :: "jws_parts \<Rightarrow> string option" where
  "request_nonce p = nonce_text (dict_get ''nonce'' (JStr '''') (jp_protected p))"

lemma consume_nonce_value_Some:
  "nonce_text v = Some n \<Longrightarrow> consume_nonce_value cfg now v = consume_nonce cfg now n"
  by (auto simp: nonce_text_def consume_nonce_value_def split: json.splits)

lemma consume_nonce_value_None:
  "nonce_text v = None \<Longrightarrow> \<exists>e. consume_nonce_value cfg now v db = (Inl e, db)"
  by (auto simp: nonce_text_def consume_nonce_value_def split: json.splits)

lemma consume_nonce_value_Inr:
  "consume_nonce_value cfg now v db = (Inr u, db') \<longleftrightarrow>
     (\<exists>n. nonce_text v = Some n \<and> consume_nonce cfg now n db = (Inr (), db'))"
proof (cases "nonce_text v")
  case None
  then show ?thesis using consume_nonce_value_None [OF None, of cfg now db] by auto
next
  case (Some n)
  then show ?thesis by (cases u) (simp add: consume_nonce_value_Some)
qed

lemma consume_nonce_value_Inl:
  assumes "consume_nonce_value cfg now v db = (Inl e, db')"
  shows "db' = db"
proof (cases "nonce_text v")
  case None
  then show ?thesis using consume_nonce_value_None [OF None, of cfg now db] assms by auto
next
  case (Some n)
  with assms show ?thesis
    by (simp add: consume_nonce_value_Some consume_nonce_cases split: if_splits)
qed

lemma consume_nonce_value_db:
  "snd (consume_nonce_value cfg now v db) = db \<or> (\<exists>n. snd (consume_nonce_value cfg now v db) = snd (consume_nonce cfg now n db))"
  by (auto simp: consume_nonce_value_def split: json.splits)

lemma consume_nonce_value_frame:
  assumes "consume_nonce_value cfg now v db = (r, db')"
  shows "accounts db' = accounts db" "orders db' = orders db" "authorizations db' = authorizations db"
    "certificates db' = certificates db" "nonce_keys_ok db' = nonce_keys_ok db"
  using consume_nonce_value_db [of cfg now v db] assms by (auto simp: nonce_keys_consume)

text \<open>The checks before the nonce is touched, as one predicate.\<close>

definition authentic :: "'k libs \<Rightarrow> settings \<Rightarrow> request \<Rightarrow> database \<Rightarrow> jws_parts \<Rightarrow> 'k \<Rightarrow> string \<Rightarrow> bool" where
  "authentic L cfg req db p key acct \<longleftrightarrow>
     decode_jws req = Inr p \<and> resolve_key_and_account L cfg (jp_protected p) db = Inr (key, acct) \<and>
     check_signature L p key = Inr ()"

lemma verify_jws_Inr_iff:
  "verify_jws L cfg now req db = (Inr (payload, acct), db') \<longleftrightarrow>
     (\<exists>p key n. authentic L cfg req db p key acct \<and> request_nonce p = Some n \<and>
        consume_nonce cfg now n db = (Inr (), db') \<and> decode_jws_payload (jp_payload_b64 p) = Inr payload)"
  unfolding verify_jws_def authentic_def request_nonce_def
  by (auto simp: bindM_eq_Inr_iff consume_nonce_value_Inr split: prod.splits)

lemma verify_jws_Inl:
  assumes "verify_jws L cfg now req db = (Inl e, db')"
  shows "db' = db \<or> (\<exists>p key acct n. authentic L cfg req db p key acct \<and> request_nonce p = Some n \<and>
      consume_nonce cfg now n db = (Inr (), db') \<and>
      e = HTTPException 400 (JStr ''Invalid JWS payload encoding''))"
proof -
  have bad: "e = HTTPException 400 (JStr ''Invalid JWS payload encoding'')"
    if "decode_jws_payload j = Inl e" for j
    using that by (auto simp: decode_jws_payload_def split: if_splits sum.splits)
  show ?thesis
    using assms unfolding verify_jws_def authentic_def request_nonce_def
    by (auto simp: bindM_eq_Inl_iff consume_nonce_value_Inr dest: consume_nonce_value_Inl bad
        split: prod.splits)
qed

lemma verify_jws_db: "snd (verify_jws L cfg now req db) = db \<or>
    (\<exists>n. snd (verify_jws L cfg now req db) = snd (consume_nonce cfg now n db))"
proof (cases "verify_jws L cfg now req db")
  case (Pair r db')
  show ?thesis
  proof (cases r)
    case (Inl e)
    with verify_jws_Inl [of L cfg now req db e db'] Pair show ?thesis by (metis snd_conv)
  next
    case (Inr x)
    obtain payload acct where "x = (payload, acct)" by (cases x)
    with Pair Inr verify_jws_Inr_iff [of L cfg now req db payload acct db'] show ?thesis
      by (metis snd_conv)
  qed
qed

lemma verify_jws_frame [simp]:
  "accounts (snd (verify_jws L cfg now req db)) = accounts db"
  "orders (snd (verify_jws L cfg now req db)) = orders db"
  "authorizations (snd (verify_jws L cfg now req db)) = authorizations db"
  "certificates (snd (verify_jws L cfg now req db)) = certificates db"
  using verify_jws_db [of L cfg now req db] by (metis consume_nonce_frame)+

lemma verify_jws_frameD:
  assumes "verify_jws L cfg now req db = (r, db')"
  shows "accounts db' = accounts db" "orders db' = orders db" "authorizations db' = authorizations db"
    "certificates db' = certificates db"
  using verify_jws_frame [of L cfg now req db] assms by simp_all

lemma verify_jws_keys: "nonce_keys_ok (snd (verify_jws L cfg now req db)) = nonce_keys_ok db"
  using verify_jws_db [of L cfg now req db] by (metis nonce_keys_consume)

lemma verify_jws_spent:
  "nonce_spent db v \<Longrightarrow> nonce_spent (snd (verify_jws L cfg now req db)) v"
  using verify_jws_db [of L cfg now req db] by (metis nonce_spent_stable)

lemma resolve_account:
  assumes "resolve_key_and_account L cfg protected db = Inr (key, acct)" "acct \<noteq> ''''"
    "distinct (map a_id (accounts db))"
  obtains a j where "get_account acct db = Some a" "a_status a = ''valid''"
    "json_loads (a_public_key a) = Some j" "jwk_from_json L j = Some key"
  using assms
  by (auto simp: resolve_key_and_account_def kid_account_def Let_def bindE_eq_Inr_iff scalar_by_key
      get_account_def split: if_splits json.splits option.splits)

lemma resolve_jwk:
  assumes "resolve_key_and_account L cfg protected db = Inr (key, '''')"
  shows "jwk_from_json L (dict_get ''jwk'' JNull protected) = Some key"
  using assms
  by (auto simp: resolve_key_and_account_def kid_account_def Let_def bindE_eq_Inr_iff
      split: if_splits json.splits option.splits)

lemma decode_jws_Inr:
  assumes "decode_jws req = Inr p"
  shows "jp_alg p \<in> set allowed_algs \<and> dict_get ''url'' JNull (jp_protected p) = JStr (rq_url req)"
proof -
  from assms obtain body hj where hj: "decode_protected (dict_get ''protected'' (JStr '''') body) = Inr hj"
    "request_dict req = Inr body"
    by (auto simp: decode_jws_def Let_def bindE_eq_Inr_iff split: if_splits)
  with assms obtain header where h: "hj = JObj header"
    by (cases hj) (auto simp: decode_jws_def Let_def split: if_splits)
  from assms hj h obtain alg where
    "check_alg ''Unsupported JWS algorithm: '' (dict_get ''alg'' (JStr '''') header) = Inr alg"
    "dict_get ''url'' JNull header = JStr (rq_url req)" "jp_alg p = alg" "jp_protected p = header"
    by (auto simp: decode_jws_def Let_def bindE_eq_Inr_iff split: if_splits)
  moreover from this(1) have "alg \<in> set allowed_algs"
    by (cases "dict_get ''alg'' (JStr '''') header") (auto simp: check_alg_def split: if_splits)
  ultimately show ?thesis by simp
qed

lemma check_signature_Inr:
  "check_signature L p key = Inr () \<longleftrightarrow>
     (\<exists>inp sig. encode_ascii (py_str (jp_protected_b64 p) @ ''.'' @ py_str (jp_payload_b64 p)) = Inr inp \<and>
        b64_of_json (jp_signature_b64 p) = Inr sig \<and> jwa_verify L (jp_alg p) key inp sig = Some True)"
  by (auto simp: check_signature_def bindE_eq_Inr_iff verify_jws_signature_def split: if_splits)

text \<open>A request whose nonce is spent is refused, and refused without effect.\<close>

lemma spent_request_refused:
  assumes "decode_jws req = Inr p" "request_nonce p = Some n" "nonce_spent db n"
  shows "\<exists>e. verify_jws L cfg now req db = (Inl e, db)"
proof (cases "verify_jws L cfg now req db")
  case (Pair r db')
  have no: "\<nexists>s. consume_nonce cfg now n db = (Inr (), s)"
    using nonce_store.accept_iff nonce_store.spent_not_live [OF assms(3)] by blast
  show ?thesis
  proof (cases r)
    case (Inl e)
    with Pair verify_jws_Inl [of L cfg now req db e db'] no assms(1,2) show ?thesis
      by (auto simp: authentic_def)
  next
    case (Inr x)
    with Pair no assms(1,2) show ?thesis
      by (cases x) (auto simp: verify_jws_Inr_iff authentic_def)
  qed
qed

lemma verify_jws_spends:
  assumes "verify_jws L cfg now req db = (Inr pa, db')" "nonce_keys_ok db"
  obtains p n where "decode_jws req = Inr p" "request_nonce p = Some n" "nonce_spent db' n"
  using assms nonce_store.consumed_spent [of db cfg now]
  by (cases pa) (auto simp: verify_jws_Inr_iff authentic_def)

section \<open>Authenticated routes\<close>

text \<open>
  Every POST route verifies the JWS first and then runs its body, which never touches the nonce
  table.  From this contract alone: a request that verified once is refused ever after, by this
  route and by every other one, as long as its nonce stays spent.
\<close>

locale authenticated_route =
  fixes body :: "request \<Rightarrow> json \<times> string \<Rightarrow> 'r dbm"
  assumes body_nonces: "nonces (snd (body req pa db)) = nonces db"
begin

lemma route_spent_stable:
  "nonce_spent db v \<Longrightarrow> nonce_spent (snd (bindM (verify_jws L cfg now req) (body req) db)) v"
proof -
  assume "nonce_spent db v"
  then have s: "nonce_spent (snd (verify_jws L cfg now req db)) v" by (rule verify_jws_spent)
  have "nonce_spent (snd (body req pa db1)) v" if "nonce_spent db1 v" for pa db1
    using that by (simp add: nonce_spent_def body_nonces)
  with s show ?thesis by (auto simp: bindM_apply split: prod.splits sum.splits)
qed

lemma route_keys:
  "nonce_keys_ok (snd (bindM (verify_jws L cfg now req) (body req) db)) = nonce_keys_ok db"
proof -
  have "nonce_keys_ok (snd (body req pa db1)) = nonce_keys_ok db1" for pa db1
    by (simp add: nonce_keys_ok_def body_nonces)
  then show ?thesis
    using verify_jws_keys [of L cfg now req db]
    by (auto simp: bindM_apply split: prod.splits sum.splits)
qed

lemma route_success_spends:
  assumes "verify_jws L cfg now req db = (Inr pa, db1)" "nonce_keys_ok db"
  obtains p n where "decode_jws req = Inr p" "request_nonce p = Some n"
    "nonce_spent (snd (bindM (verify_jws L cfg now req) (body req) db)) n"
proof -
  obtain p n where pn: "decode_jws req = Inr p" "request_nonce p = Some n" "nonce_spent db1 n"
    using verify_jws_spends [OF assms] by blast
  have "nonce_spent (snd (body req pa db1)) n"
    using pn(3) by (simp add: nonce_spent_def body_nonces)
  with pn that assms(1) show ?thesis by simp
qed

lemma route_refused:
  assumes "decode_jws req = Inr p" "request_nonce p = Some n" "nonce_spent db n"
  shows "\<exists>e. bindM (verify_jws L cfg now req) (body req) db = (Inl e, db)"
  using spent_request_refused [OF assms, of L cfg now] by (auto simp: bindM_apply)

lemma route_replay:
  assumes "bindM (verify_jws L cfg now req) (body req) db = (Inr r, db1)" "nonce_keys_ok db"
  shows "\<exists>e. bindM (verify_jws L cfg now' req) (body req) db1 = (Inl e, db1)"
proof -
  from assms(1) obtain pa dbv where v: "verify_jws L cfg now req db = (Inr pa, dbv)"
    by (auto simp: bindM_eq_Inr_iff)
  obtain p n where "decode_jws req = Inr p" "request_nonce p = Some n" "nonce_spent db1 n"
    using route_success_spends [OF v assms(2)] assms(1) by auto
  then show ?thesis by (rule route_refused)
qed

end

end
