(* ===== verification/Ownership.thy ===== *)
theory Ownership
  imports Jws
begin

text \<open>
  The ownership checks of \<^verbatim>\<open>services/ownership.py\<close>.  Each loads a resource and asserts
  that it belongs to the requesting account.  The locale \<open>owner_guard\<close> states their common
  contract (404 when the resource is absent, 403 when it is not the caller's, the row otherwise);
  it is interpreted for orders, authorizations and certificates.
\<close>

definition unauthorized_detail :: json where
  "unauthorized_detail = JObj [(''type'', JStr ''urn:ietf:params:acme:error:unauthorized''),
     (''detail'', JStr ''This resource does not belong to the requesting account''),
     (''status'', JInt 403)]"

definition require_order_owner :: "string \<Rightarrow> string \<Rightarrow> database \<Rightarrow> exc + order_row" where
  "require_order_owner order_id account_id db =
     (case get_order_row order_id db of
        None \<Rightarrow> Inl (HTTPException 404 (JStr ''Order not found''))
      | Some order \<Rightarrow>
          if o_account_id order \<noteq> account_id then Inl (HTTPException 403 unauthorized_detail)
          else Inr order)"

definition require_authz_owner :: "string \<Rightarrow> string \<Rightarrow> database \<Rightarrow> exc + authz_row" where
  "require_authz_owner authz_id account_id db =
     (case get_authz_row authz_id db of
        None \<Rightarrow> Inl (HTTPException 404 (JStr ''Authorization not found''))
      | Some authz \<Rightarrow>
          (case get_order_row (z_order_id authz) db of
             None \<Rightarrow> Inl (HTTPException 403 unauthorized_detail)
           | Some order \<Rightarrow>
               if o_account_id order \<noteq> account_id then Inl (HTTPException 403 unauthorized_detail)
               else Inr authz))"

definition require_cert_owner :: "string \<Rightarrow> string \<Rightarrow> database \<Rightarrow> exc + cert_row" where
  "require_cert_owner cert_id account_id db =
     bindE (scalar_one_or_none (filter (\<lambda>c. c_id c = cert_id) (certificates db))) (\<lambda>found.
       case found of
         None \<Rightarrow> Inl (HTTPException 404 (JStr ''Certificate not found''))
       | Some cert \<Rightarrow>
           (case get_order_row (c_order_id cert) db of
              None \<Rightarrow> Inl (HTTPException 403 unauthorized_detail)
            | Some order \<Rightarrow>
                if o_account_id order \<noteq> account_id then Inl (HTTPException 403 unauthorized_detail)
                else Inr cert))"

section \<open>The contract of an ownership check\<close>

locale owner_guard =
  fixes invar :: "'s \<Rightarrow> bool"
    and row :: "string \<Rightarrow> 's \<Rightarrow> 'r option"
    and owner :: "'r \<Rightarrow> 's \<Rightarrow> string option"
    and guard :: "string \<Rightarrow> string \<Rightarrow> 's \<Rightarrow> exc + 'r"
  assumes absent: "invar s \<Longrightarrow> row i s = None \<Longrightarrow> \<exists>d. guard i acct s = Inl (HTTPException 404 d)"
    and foreign: "invar s \<Longrightarrow> row i s = Some r \<Longrightarrow> owner r s \<noteq> Some acct \<Longrightarrow>
      \<exists>d. guard i acct s = Inl (HTTPException 403 d)"
    and owned: "invar s \<Longrightarrow> row i s = Some r \<Longrightarrow> owner r s = Some acct \<Longrightarrow> guard i acct s = Inr r"
begin

lemma guard_Inr_iff:
  "invar s \<Longrightarrow> guard i acct s = Inr r \<longleftrightarrow> row i s = Some r \<and> owner r s = Some acct"
  using absent [of s i acct] foreign [of s i _ acct] owned [of s i _ acct]
  by (metis Inl_Inr_False option.exhaust option.inject sum.inject(2))

lemma guard_status:
  "invar s \<Longrightarrow> guard i acct s = Inl e \<Longrightarrow> \<exists>d. e = HTTPException 404 d \<or> e = HTTPException 403 d"
  using absent [of s i acct] foreign [of s i _ acct] owned [of s i _ acct]
  by (metis Inl_Inr_False option.exhaust sum.inject(1))

text \<open>A resource opens for at most one account.\<close>

lemma guard_unique:
  "invar s \<Longrightarrow> guard i a s = Inr r \<Longrightarrow> guard i b s = Inr r' \<Longrightarrow> a = b \<and> r = r'"
  by (auto simp: guard_Inr_iff)

end

definition order_owner :: "order_row \<Rightarrow> database \<Rightarrow> string option" where
  "order_owner ord db = Some (o_account_id ord)"

definition authz_owner :: "authz_row \<Rightarrow> database \<Rightarrow> string option" where
  "authz_owner z db = map_option o_account_id (get_order_row (z_order_id z) db)"

definition cert_owner :: "cert_row \<Rightarrow> database \<Rightarrow> string option" where
  "cert_owner c db = map_option o_account_id (get_order_row (c_order_id c) db)"

definition cert_keys_ok :: "database \<Rightarrow> bool" where
  "cert_keys_ok db \<longleftrightarrow> distinct (map c_id (certificates db))"

interpretation order_guard: owner_guard "\<lambda>_. True" get_order_row order_owner require_order_owner
  by unfold_locales (auto simp: require_order_owner_def order_owner_def)

interpretation authz_guard: owner_guard "\<lambda>_. True" get_authz_row authz_owner require_authz_owner
  by unfold_locales (auto simp: require_authz_owner_def authz_owner_def split: option.splits)

interpretation cert_guard: owner_guard cert_keys_ok get_cert_row cert_owner require_cert_owner
  by unfold_locales
     (auto simp: require_cert_owner_def cert_owner_def cert_keys_ok_def scalar_by_key get_cert_row_def
       split: option.splits)

lemma require_authz_owner_Inr:
  "require_authz_owner i acct db = Inr z \<longleftrightarrow>
     get_authz_row i db = Some z \<and>
     (\<exists>ord. get_order_row (z_order_id z) db = Some ord \<and> o_account_id ord = acct)"
  by (auto simp: authz_guard.guard_Inr_iff authz_owner_def)

lemma require_order_owner_Inr:
  "require_order_owner i acct db = Inr ord \<longleftrightarrow> get_order_row i db = Some ord \<and> o_account_id ord = acct"
  by (auto simp: order_guard.guard_Inr_iff order_owner_def)

end
