(* ===== verification/CertStore.thy ===== *)
theory CertStore
  imports Ownership
begin

text \<open>
  Certificates: the store of \<^verbatim>\<open>services/cert_store.py\<close>, the download route of
  \<^verbatim>\<open>routes/cert.py\<close> and the revocation route of \<^verbatim>\<open>routes/revoke.py\<close>.
  A certificate is found again by its serial number in hexadecimal; rows written before the serial
  column existed are found by parsing their chain.  Revocation at the upstream CA is an argument,
  the outcome of \<open>le.revoke_cert\<close>.
\<close>

section \<open>The store\<close>

definition serial_hex :: "int \<Rightarrow> string" where
  "serial_hex n = (if n < 0 then CHR ''-'' # nat_str 16 (nat (- n)) else nat_str 16 (nat n))"

definition leaf_serial_hex :: "'k libs \<Rightarrow> string \<Rightarrow> string option" where
  "leaf_serial_hex L pem_chain = map_option (\<lambda>(serial, _). serial_hex serial) (pem_leaf L pem_chain)"

definition new_cert_row :: "'k libs \<Rightarrow> string \<Rightarrow> datetime \<Rightarrow> string \<Rightarrow> string \<Rightarrow> datetime \<Rightarrow> cert_row" where
  "new_cert_row L cert_id now order_id pem_chain expires_at =
     \<lparr>c_id = cert_id, c_order_id = order_id, c_pem_chain = pem_chain, c_issued_at = now,
      c_expires_at = expires_at, c_serial = leaf_serial_hex L pem_chain\<rparr>"

definition store_cert ::
  "'k libs \<Rightarrow> string \<Rightarrow> datetime \<Rightarrow> string \<Rightarrow> string \<Rightarrow> datetime \<Rightarrow> string dbm" where
  "store_cert L cert_id now order_id pem_chain expires_at = (\<lambda>db.
     case tinsert c_id (new_cert_row L cert_id now order_id pem_chain expires_at) (certificates db) of
       None \<Rightarrow> (Inl (PyError ''IntegrityError''), db)
     | Some cs \<Rightarrow> (Inr cert_id, db\<lparr>certificates := cs\<rparr>))"

definition get_cert :: "string \<Rightarrow> database \<Rightarrow> exc + string" where
  "get_cert cert_id db =
     bindE (scalar_one_or_none (filter (\<lambda>c. c_id c = cert_id) (certificates db))) (\<lambda>found.
       case found of
         None \<Rightarrow> Inl (HTTPException 404 (JStr ''Certificate not found''))
       | Some cert \<Rightarrow> Inr (c_pem_chain cert))"

section \<open>Download\<close>

definition download_cert_body :: "string \<Rightarrow> request \<Rightarrow> json \<times> string \<Rightarrow> response dbm" where
  "download_cert_body cert_id req = (\<lambda>(_, account_id).
     bindM (readM (require_cert_owner cert_id account_id)) (\<lambda>owned.
     bindM (liftM owned) (\<lambda>cert.
       returnM \<lparr>rs_status = 200,
                rs_content = RawBody ''application/pem-certificate-chain'' (c_pem_chain cert),
                rs_headers = []\<rparr>)))"

definition download_cert :: "'k libs \<Rightarrow> settings \<Rightarrow> draws \<Rightarrow> string \<Rightarrow> request \<Rightarrow> response dbm" where
  "download_cert L cfg D cert_id req =
     bindM (verify_jws L cfg (clock D 0) req) (download_cert_body cert_id req)"

section \<open>Revocation\<close>

definition status_problem :: "string \<Rightarrow> string \<Rightarrow> int \<Rightarrow> json" where
  "status_problem ty detail code =
     JObj [(''type'', JStr ty), (''detail'', JStr detail), (''status'', JInt code)]"

definition revoke_unauthorized :: json where
  "revoke_unauthorized = status_problem ''urn:ietf:params:acme:error:unauthorized''
     ''Certificate not found or not owned by this account'' 403"

definition serial_from_pem :: "'k libs \<Rightarrow> string \<Rightarrow> int option" where
  "serial_from_pem L pem_chain = map_option fst (pem_leaf L pem_chain)"

text \<open>The certificates joined to an order of the account.\<close>

definition account_certs :: "string \<Rightarrow> database \<Rightarrow> cert_row list" where
  "account_certs account_id db =
     filter (\<lambda>c. list_ex (\<lambda>r. o_id r = c_order_id c \<and> o_account_id r = account_id) (orders db))
       (certificates db)"

definition find_by_serial :: "'k libs \<Rightarrow> string \<Rightarrow> int \<Rightarrow> database \<Rightarrow> cert_row option" where
  "find_by_serial L account_id serial db =
     (case find (\<lambda>c. c_serial c = Some (serial_hex serial)) (account_certs account_id db) of
        Some c \<Rightarrow> Some c
      | None \<Rightarrow> find (\<lambda>c. c_serial c = None \<and> serial_from_pem L (c_pem_chain c) = Some serial)
                  (account_certs account_id db))"

definition revoke_serial :: "'k libs \<Rightarrow> json \<Rightarrow> int option" where
  "revoke_serial L cert_b64 = (case b64_of_json cert_b64 of
     Inl _ \<Rightarrow> None | Inr cert_der \<Rightarrow> der_serial L cert_der)"

definition revoke_reply ::
  "'k libs \<Rightarrow> (json \<Rightarrow> json \<Rightarrow> exc + unit) \<Rightarrow> json \<Rightarrow> string \<Rightarrow> database \<Rightarrow> response" where
  "revoke_reply L le_revoke payload account_id db = (case payload of
     JObj kvs \<Rightarrow> (case map_of kvs ''certificate'' of
         None \<Rightarrow> json_response (status_problem ''urn:ietf:params:acme:error:malformed''
                   (''Payload must contain '' @ repr_str ''certificate'') 400) 400 []
       | Some cert_b64 \<Rightarrow>
           let reason = dict_get ''reason'' JNull kvs in
           (case revoke_serial L cert_b64 of
              None \<Rightarrow> json_response (status_problem ''urn:ietf:params:acme:error:malformed''
                   ''Invalid certificate DER encoding'' 400) 400 []
            | Some serial \<Rightarrow>
                (case find_by_serial L account_id serial db of
                   None \<Rightarrow> json_response revoke_unauthorized 403 []
                 | Some _ \<Rightarrow>
                     (case le_revoke cert_b64 reason of
                        Inl _ \<Rightarrow> json_response (status_problem ''urn:ietf:params:acme:error:serverInternal''
                          (''Revocation request to Let'' @ [CHR 0x27] @ ''s Encrypt failed'') 500) 500 []
                      | Inr _ \<Rightarrow> json_response (JObj []) 200 []))))
   | _ \<Rightarrow> json_response (status_problem ''urn:ietf:params:acme:error:malformed''
            (''Payload must contain '' @ repr_str ''certificate'') 400) 400 [])"

definition revoke_cert_body ::
  "'k libs \<Rightarrow> (json \<Rightarrow> json \<Rightarrow> exc + unit) \<Rightarrow> request \<Rightarrow> json \<times> string \<Rightarrow> response dbm" where
  "revoke_cert_body L le_revoke req = (\<lambda>(payload, account_id).
     readM (revoke_reply L le_revoke payload account_id))"

definition revoke_cert ::
  "'k libs \<Rightarrow> settings \<Rightarrow> draws \<Rightarrow> (json \<Rightarrow> json \<Rightarrow> exc + unit) \<Rightarrow> request \<Rightarrow> response dbm" where
  "revoke_cert L cfg D le_revoke req =
     bindM (verify_jws L cfg (clock D 0) req) (revoke_cert_body L le_revoke req)"

section \<open>Facts\<close>

lemma serial_hex_inj: "serial_hex m = serial_hex n \<longleftrightarrow> m = n"
proof
  have hd_ne: "hd (nat_str 16 k) \<noteq> CHR ''-''" for k
  proof -
    have "hd (nat_digits 16 k) < 16" using nat_digits_bound [of 16 _ k] by simp
    moreover have "d < 16 \<Longrightarrow> digit_char d \<noteq> CHR ''-''" for d
      by (auto dest: char_digit_digit_char simp: char_digit_def)
    ultimately show ?thesis by (simp add: nat_str_def hd_map)
  qed
  have ne: "nat_str 16 k \<noteq> CHR ''-'' # s" for k s using hd_ne [of k] by auto
  assume "serial_hex m = serial_hex n"
  then show "m = n"
    using ne [of "nat m"] ne [of "nat n"] ne [of "nat m", symmetric] ne [of "nat n", symmetric]
      nat_str_inj [of 16 "nat m" "nat n"] nat_str_inj [of 16 "nat (- m)" "nat (- n)"]
    by (auto simp: serial_hex_def split: if_splits)
qed simp

lemma store_cert_Inr:
  "store_cert L i now oid pem ex db = (Inr c, db') \<longleftrightarrow>
     i \<notin> set (map c_id (certificates db)) \<and> c = i \<and>
     db' = db\<lparr>certificates := certificates db @ [new_cert_row L i now oid pem ex]\<rparr>"
  by (auto simp: store_cert_def tinsert_def new_cert_row_def)

lemma store_cert_Inl: "store_cert L i now oid pem ex db = (Inl e, db') \<Longrightarrow> db' = db"
  by (auto simp: store_cert_def split: option.splits)

lemma get_cert_stored:
  assumes "store_cert L i now oid pem ex db = (Inr c, db')"
  shows "get_cert c db' = Inr pem"
proof -
  have "filter (\<lambda>c. c_id c = i) (certificates db) = []"
    using assms by (auto simp: store_cert_Inr filter_empty_conv)
  with assms show ?thesis
    by (auto simp: store_cert_Inr get_cert_def new_cert_row_def scalar_one_or_none_def)
qed

lemma account_certs_iff:
  "c \<in> set (account_certs acct db) \<longleftrightarrow>
     c \<in> set (certificates db) \<and> (\<exists>r \<in> set (orders db). o_id r = c_order_id c \<and> o_account_id r = acct)"
  by (auto simp: account_certs_def list_ex_iff)

definition cert_matches :: "'k libs \<Rightarrow> int \<Rightarrow> cert_row \<Rightarrow> bool" where
  "cert_matches L serial c \<longleftrightarrow>
     (case c_serial c of Some h \<Rightarrow> h = serial_hex serial
      | None \<Rightarrow> serial_from_pem L (c_pem_chain c) = Some serial)"

lemma find_by_serial_Some:
  "find_by_serial L acct serial db = Some c \<Longrightarrow> c \<in> set (account_certs acct db) \<and> cert_matches L serial c"
  by (auto simp: find_by_serial_def find_Some_iff cert_matches_def split: option.splits)

lemma find_by_serial_None:
  "find_by_serial L acct serial db = None \<longleftrightarrow> (\<forall>c \<in> set (account_certs acct db). \<not> cert_matches L serial c)"
proof
  assume "find_by_serial L acct serial db = None"
  then show "\<forall>c \<in> set (account_certs acct db). \<not> cert_matches L serial c"
    by (auto simp: find_by_serial_def find_None_iff cert_matches_def split: option.splits)
next
  assume "\<forall>c \<in> set (account_certs acct db). \<not> cert_matches L serial c"
  then show "find_by_serial L acct serial db = None"
    by (cases "find_by_serial L acct serial db") (auto dest: find_by_serial_Some)
qed

text \<open>The lookup is complete: a certificate stored for an order of the account is found.\<close>

lemma revoke_reply_status:
  "rs_status (revoke_reply L lr payload acct db) = 200 \<longleftrightarrow>
     (\<exists>kvs b64 serial c. payload = JObj kvs \<and> map_of kvs ''certificate'' = Some b64 \<and>
        revoke_serial L b64 = Some serial \<and> c \<in> set (account_certs acct db) \<and> cert_matches L serial c \<and>
        lr b64 (dict_get ''reason'' JNull kvs) = Inr ())"
  using find_by_serial_None [of L acct _ db]
  by (auto simp: revoke_reply_def json_response_def Let_def dest: find_by_serial_Some
      split: json.splits option.splits sum.splits)

lemma revoke_reply_foreign:
  assumes "payload = JObj kvs" "map_of kvs ''certificate'' = Some b64" "revoke_serial L b64 = Some serial"
    "\<forall>c \<in> set (account_certs acct db). \<not> cert_matches L serial c"
  shows "revoke_reply L lr payload acct db = json_response revoke_unauthorized 403 []"
  using assms find_by_serial_None [of L acct serial db] by (simp add: revoke_reply_def)

lemma download_cert_body_Inr:
  "cert_keys_ok db \<Longrightarrow> download_cert_body i req (payload, acct) db = (Inr r, db') \<longleftrightarrow>
     db' = db \<and> (\<exists>c ord. get_cert_row i db = Some c \<and> get_order_row (c_order_id c) db = Some ord \<and>
       o_account_id ord = acct \<and>
       r = \<lparr>rs_status = 200, rs_content = RawBody ''application/pem-certificate-chain'' (c_pem_chain c),
            rs_headers = []\<rparr>)"
  by (auto simp: download_cert_body_def bindM_eq_Inr_iff cert_guard.guard_Inr_iff cert_owner_def)

lemma download_cert_body_pure: "pure_comp (download_cert_body i req pa)"
  by (cases pa) (auto simp: download_cert_body_def intro!: pure_comp_bindM)

lemma revoke_cert_body_pure: "pure_comp (revoke_cert_body L lr req pa)"
  by (cases pa) (auto simp: revoke_cert_body_def)

interpretation download_route: authenticated_route "download_cert_body i" for i
  by unfold_locales (metis download_cert_body_pure pure_comp_def)

interpretation revoke_route: authenticated_route "revoke_cert_body L lr" for L lr
  by unfold_locales (auto simp: revoke_cert_body_def split: prod.splits)

end
