(* ===== verification/Accounts.thy ===== *)
theory Accounts
  imports CertStore
begin

text \<open>
  Accounts: registration (\<^verbatim>\<open>routes/account.py\<close>) and key roll-over
  (\<^verbatim>\<open>routes/keychange.py\<close>).  An account is identified by the canonical text of its public
  key.  The lemmas show that registering a known key returns the account it belongs to, that both
  routes keep the keys of different accounts different, and what a key roll-over has proved
  before it changes the key.
\<close>

section \<open>new-account\<close>

definition subscript :: "string \<Rightarrow> (string \<times> json) list \<Rightarrow> exc + json" where
  "subscript k d = of_option (PyError ''KeyError'') (map_of d k)"

definition extract_jwk :: "(string \<times> json) list \<Rightarrow> exc + json" where
  "extract_jwk raw_body =
     bindE (subscript ''protected'' raw_body) (\<lambda>b64.
     bindE (b64_of_json b64) (\<lambda>t.
     bindE (of_option (PyError ''JSONDecodeError'') (json_loads t)) (\<lambda>protected.
       case protected of
         JObj header \<Rightarrow> subscript ''jwk'' header
       | _ \<Rightarrow> Inl (PyError ''TypeError''))))"

definition load_contact :: "string option \<Rightarrow> exc + json option" where
  "load_contact contact = (case contact of
     None \<Rightarrow> Inr None
   | Some s \<Rightarrow> if s = '''' then Inr None
       else map_sum id Some (of_option (PyError ''JSONDecodeError'') (json_loads s)))"

definition contact_json :: "string list \<Rightarrow> json" where
  "contact_json cs = JArr (map JStr cs)"

definition dump_contact :: "string list option \<Rightarrow> string option" where
  "dump_contact contact = (case contact of
     None \<Rightarrow> None
   | Some cs \<Rightarrow> if cs = [] then None else Some (json_dumps (contact_json cs)))"

definition account_url :: "settings \<Rightarrow> string \<Rightarrow> string" where
  "account_url cfg i = relay_base_url cfg @ ''/acme/account/'' @ i"

definition account_reply :: "settings \<Rightarrow> string \<Rightarrow> string \<Rightarrow> json option \<Rightarrow> int \<Rightarrow> response" where
  "account_reply cfg i status contact code =
     json_response (account_json \<lparr>ar_status = status, ar_contact = contact,
         ar_orders = Some (account_url cfg i @ ''/orders'')\<rparr>)
       code [(''Location'', account_url cfg i)]"

definition new_account_row :: "draws \<Rightarrow> string \<Rightarrow> string list option \<Rightarrow> account_row" where
  "new_account_row D stored_key contact =
     \<lparr>a_id = uuid4 D 0, a_public_key = stored_key, a_contact = dump_contact contact,
      a_status = ''valid'', a_created_at = clock D 1\<rparr>"

definition insert_account :: "account_row \<Rightarrow> unit dbm" where
  "insert_account row = (\<lambda>db. case tinsert a_id row (accounts db) of
     None \<Rightarrow> (Inl (PyError ''IntegrityError''), db)
   | Some rows \<Rightarrow> (Inr (), db\<lparr>accounts := rows\<rparr>))"

definition find_account_by_key :: "string \<Rightarrow> database \<Rightarrow> exc + account_row option" where
  "find_account_by_key stored_key db =
     scalar_one_or_none (filter (\<lambda>a. a_public_key a = stored_key) (accounts db))"

definition register_account ::
  "settings \<Rightarrow> draws \<Rightarrow> new_account_request \<Rightarrow> string \<Rightarrow> response dbm" where
  "register_account cfg D acct_req stored_key =
     bindM (readM (find_account_by_key stored_key)) (\<lambda>found.
     bindM (liftM found) (\<lambda>existing. case existing of
       Some a \<Rightarrow>
         bindM (liftM (load_contact (a_contact a))) (\<lambda>contact.
           returnM (account_reply cfg (a_id a) (a_status a) contact 200))
     | None \<Rightarrow>
         if only_return_existing acct_req
         then returnM (json_response (status_problem ACCOUNT_DOES_NOT_EXIST ''No account found for this key'' 400) 400 [])
         else bindM (insert_account (new_account_row D stored_key (na_contact acct_req))) (\<lambda>_.
           returnM (account_reply cfg (uuid4 D 0) ''valid'' (map_option contact_json (na_contact acct_req)) 201))))"

definition new_account_body ::
  "'k libs \<Rightarrow> settings \<Rightarrow> draws \<Rightarrow> request \<Rightarrow> json \<times> string \<Rightarrow> response dbm" where
  "new_account_body L cfg D req = (\<lambda>(payload, _).
     bindM (liftM (of_option (PyError ''ValidationError'') (validate_new_account L payload))) (\<lambda>acct_req.
     bindM (liftM (bindE (request_dict req) extract_jwk)) (\<lambda>jwk_data.
       register_account cfg D acct_req (canonical_jwk jwk_data))))"

definition new_account :: "'k libs \<Rightarrow> settings \<Rightarrow> draws \<Rightarrow> request \<Rightarrow> response dbm" where
  "new_account L cfg D req = bindM (verify_jws L cfg (clock D 0) req) (new_account_body L cfg D req)"

section \<open>key-change\<close>

definition bad_request :: "string \<Rightarrow> exc" where
  "bad_request detail = HTTPException 400 (JStr detail)"

definition inner_signature_ok :: "'k libs \<Rightarrow> string \<Rightarrow> json \<Rightarrow> json \<Rightarrow> json \<Rightarrow> json \<Rightarrow> bool" where
  "inner_signature_ok L alg_name new_jwk protected_b64 payload_b64 signature_b64 =
     (case (jwk_from_json L new_jwk,
            encode_ascii (py_str protected_b64 @ ''.'' @ py_str payload_b64), b64_of_json signature_b64) of
        (Some key, Inr signing_input, Inr sig_bytes) \<Rightarrow>
          jwa_verify L alg_name key signing_input sig_bytes = Some True
      | _ \<Rightarrow> False)"

definition decode_json_b64 :: "exc \<Rightarrow> json \<Rightarrow> exc + json" where
  "decode_json_b64 e b64 =
     (case bindE (b64_of_json b64) (\<lambda>t. of_option e (json_loads t)) of Inl _ \<Rightarrow> Inl e | Inr j \<Rightarrow> Inr j)"

definition check_inner_payload :: "string \<Rightarrow> string \<Rightarrow> json \<Rightarrow> exc + unit" where
  "check_inner_payload expected_account_url old_public_key_json inner_payload = (case inner_payload of
     JObj kvs \<Rightarrow>
       if dict_get ''account'' JNull kvs \<noteq> JStr expected_account_url
       then Inl (bad_request (''Inner JWS payload '' @ repr_str ''account'' @ '' does not match the requesting account''))
       else if dict_get ''oldKey'' JNull kvs = JNull
       then Inl (bad_request (''Inner JWS payload missing '' @ repr_str ''oldKey''))
       else if canonical_jwk (dict_get ''oldKey'' JNull kvs) \<noteq> old_public_key_json
       then Inl (bad_request (''Inner JWS payload '' @ repr_str ''oldKey'' @ '' does not match the current account key''))
       else Inr ()
   | _ \<Rightarrow> Inl (PyError ''AttributeError''))"

definition inner_new_jwk :: "string \<Rightarrow> (string \<times> json) list \<Rightarrow> exc + json" where
  "inner_new_jwk key_change_url protected =
     (if dict_get ''url'' JNull protected \<noteq> JStr key_change_url
      then Inl (bad_request ''Inner JWS url does not match key-change URL'')
      else if dict_get ''jwk'' JNull protected = JNull
      then Inl (bad_request (''Inner JWS protected header must contain '' @ repr_str ''jwk''))
      else if dict_get ''kid'' JNull protected \<noteq> JNull
      then Inl (bad_request (''Inner JWS must not contain '' @ repr_str ''kid''))
      else Inr (dict_get ''jwk'' JNull protected))"

definition verify_inner_jws ::
  "'k libs \<Rightarrow> (string \<times> json) list \<Rightarrow> string \<Rightarrow> string \<Rightarrow> string \<Rightarrow> exc + json" where
  "verify_inner_jws L inner expected_account_url old_public_key_json key_change_url =
     (let protected_b64 = dict_get ''protected'' (JStr '''') inner;
          payload_b64 = dict_get ''payload'' (JStr '''') inner;
          signature_b64 = dict_get ''signature'' (JStr '''') inner
      in if \<not> truthy protected_b64 \<or> \<not> truthy signature_b64
         then Inl (bad_request ''Inner JWS missing required fields'')
         else bindE (decode_json_b64 (bad_request ''Invalid inner JWS protected header'') protected_b64) (\<lambda>header.
           case header of
             JObj protected \<Rightarrow>
               bindE (check_alg ''Inner JWS unsupported algorithm: '' (dict_get ''alg'' (JStr '''') protected)) (\<lambda>alg_name.
               bindE (inner_new_jwk key_change_url protected) (\<lambda>new_jwk_data.
               if \<not> inner_signature_ok L alg_name new_jwk_data protected_b64 payload_b64 signature_b64
               then Inl (bad_request ''Inner JWS signature verification failed'')
               else bindE (decode_json_b64 (bad_request ''Invalid inner JWS payload'') payload_b64) (\<lambda>inner_payload.
                 bindE (check_inner_payload expected_account_url old_public_key_json inner_payload) (\<lambda>_.
                   Inr new_jwk_data))))
           | _ \<Rightarrow> Inl (PyError ''AttributeError'')))"

definition key_change_check ::
  "'k libs \<Rightarrow> settings \<Rightarrow> request \<Rightarrow> json \<Rightarrow> string \<Rightarrow> database \<Rightarrow> exc + account_row \<times> string" where
  "key_change_check L cfg req payload account_id db =
     (if account_id = ''''
      then Inl (bad_request (''key-change requires '' @ repr_str ''kid'' @ '' (not '' @ repr_str ''jwk'' @ '')''))
      else case payload of
        JObj inner \<Rightarrow>
          bindE (scalar_one_or_none (filter (\<lambda>a. a_id a = account_id) (accounts db))) (\<lambda>found. case found of
            None \<Rightarrow> Inl (HTTPException 401 (JStr ''Account not found''))
          | Some account \<Rightarrow>
              bindE (verify_inner_jws L inner (account_url cfg account_id) (a_public_key account) (rq_url req)) (\<lambda>new_jwk.
              let new_canonical = canonical_jwk new_jwk in
              bindE (scalar_one_or_none (filter (\<lambda>a. a_public_key a = new_canonical \<and> a_id a \<noteq> account_id) (accounts db)))
                (\<lambda>existing. case existing of
                   Some _ \<Rightarrow> Inl (HTTPException 409 (JStr ''New key is already registered to a different account''))
                 | None \<Rightarrow> Inr (account, new_canonical))))
      | _ \<Rightarrow> Inl (bad_request ''key-change payload must be a JSON object''))"

definition key_change_response :: "settings \<Rightarrow> string \<Rightarrow> account_row \<Rightarrow> exc + response" where
  "key_change_response cfg account_id account =
     bindE (load_contact (a_contact account)) (\<lambda>contact.
       Inr (json_response
         (JObj ([(''status'', JStr (a_status account))] @
            (case contact of Some c \<Rightarrow> if truthy c then [(''contact'', c)] else [] | None \<Rightarrow> []) @
            [(''orders'', JStr (account_url cfg account_id @ ''/orders''))]))
         200 [(''Location'', account_url cfg account_id)]))"

definition key_change_body ::
  "'k libs \<Rightarrow> settings \<Rightarrow> request \<Rightarrow> json \<times> string \<Rightarrow> response dbm" where
  "key_change_body L cfg req = (\<lambda>(payload, account_id).
     bindM (readM (key_change_check L cfg req payload account_id)) (\<lambda>checked.
     bindM (liftM checked) (\<lambda>(account, new_canonical).
     bindM (writeM (update_account account_id (\<lambda>a. a\<lparr>a_public_key := new_canonical\<rparr>))) (\<lambda>_.
       liftM (key_change_response cfg account_id account)))))"

definition key_change :: "'k libs \<Rightarrow> settings \<Rightarrow> draws \<Rightarrow> request \<Rightarrow> response dbm" where
  "key_change L cfg D req = bindM (verify_jws L cfg (clock D 0) req) (key_change_body L cfg req)"

section \<open>The account table\<close>

definition account_keys_ok :: "database \<Rightarrow> bool" where
  "account_keys_ok db \<longleftrightarrow> distinct (map a_id (accounts db)) \<and> distinct (map a_public_key (accounts db))"

lemma find_account_by_key_ok:
  "account_keys_ok db \<Longrightarrow> find_account_by_key k db = Inr (tget a_public_key k (accounts db))"
  by (simp add: find_account_by_key_def scalar_by_key account_keys_ok_def)

lemma insert_account_Inr:
  "insert_account row db = (Inr u, db') \<longleftrightarrow>
     a_id row \<notin> set (map a_id (accounts db)) \<and> db' = db\<lparr>accounts := accounts db @ [row]\<rparr>"
  by (auto simp: insert_account_def tinsert_def)

lemma insert_account_Inl: "insert_account row db = (Inl e, db') \<Longrightarrow> db' = db"
  by (auto simp: insert_account_def split: option.splits)

text \<open>Every effect of a registration.\<close>

lemma register_account_db:
  assumes "register_account cfg D ar k db = (r, db')"
  shows "db' = db \<or> (find_account_by_key k db = Inr None \<and> \<not> only_return_existing ar \<and>
      uuid4 D 0 \<notin> set (map a_id (accounts db)) \<and>
      db' = db\<lparr>accounts := accounts db @ [new_account_row D k (na_contact ar)]\<rparr>)"
proof (cases r)
  case (Inl e)
  with assms show ?thesis
    by (auto simp: register_account_def bindM_eq_Inl_iff split: option.splits if_splits dest: insert_account_Inl)
next
  case (Inr x)
  with assms show ?thesis
    by (auto simp: register_account_def bindM_eq_Inr_iff insert_account_Inr new_account_row_def
        split: option.splits if_splits)
qed

lemma register_account_existing:
  assumes "account_keys_ok db" "tget a_public_key k (accounts db) = Some a" "load_contact (a_contact a) = Inr c"
  shows "register_account cfg D ar k db = (Inr (account_reply cfg (a_id a) (a_status a) c 200), db)"
  using assms by (simp add: register_account_def bindM_apply find_account_by_key_ok)

lemma register_account_fresh:
  assumes "account_keys_ok db" "tget a_public_key k (accounts db) = None" "\<not> only_return_existing ar"
    "uuid4 D 0 \<notin> set (map a_id (accounts db))"
  shows "register_account cfg D ar k db =
     (Inr (account_reply cfg (uuid4 D 0) ''valid'' (map_option contact_json (na_contact ar)) 201),
      db\<lparr>accounts := accounts db @ [new_account_row D k (na_contact ar)]\<rparr>)"
proof -
  have "insert_account (new_account_row D k (na_contact ar)) db =
      (Inr (), db\<lparr>accounts := accounts db @ [new_account_row D k (na_contact ar)]\<rparr>)"
    using assms(4) by (simp add: insert_account_Inr new_account_row_def)
  with assms show ?thesis by (simp add: register_account_def bindM_apply find_account_by_key_ok)
qed

lemma load_dump_contact [simp]:
  "load_contact (dump_contact c) = Inr (case c of Some (x # xs) \<Rightarrow> Some (contact_json (x # xs)) | _ \<Rightarrow> None)"
proof (cases "\<exists>x xs. c = Some (x # xs)")
  case True
  then obtain x xs where c: "c = Some (x # xs)" by blast
  have l: "json_loads (json_dumps (contact_json (x # xs))) = Some (contact_json (x # xs))"
    by (rule json_loads_dumps) (auto simp: contact_json_def list_all_iff)
  then have "json_dumps (contact_json (x # xs)) \<noteq> []" by (auto simp: contact_json_def json_dumps_def)
  with c l show ?thesis by (simp add: dump_contact_def load_contact_def)
qed (auto simp: dump_contact_def load_contact_def split: option.splits list.splits)

lemma account_keys_insert:
  assumes "account_keys_ok db" "find_account_by_key k db = Inr None" "uuid4 D 0 \<notin> set (map a_id (accounts db))"
  shows "account_keys_ok (db\<lparr>accounts := accounts db @ [new_account_row D k c]\<rparr>)"
  using assms find_account_by_key_ok [OF assms(1), of k]
  by (auto simp: account_keys_ok_def new_account_row_def tget_None_iff)

section \<open>Key roll-over\<close>

lemma verify_inner_jws_Inr:
  assumes "verify_inner_jws L inner url old kurl = Inr jwk"
  obtains header alg pl where
    "decode_json_b64 (bad_request ''Invalid inner JWS protected header'') (dict_get ''protected'' (JStr '''') inner) = Inr (JObj header)"
    "alg \<in> set allowed_algs" "dict_get ''jwk'' JNull header = jwk" "jwk \<noteq> JNull"
    "dict_get ''url'' JNull header = JStr kurl"
    "inner_signature_ok L alg jwk (dict_get ''protected'' (JStr '''') inner)
       (dict_get ''payload'' (JStr '''') inner) (dict_get ''signature'' (JStr '''') inner)"
    "decode_json_b64 (bad_request ''Invalid inner JWS payload'') (dict_get ''payload'' (JStr '''') inner) = Inr (JObj pl)"
    "dict_get ''account'' JNull pl = JStr url" "canonical_jwk (dict_get ''oldKey'' JNull pl) = old"
proof -
  from assms obtain hj where hj:
    "decode_json_b64 (bad_request ''Invalid inner JWS protected header'') (dict_get ''protected'' (JStr '''') inner) = Inr hj"
    unfolding verify_inner_jws_def by (auto simp: Let_def bindE_eq_Inr_iff split: if_splits)
  with assms obtain header where h: "hj = JObj header"
    unfolding verify_inner_jws_def by (cases hj) (auto simp: Let_def split: if_splits)
  from assms hj h obtain alg new pl where
    alg: "check_alg ''Inner JWS unsupported algorithm: '' (dict_get ''alg'' (JStr '''') header) = Inr alg"
    and new: "inner_new_jwk kurl header = Inr new"
    and sig: "inner_signature_ok L alg new (dict_get ''protected'' (JStr '''') inner)
       (dict_get ''payload'' (JStr '''') inner) (dict_get ''signature'' (JStr '''') inner)"
    and pl: "decode_json_b64 (bad_request ''Invalid inner JWS payload'') (dict_get ''payload'' (JStr '''') inner) = Inr pl"
    and chk: "check_inner_payload url old pl = Inr ()" and jwk: "jwk = new"
    unfolding verify_inner_jws_def by (auto simp: Let_def bindE_eq_Inr_iff split: if_splits)
  have "alg \<in> set allowed_algs" using alg by (auto simp: check_alg_def split: json.splits if_splits)
  moreover have "dict_get ''jwk'' JNull header = new" "new \<noteq> JNull" "dict_get ''url'' JNull header = JStr kurl"
    using new by (auto simp: inner_new_jwk_def split: if_splits)
  moreover obtain kvs where "pl = JObj kvs" "dict_get ''account'' JNull kvs = JStr url"
    "canonical_jwk (dict_get ''oldKey'' JNull kvs) = old"
    using chk by (cases pl) (auto simp: check_inner_payload_def split: if_splits)
  ultimately show ?thesis using that hj h sig pl jwk by blast
qed

lemma key_change_check_Inr:
  assumes "key_change_check L cfg req payload acct db = Inr (a, k)"
  obtains inner jwk where "acct \<noteq> ''''" "payload = JObj inner" "a \<in> set (accounts db)" "a_id a = acct"
    "verify_inner_jws L inner (account_url cfg acct) (a_public_key a) (rq_url req) = Inr jwk"
    "k = canonical_jwk jwk" "\<forall>b \<in> set (accounts db). a_public_key b = k \<longrightarrow> a_id b = acct"
proof -
  from assms obtain inner jwk where ij: "acct \<noteq> ''''" "payload = JObj inner"
    "filter (\<lambda>a. a_id a = acct) (accounts db) = [a]"
    "verify_inner_jws L inner (account_url cfg acct) (a_public_key a) (rq_url req) = Inr jwk"
    "k = canonical_jwk jwk" "filter (\<lambda>a. a_public_key a = k \<and> a_id a \<noteq> acct) (accounts db) = []"
    unfolding key_change_check_def
    by (auto simp: Let_def bindE_eq_Inr_iff scalar_one_or_none_Inr_iff split: if_splits json.splits option.splits)
  from ij(3) have "a \<in> set (filter (\<lambda>a. a_id a = acct) (accounts db))" by simp
  then have "a \<in> set (accounts db)" "a_id a = acct" by auto
  moreover have "\<forall>b \<in> set (accounts db). a_public_key b = k \<longrightarrow> a_id b = acct"
    using ij(6) by (simp add: filter_empty_conv)
  ultimately show ?thesis using that ij(1,2,4,5) by blast
qed

lemma key_change_body_db:
  assumes "key_change_body L cfg req (payload, acct) db = (r, db')"
  shows "db' = db \<or> (\<exists>a k. key_change_check L cfg req payload acct db = Inr (a, k) \<and>
      db' = update_account acct (\<lambda>a. a\<lparr>a_public_key := k\<rparr>) db)"
  using assms by (auto simp: key_change_body_def bindM_apply split: sum.splits prod.splits)

lemma account_keys_change:
  assumes "account_keys_ok db" "key_change_check L cfg req payload acct db = Inr (a, k)"
  shows "account_keys_ok (update_account acct (\<lambda>a. a\<lparr>a_public_key := k\<rparr>) db)"
proof -
  from assms(2) have uniq: "\<forall>b \<in> set (accounts db). a_public_key b = k \<longrightarrow> a_id b = acct"
    by (rule key_change_check_Inr)
  have ids: "distinct (map a_id (accounts db))" and keys: "distinct (map a_public_key (accounts db))"
    using assms(1) by (auto simp: account_keys_ok_def)
  have "inj_on a_public_key (set (tupdate (\<lambda>r. a_id r = acct) (\<lambda>a. a\<lparr>a_public_key := k\<rparr>) (accounts db)))"
    using ids keys uniq by (auto simp: inj_on_def set_tupdate distinct_map split: if_splits)
  moreover have "distinct (tupdate (\<lambda>r. a_id r = acct) (\<lambda>a. a\<lparr>a_public_key := k\<rparr>) (accounts db))"
    using ids by (metis account_key.keys_tupdate distinct_map)
  ultimately show ?thesis using ids by (simp add: account_keys_ok_def distinct_map account_key.keys_tupdate)
qed

section \<open>The routes, cut where they await\<close>

text \<open>
  Both routes look something up and write later; another request may come in between.  The part that
  looks up either answers at once or leaves a plan for the part that writes.
\<close>

record account_plan =
  np_row :: account_row
  np_contact :: "string list option"

definition new_account_prepare ::
  "'k libs \<Rightarrow> settings \<Rightarrow> draws \<Rightarrow> request \<Rightarrow> json \<Rightarrow> database \<Rightarrow> exc + (response + account_plan)" where
  "new_account_prepare L cfg D req payload db =
     bindE (of_option (PyError ''ValidationError'') (validate_new_account L payload)) (\<lambda>acct_req.
     bindE (bindE (request_dict req) extract_jwk) (\<lambda>jwk_data.
     bindE (find_account_by_key (canonical_jwk jwk_data) db) (\<lambda>existing. case existing of
       Some a \<Rightarrow> bindE (load_contact (a_contact a)) (\<lambda>contact.
         Inr (Inl (account_reply cfg (a_id a) (a_status a) contact 200)))
     | None \<Rightarrow>
         if only_return_existing acct_req
         then Inr (Inl (json_response (status_problem ACCOUNT_DOES_NOT_EXIST ''No account found for this key'' 400) 400 []))
         else Inr (Inr \<lparr>np_row = new_account_row D (canonical_jwk jwk_data) (na_contact acct_req),
                        np_contact = na_contact acct_req\<rparr>))))"

definition new_account_commit :: "settings \<Rightarrow> account_plan \<Rightarrow> response dbm" where
  "new_account_commit cfg plan =
     bindM (insert_account (np_row plan)) (\<lambda>_.
       returnM (account_reply cfg (a_id (np_row plan)) ''valid'' (map_option contact_json (np_contact plan)) 201))"

lemma new_account_body_split:
  "new_account_body L cfg D req (payload, x) =
     bindM (readM (new_account_prepare L cfg D req payload)) (\<lambda>prepared.
     bindM (liftM prepared) (\<lambda>answer. case answer of
       Inl r \<Rightarrow> returnM r
     | Inr plan \<Rightarrow> new_account_commit cfg plan))"
proof
  fix db
  show "new_account_body L cfg D req (payload, x) db =
      bindM (readM (new_account_prepare L cfg D req payload)) (\<lambda>prepared.
      bindM (liftM prepared) (\<lambda>answer. case answer of
        Inl r \<Rightarrow> returnM r
      | Inr plan \<Rightarrow> new_account_commit cfg plan)) db"
    by (auto simp: new_account_body_def new_account_prepare_def register_account_def bindM_apply bindE_def
        new_account_commit_def new_account_row_def split: option.splits sum.splits)
qed

definition key_change_commit :: "settings \<Rightarrow> string \<Rightarrow> account_row \<Rightarrow> string \<Rightarrow> response dbm" where
  "key_change_commit cfg account_id account new_canonical =
     bindM (writeM (update_account account_id (\<lambda>a. a\<lparr>a_public_key := new_canonical\<rparr>))) (\<lambda>_.
       liftM (key_change_response cfg account_id account))"

lemma key_change_body_split:
  "key_change_body L cfg req (payload, acct) =
     bindM (readM (key_change_check L cfg req payload acct)) (\<lambda>checked.
     bindM (liftM checked) (\<lambda>(account, k). key_change_commit cfg acct account k))"
  by (simp add: key_change_body_def key_change_commit_def)

lemma new_account_prepare_Inr:
  assumes "new_account_prepare L cfg D req payload db = Inr (Inr plan)"
  obtains jwk where "find_account_by_key (canonical_jwk jwk) db = Inr None"
    "np_row plan = new_account_row D (canonical_jwk jwk) (np_contact plan)"
  using assms by (auto simp: new_account_prepare_def bindE_eq_Inr_iff split: option.splits if_splits)

lemma new_account_commit_db:
  assumes "new_account_commit cfg plan db = (r, db')"
  shows "db' = db \<or> (a_id (np_row plan) \<notin> set (map a_id (accounts db)) \<and>
    db' = db\<lparr>accounts := accounts db @ [np_row plan]\<rparr>)"
proof (cases "insert_account (np_row plan) db")
  case (Pair x d)
  then show ?thesis using assms
    by (cases x) (auto simp: new_account_commit_def insert_account_Inr dest: insert_account_Inl)
qed

lemma key_change_commit_db:
  "key_change_commit cfg acct a k db = (r, db') \<Longrightarrow> db' = update_account acct (\<lambda>a. a\<lparr>a_public_key := k\<rparr>) db"
  by (auto simp: key_change_commit_def)

text \<open>
  Two registrations of one key that both looked it up before either wrote leave two accounts with
  that key, and from then on every registration request for it fails.
\<close>

lemma concurrent_registration_duplicates:
  assumes "new_account_prepare L cfg D req payload db = Inr (Inr plan)"
    "new_account_prepare L cfg D' req payload db = Inr (Inr plan')"
    "uuid4 D 0 \<notin> set (map a_id (accounts db))" "uuid4 D' 0 \<notin> set (map a_id (accounts db))" "uuid4 D 0 \<noteq> uuid4 D' 0"
  shows "\<exists>r r' db1 db2. new_account_commit cfg plan db = (Inr r, db1) \<and> new_account_commit cfg plan' db1 = (Inr r', db2) \<and>
    \<not> account_keys_ok db2 \<and> (\<forall>D x. fst (new_account_body L cfg D req (payload, x) db2) = Inl (PyError ''MultipleResultsFound''))"
proof -
  from assms(1,2) obtain ar jwk where v: "validate_new_account L payload = Some ar"
    "bindE (request_dict req) extract_jwk = Inr jwk"
    and f: "find_account_by_key (canonical_jwk jwk) db = Inr None"
    and p: "np_row plan = new_account_row D (canonical_jwk jwk) (na_contact ar)"
      "np_row plan' = new_account_row D' (canonical_jwk jwk) (na_contact ar)"
    by (auto simp: new_account_prepare_def bindE_eq_Inr_iff split: option.splits if_splits)
  let ?k = "canonical_jwk jwk"
  let ?db1 = "db\<lparr>accounts := accounts db @ [np_row plan]\<rparr>"
  let ?db2 = "?db1\<lparr>accounts := accounts ?db1 @ [np_row plan']\<rparr>"
  have ids: "a_id (np_row plan) = uuid4 D 0" "a_id (np_row plan') = uuid4 D' 0"
    "a_public_key (np_row plan) = ?k" "a_public_key (np_row plan') = ?k" by (simp_all add: p new_account_row_def)
  have "insert_account (np_row plan) db = (Inr (), ?db1)" "insert_account (np_row plan') ?db1 = (Inr (), ?db2)"
    using assms(3-5) ids by (auto simp: insert_account_Inr)
  then have c: "\<exists>r. new_account_commit cfg plan db = (Inr r, ?db1)" "\<exists>r. new_account_commit cfg plan' ?db1 = (Inr r, ?db2)"
    by (auto simp: new_account_commit_def)
  have "filter (\<lambda>a. a_public_key a = ?k) (accounts db) = []"
    using f by (auto simp: find_account_by_key_def scalar_one_or_none_Inr_iff)
  then have "find_account_by_key ?k ?db2 = Inl (PyError ''MultipleResultsFound'')"
    by (simp add: find_account_by_key_def scalar_one_or_none_def ids)
  then have "fst (new_account_body L cfg D0 req (payload, x) ?db2) = Inl (PyError ''MultipleResultsFound'')" for D0 x
    using v by (simp add: new_account_body_def register_account_def bindM_apply)
  moreover have "\<not> account_keys_ok ?db2" by (simp add: account_keys_ok_def ids)
  ultimately show ?thesis using c by blast
qed

section \<open>Contracts of the routes\<close>

lemma new_account_body_db:
  assumes "new_account_body L cfg D req pa db = (r, db')"
  shows "db' = db \<or> (\<exists>jwk c. find_account_by_key (canonical_jwk jwk) db = Inr None \<and>
      uuid4 D 0 \<notin> set (map a_id (accounts db)) \<and>
      db' = db\<lparr>accounts := accounts db @ [new_account_row D (canonical_jwk jwk) c]\<rparr>)"
  using assms
  by (cases pa) (auto simp: new_account_body_def bindM_apply split: sum.splits prod.splits dest!: register_account_db)

lemma new_account_body_keys:
  "account_keys_ok db \<Longrightarrow> new_account_body L cfg D req pa db = (r, db') \<Longrightarrow> account_keys_ok db'"
  by (auto dest!: new_account_body_db intro: account_keys_insert)

lemma key_change_body_keys:
  "account_keys_ok db \<Longrightarrow> key_change_body L cfg req pa db = (r, db') \<Longrightarrow> account_keys_ok db'"
  by (cases pa) (auto dest!: key_change_body_db intro: account_keys_change)

interpretation new_account_route: authenticated_route "new_account_body L cfg D" for L cfg D
proof
  fix req pa db
  obtain r db' where e: "new_account_body L cfg D req pa db = (r, db')" by fastforce
  with new_account_body_db [OF e] show "nonces (snd (new_account_body L cfg D req pa db)) = nonces db" by auto
qed

interpretation key_change_route: authenticated_route "key_change_body L cfg" for L cfg
proof
  fix req db and pa :: "json \<times> string"
  obtain payload acct where pa: "pa = (payload, acct)" by (cases pa)
  obtain r db' where e: "key_change_body L cfg req (payload, acct) db = (r, db')" by fastforce
  with key_change_body_db [OF e] pa show "nonces (snd (key_change_body L cfg req pa db)) = nonces db" by auto
qed

end
