(* ===== verification/Orders.thy ===== *)
theory Orders
  imports Ownership
begin

text \<open>
  The order routes of \<^verbatim>\<open>routes/order.py\<close>: creating an order with its authorizations,
  reading it, finalizing it.  Every route is the JWS verification followed by its body; the
  finalize body is split where the source awaits, into the part that reads and checks and the
  part that claims the order with a conditional update and dispatches the worker.  The lemmas
  give the outcome of each check, the effect of each route on the tables, and that of two claims
  on one order at most one wins.
\<close>

section \<open>Helpers of the order routes\<close>

definition isoformat_utc :: "datetime option \<Rightarrow> string option" where
  "isoformat_utc dt = map_option (\<lambda>t. isoformat t @ ''+00:00'') dt"

definition validate_identifiers :: "acme_identifier list \<Rightarrow> exc + unit" where
  "validate_identifiers identifiers =
     (if identifiers = []
      then Inl (HTTPException 400 (problem MALFORMED ''Order must contain at least one identifier''))
      else if length identifiers > 1
      then Inl (HTTPException 400 (problem MALFORMED
             ''This relay issues one domain per order; multi-identifier (SAN) orders are not supported''))
      else if \<exists>ident \<in> set identifiers. id_type ident \<noteq> ''dns'' \<or> strip (id_value ident) = []
      then Inl (HTTPException 400 (problem MALFORMED
             (''Each identifier must be type '' @ repr_str ''dns'' @ '' with a non-empty value'')))
      else Inr ())"

definition rate_window_start :: "settings \<Rightarrow> datetime \<Rightarrow> datetime" where
  "rate_window_start cfg now = now - seconds (order_rate_window cfg)"

definition recent_orders :: "string \<Rightarrow> datetime \<Rightarrow> order_row list \<Rightarrow> nat" where
  "recent_orders account_id window_start rows =
     tcount (\<lambda>r. o_account_id r = account_id \<and> o_created_at r \<ge> window_start) rows"

definition check_order_rate_limit :: "settings \<Rightarrow> datetime \<Rightarrow> string \<Rightarrow> database \<Rightarrow> exc + unit" where
  "check_order_rate_limit cfg now account_id db =
     (let limit = order_rate_limit cfg in
      if limit \<le> 0 then Inr ()
      else if int (recent_orders account_id (rate_window_start cfg now) (orders db)) \<ge> limit
      then Inl (HTTPException 429 (problem RATE_LIMITED
             (''Order rate limit of '' @ int_str limit @ '' per '' @ int_str (order_rate_window cfg) @ ''s exceeded'')))
      else Inr ())"

definition under_base :: "string \<Rightarrow> string \<Rightarrow> bool" where
  "under_base value base \<longleftrightarrow> value = base \<or> endswith value (''.'' @ base)"

fun check_domain_policy :: "string list \<Rightarrow> acme_identifier list \<Rightarrow> exc + unit" where
  "check_domain_policy allowed [] = Inr ()"
| "check_domain_policy allowed (ident # idents) =
     (if allowed = [] then Inr ()
      else if \<not> list_ex (under_base (id_value ident)) allowed
      then Inl (HTTPException 403 (problem REJECTED_IDENTIFIER
             (''Domain '' @ repr_str (id_value ident) @ '' is not under an allowed base domain'')))
      else check_domain_policy allowed idents)"

section \<open>new-order\<close>

definition new_order_row :: "draws \<Rightarrow> string \<Rightarrow> acme_identifier list \<Rightarrow> order_row" where
  "new_order_row D account_id identifiers =
     \<lparr>o_id = uuid4 D 0, o_account_id = account_id, o_status = ''pending'',
      o_identifiers = dump_identifiers identifiers, o_le_order_url = None, o_cert_id = None,
      o_expires_at = Some (clock D 2 + days 1), o_created_at = clock D 3, o_error = None\<rparr>"

definition new_authz_row :: "draws \<Rightarrow> nat \<Rightarrow> acme_identifier \<Rightarrow> authz_row" where
  "new_authz_row D i ident =
     \<lparr>z_id = uuid4 D (Suc i), z_order_id = uuid4 D 0, z_identifier = id_value ident,
      z_status = ''pending'', z_challenge_token = Some (token D i), z_le_authz_url = None,
      z_created_at = clock D (4 + i), z_error = None\<rparr>"

definition new_authz_rows :: "draws \<Rightarrow> acme_identifier list \<Rightarrow> authz_row list" where
  "new_authz_rows D identifiers =
     map (\<lambda>(i, ident). new_authz_row D i ident) (zip [0..<length identifiers] identifiers)"

text \<open>The commit of one order with its authorizations.\<close>

definition commit_order :: "order_row \<Rightarrow> authz_row list \<Rightarrow> unit dbm" where
  "commit_order order authzs = (\<lambda>db.
     case (tinsert o_id order (orders db), tinsert_all z_id authzs (authorizations db)) of
       (Some os, Some zs) \<Rightarrow> (Inr (), db\<lparr>orders := os, authorizations := zs\<rparr>)
     | _ \<Rightarrow> (Inl (PyError ''IntegrityError''), db))"

definition authz_url :: "settings \<Rightarrow> string \<Rightarrow> string" where
  "authz_url cfg i = relay_base_url cfg @ ''/acme/authz/'' @ i"

definition order_url :: "settings \<Rightarrow> string \<Rightarrow> string" where
  "order_url cfg i = relay_base_url cfg @ ''/acme/order/'' @ i"

definition new_order_body ::
  "'k libs \<Rightarrow> settings \<Rightarrow> draws \<Rightarrow> request \<Rightarrow> json \<times> string \<Rightarrow> response dbm" where
  "new_order_body L cfg D req = (\<lambda>(payload, account_id).
     bindM (liftM (of_option (PyError ''ValidationError'') (validate_new_order L payload))) (\<lambda>identifiers.
     bindM (liftM (validate_identifiers identifiers)) (\<lambda>_.
     bindM (liftM (check_domain_policy (allowed_domain_list cfg) identifiers)) (\<lambda>_.
     bindM (readM (check_order_rate_limit cfg (clock D 1) account_id)) (\<lambda>limited.
     bindM (liftM limited) (\<lambda>_.
     let order = new_order_row D account_id identifiers;
         authzs = new_authz_rows D identifiers
     in bindM (commit_order order authzs) (\<lambda>_.
        returnM (json_response
          (order_json \<lparr>or_status = ''pending'', or_identifiers = identifiers,
             or_authorizations = map (\<lambda>z. authz_url cfg (z_id z)) authzs,
             or_finalize = order_url cfg (uuid4 D 0) @ ''/finalize'',
             or_certificate = None, or_expires = isoformat_utc (o_expires_at order), or_error = None\<rparr>)
          201 [(''Location'', order_url cfg (uuid4 D 0))]))))))))"

definition new_order :: "'k libs \<Rightarrow> settings \<Rightarrow> draws \<Rightarrow> request \<Rightarrow> response dbm" where
  "new_order L cfg D req = bindM (verify_jws L cfg (clock D 0) req) (new_order_body L cfg D req)"

section \<open>Reading an order\<close>

fun load_identifier_objects :: "json list \<Rightarrow> exc + acme_identifier list" where
  "load_identifier_objects [] = Inr []"
| "load_identifier_objects (j # js) =
     bindE (of_option (PyError ''ValidationError'') (identifier_of_json j)) (\<lambda>i.
     bindE (load_identifier_objects js) (\<lambda>is. Inr (i # is)))"

definition load_error :: "string option \<Rightarrow> exc + json option" where
  "load_error err = (case err of
     None \<Rightarrow> Inr None
   | Some s \<Rightarrow>
       if s = '''' then Inr None
       else case json_loads s of
           None \<Rightarrow> Inl (PyError ''JSONDecodeError'')
         | Some (JObj kvs) \<Rightarrow> Inr (Some (JObj kvs))
         | Some JNull \<Rightarrow> Inr None
         | Some _ \<Rightarrow> Inl (PyError ''ValidationError''))"

definition order_authzs :: "string \<Rightarrow> database \<Rightarrow> authz_row list" where
  "order_authzs order_id db = filter (\<lambda>z. z_order_id z = order_id) (authorizations db)"

definition order_resource :: "settings \<Rightarrow> string \<Rightarrow> order_row \<Rightarrow> database \<Rightarrow> exc + order_response" where
  "order_resource cfg order_id order db =
     bindE (load_identifiers (o_identifiers order)) (\<lambda>js.
     bindE (load_identifier_objects js) (\<lambda>identifiers.
     bindE (load_error (o_error order)) (\<lambda>err.
       Inr \<lparr>or_status = o_status order, or_identifiers = identifiers,
            or_authorizations = map (\<lambda>z. authz_url cfg (z_id z)) (order_authzs order_id db),
            or_finalize = order_url cfg order_id @ ''/finalize'',
            or_certificate = (case o_cert_id order of None \<Rightarrow> None
              | Some c \<Rightarrow> if c = '''' then None else Some (relay_base_url cfg @ ''/acme/cert/'' @ c)),
            or_expires = isoformat_utc (o_expires_at order), or_error = err\<rparr>)))"

definition get_order_body :: "settings \<Rightarrow> string \<Rightarrow> request \<Rightarrow> json \<times> string \<Rightarrow> response dbm" where
  "get_order_body cfg order_id req = (\<lambda>(payload, account_id).
     bindM (readM (require_order_owner order_id account_id)) (\<lambda>owned.
     bindM (liftM owned) (\<lambda>order.
     bindM (readM (order_resource cfg order_id order)) (\<lambda>res.
     bindM (liftM res) (\<lambda>body.
       returnM (json_response (order_json body) 200 []))))))"

definition get_order :: "'k libs \<Rightarrow> settings \<Rightarrow> draws \<Rightarrow> string \<Rightarrow> request \<Rightarrow> response dbm" where
  "get_order L cfg D order_id req =
     bindM (verify_jws L cfg (clock D 0) req) (get_order_body cfg order_id req)"

section \<open>Finalizing an order\<close>

text \<open>Background work a route dispatches.\<close>

datatype task =
    RunChallenge string string
  | ProcessFinalize string string string

definition order_not_ready :: "json \<Rightarrow> exc" where
  "order_not_ready status = HTTPException 403 (problem ORDER_NOT_READY
     (''Order status is '' @ py_repr status @ '', expected '' @ repr_str ''ready''))"

record finalize_plan =
  fp_order_id :: string
  fp_domain :: string
  fp_csr_der :: string
  fp_identifiers :: "json list"
  fp_expires_at :: "datetime option"

text \<open>\<open>identifiers[0]["value"]\<close>\<close>

definition first_domain :: "json list \<Rightarrow> exc + string" where
  "first_domain js = (case js of
     [] \<Rightarrow> Inl (HTTPException 400 (JStr ''Order has no identifiers''))
   | JObj kvs # _ \<Rightarrow> (case map_of kvs ''value'' of
         None \<Rightarrow> Inl (PyError ''KeyError'')
       | Some (JStr v) \<Rightarrow> Inr v
       | Some _ \<Rightarrow> Inl (PyError ''TypeError''))
   | _ \<Rightarrow> Inl (PyError ''TypeError''))"

definition finalize_prepare ::
  "'k libs \<Rightarrow> string \<Rightarrow> json \<Rightarrow> string \<Rightarrow> database \<Rightarrow> exc + finalize_plan" where
  "finalize_prepare L order_id payload account_id db =
     bindE (of_option (PyError ''ValidationError'') (validate_finalize L payload)) (\<lambda>csr.
     bindE (require_order_owner order_id account_id db) (\<lambda>order.
     if o_status order \<noteq> ''ready'' then Inl (order_not_ready (JStr (o_status order)))
     else bindE (b64_of_json (JStr csr)) (\<lambda>csr_der.
     bindE (load_identifiers (o_identifiers order)) (\<lambda>identifiers.
     bindE (first_domain identifiers) (\<lambda>domain.
       Inr \<lparr>fp_order_id = order_id, fp_domain = domain, fp_csr_der = csr_der,
            fp_identifiers = identifiers, fp_expires_at = o_expires_at order\<rparr>)))))"

text \<open>\<open>UPDATE orders SET status = 'processing' WHERE id = ... AND status = 'ready'\<close>, with its row count.\<close>

definition claim_order :: "string \<Rightarrow> nat dbm" where
  "claim_order order_id = (\<lambda>db.
     let P = (\<lambda>r. o_id r = order_id \<and> o_status r = ''ready'')
     in (Inr (tcount P (orders db)),
         db\<lparr>orders := tupdate P (\<lambda>r. r\<lparr>o_status := ''processing''\<rparr>) (orders db)\<rparr>))"

text \<open>
  The claim and the dispatch.  The worker task exists from the dispatch on, also when building the
  response fails afterwards, so the outcome of the response is a component beside the tasks.
\<close>

type_synonym reply = "(exc + response) \<times> task list"

definition finalize_response :: "settings \<Rightarrow> finalize_plan \<Rightarrow> database \<Rightarrow> exc + response" where
  "finalize_response cfg plan db =
     bindE (load_identifier_objects (fp_identifiers plan)) (\<lambda>identifiers.
       Inr (json_response
         (order_json \<lparr>or_status = ''processing'', or_identifiers = identifiers,
            or_authorizations = map (\<lambda>z. authz_url cfg (z_id z)) (order_authzs (fp_order_id plan) db),
            or_finalize = order_url cfg (fp_order_id plan) @ ''/finalize'',
            or_certificate = None, or_expires = isoformat_utc (fp_expires_at plan), or_error = None\<rparr>)
         200 []))"

definition finalize_commit :: "settings \<Rightarrow> finalize_plan \<Rightarrow> reply dbm" where
  "finalize_commit cfg plan =
     bindM (claim_order (fp_order_id plan)) (\<lambda>rowcount.
       if rowcount = 0
       then bindM (readM (get_order_row (fp_order_id plan))) (\<lambda>current.
              throwM (order_not_ready (case current of None \<Rightarrow> JNull | Some r \<Rightarrow> JStr (o_status r))))
       else bindM (readM (finalize_response cfg plan)) (\<lambda>result.
              returnM (result, [ProcessFinalize (fp_order_id plan) (fp_domain plan) (fp_csr_der plan)])))"

definition finalize_order_body ::
  "'k libs \<Rightarrow> settings \<Rightarrow> string \<Rightarrow> request \<Rightarrow> json \<times> string \<Rightarrow> reply dbm" where
  "finalize_order_body L cfg order_id req = (\<lambda>(payload, account_id).
     bindM (readM (finalize_prepare L order_id payload account_id)) (\<lambda>prepared.
     bindM (liftM prepared) (finalize_commit cfg)))"

definition finalize_order ::
  "'k libs \<Rightarrow> settings \<Rightarrow> draws \<Rightarrow> string \<Rightarrow> request \<Rightarrow> reply dbm" where
  "finalize_order L cfg D order_id req =
     bindM (verify_jws L cfg (clock D 0) req) (finalize_order_body L cfg order_id req)"

section \<open>The checks of new-order\<close>

lemma validate_identifiers_Inr:
  "validate_identifiers ids = Inr u \<longleftrightarrow>
     (\<exists>i. ids = [i] \<and> id_type i = ''dns'' \<and> strip (id_value i) \<noteq> [])"
  by (cases ids) (auto simp: validate_identifiers_def split: if_splits list.splits)

lemma under_base_iff: "under_base v base \<longleftrightarrow> v = base \<or> (\<exists>u. v = u @ ''.'' @ base)"
  by (auto simp: under_base_def endswith_iff)

lemma check_domain_policy_Inr:
  "check_domain_policy allowed ids = Inr u \<longleftrightarrow>
     allowed = [] \<or> (\<forall>i \<in> set ids. \<exists>base \<in> set allowed. under_base (id_value i) base)"
  by (induction allowed ids rule: check_domain_policy.induct) (auto simp: list_ex_iff split: if_splits)

lemma check_order_rate_limit_Inr:
  "check_order_rate_limit cfg now acct db = Inr u \<longleftrightarrow>
     order_rate_limit cfg \<le> 0 \<or>
     int (recent_orders acct (rate_window_start cfg now) (orders db)) < order_rate_limit cfg"
  by (auto simp: check_order_rate_limit_def Let_def)

lemma load_identifier_objects_json [simp]:
  "load_identifier_objects (map identifier_json ids) = Inr ids"
  by (induction ids) simp_all

section \<open>The effect of new-order\<close>

lemma commit_order_Inr:
  "commit_order ord zs db = (Inr u, db') \<longleftrightarrow>
     o_id ord \<notin> set (map o_id (orders db)) \<and>
     tinsert_all z_id zs (authorizations db) = Some (authorizations db @ zs) \<and>
     db' = db\<lparr>orders := orders db @ [ord], authorizations := authorizations db @ zs\<rparr>"
  by (auto simp: commit_order_def tinsert_def split: option.splits dest: tinsert_all_eq_Some)

lemma commit_order_Inl: "commit_order ord zs db = (Inl e, db') \<Longrightarrow> db' = db \<and> e = PyError ''IntegrityError''"
  by (auto simp: commit_order_def split: option.splits)

definition order_accepted ::
  "'k libs \<Rightarrow> settings \<Rightarrow> draws \<Rightarrow> json \<Rightarrow> string \<Rightarrow> database \<Rightarrow> acme_identifier \<Rightarrow> bool" where
  "order_accepted L cfg D payload acct db i \<longleftrightarrow>
     validate_new_order L payload = Some [i] \<and> id_type i = ''dns'' \<and> strip (id_value i) \<noteq> [] \<and>
     (allowed_domain_list cfg = [] \<or> (\<exists>base \<in> set (allowed_domain_list cfg). under_base (id_value i) base)) \<and>
     (order_rate_limit cfg \<le> 0 \<or>
      int (recent_orders acct (rate_window_start cfg (clock D 1)) (orders db)) < order_rate_limit cfg) \<and>
     uuid4 D 0 \<notin> set (map o_id (orders db)) \<and> uuid4 D 1 \<notin> set (map z_id (authorizations db))"

definition with_order :: "draws \<Rightarrow> string \<Rightarrow> acme_identifier \<Rightarrow> database \<Rightarrow> database" where
  "with_order D acct i db =
     db\<lparr>orders := orders db @ [new_order_row D acct [i]],
        authorizations := authorizations db @ [new_authz_row D 0 i]\<rparr>"

definition new_order_response :: "settings \<Rightarrow> draws \<Rightarrow> acme_identifier \<Rightarrow> response" where
  "new_order_response cfg D i = json_response
     (order_json \<lparr>or_status = ''pending'', or_identifiers = [i],
        or_authorizations = [authz_url cfg (uuid4 D 1)],
        or_finalize = order_url cfg (uuid4 D 0) @ ''/finalize'', or_certificate = None,
        or_expires = isoformat_utc (Some (clock D 2 + days 1)), or_error = None\<rparr>)
     201 [(''Location'', order_url cfg (uuid4 D 0))]"

lemma new_order_row_sel [simp]:
  "o_id (new_order_row D a is) = uuid4 D 0" "o_account_id (new_order_row D a is) = a"
  "o_status (new_order_row D a is) = ''pending''" "o_cert_id (new_order_row D a is) = None"
  "o_identifiers (new_order_row D a is) = dump_identifiers is"
  "o_expires_at (new_order_row D a is) = Some (clock D 2 + days 1)"
  "o_created_at (new_order_row D a is) = clock D 3" "o_error (new_order_row D a is) = None"
  by (simp_all add: new_order_row_def)

lemma new_authz_row_sel [simp]:
  "z_id (new_authz_row D n i) = uuid4 D (Suc n)" "z_order_id (new_authz_row D n i) = uuid4 D 0"
  "z_identifier (new_authz_row D n i) = id_value i" "z_status (new_authz_row D n i) = ''pending''"
  "z_challenge_token (new_authz_row D n i) = Some (token D n)" "z_error (new_authz_row D n i) = None"
  by (simp_all add: new_authz_row_def)

lemma new_authz_rows_single: "new_authz_rows D [i] = [new_authz_row D 0 i]"
  by (simp add: new_authz_rows_def)

lemma new_order_body_Inr:
  "new_order_body L cfg D req (payload, acct) db = (Inr r, db') \<longleftrightarrow>
     (\<exists>i. order_accepted L cfg D payload acct db i \<and> db' = with_order D acct i db \<and>
          r = new_order_response cfg D i)"
  by (auto simp: new_order_body_def bindM_eq_Inr_iff validate_identifiers_Inr check_domain_policy_Inr
      check_order_rate_limit_Inr commit_order_Inr new_authz_rows_single tinsert_eq_Some_iff
      order_accepted_def with_order_def new_order_response_def Let_def split: option.splits)

lemma new_order_body_Inl: "new_order_body L cfg D req pa db = (Inl e, db') \<Longrightarrow> db' = db"
  by (auto simp: new_order_body_def bindM_eq_Inl_iff Let_def dest: commit_order_Inl split: prod.splits)

lemma new_order_body_db:
  assumes "new_order_body L cfg D req (payload, acct) db = (r, db')"
  shows "db' = db \<or> (\<exists>i. order_accepted L cfg D payload acct db i \<and> db' = with_order D acct i db)"
proof (cases r)
  case (Inl e)
  with assms new_order_body_Inl [of L cfg D req "(payload, acct)" db e db'] show ?thesis by simp
next
  case (Inr x)
  with assms show ?thesis by (auto simp: new_order_body_Inr)
qed

section \<open>Reading and finalizing\<close>

lemma get_order_body_pure: "pure_comp (get_order_body cfg i req pa)"
  by (cases pa) (auto simp: get_order_body_def intro!: pure_comp_bindM)

lemma get_order_body_Inr:
  "get_order_body cfg i req (payload, acct) db = (Inr r, db') \<longleftrightarrow>
     db' = db \<and> (\<exists>ord res. get_order_row i db = Some ord \<and> o_account_id ord = acct \<and>
       order_resource cfg i ord db = Inr res \<and> r = json_response (order_json res) 200 [])"
  by (auto simp: get_order_body_def bindM_eq_Inr_iff require_order_owner_Inr)

lemma claim_order_db:
  "snd (claim_order i db) = db\<lparr>orders := tupdate (\<lambda>r. o_id r = i \<and> o_status r = ''ready'')
     (\<lambda>r. r\<lparr>o_status := ''processing''\<rparr>) (orders db)\<rparr>"
  by (simp add: claim_order_def Let_def)

lemma claim_order_0: "claim_order i db = (Inr 0, db') \<Longrightarrow> db' = db"
  by (auto simp: claim_order_def Let_def tupdate_none)

lemma claim_order_count:
  "claim_order i db = (Inr n, db') \<Longrightarrow> (0 < n \<longleftrightarrow> (\<exists>r \<in> set (orders db). o_id r = i \<and> o_status r = ''ready''))"
  by (auto simp: claim_order_def Let_def tcount_pos_iff)

lemma claim_order_single:
  assumes "distinct (map o_id (orders db))" "claim_order i db = (Inr n, db')"
  shows "n \<le> 1"
proof -
  have "filter (\<lambda>r. o_id r = i \<and> o_status r = ''ready'') (orders db) =
      filter (\<lambda>r. o_status r = ''ready'') (filter (\<lambda>r. o_id r = i) (orders db))"
    by (simp add: conj_commute)
  then have "n = length (filter (\<lambda>r. o_status r = ''ready'') (filter (\<lambda>r. o_id r = i) (orders db)))"
    using assms(2) by (simp add: claim_order_def Let_def tcount_def)
  with filter_unique_key [OF assms(1), of i] show ?thesis by (auto split: option.splits)
qed

lemma claim_order_twice: "claim_order i (snd (claim_order i db)) = (Inr 0, snd (claim_order i db))"
proof -
  define P :: "order_row \<Rightarrow> bool" where "P = (\<lambda>r. o_id r = i \<and> o_status r = ''ready'')"
  define rs where "rs = tupdate P (\<lambda>r. r\<lparr>o_status := ''processing''\<rparr>) (orders db)"
  have "tcount P rs = 0" by (auto simp: rs_def P_def tcount_def tupdate_def filter_empty_conv)
  then have "claim_order i (db\<lparr>orders := rs\<rparr>) = (Inr 0, db\<lparr>orders := rs\<rparr>)"
    by (simp add: claim_order_def Let_def P_def [symmetric] tupdate_none)
  then show ?thesis by (simp add: claim_order_db rs_def P_def)
qed

lemma finalize_prepare_Inr:
  assumes "finalize_prepare L i payload acct db = Inr plan"
  obtains ord csr where "get_order_row i db = Some ord" "o_account_id ord = acct" "o_status ord = ''ready''"
    "validate_finalize L payload = Some csr" "b64url_decode csr = Some (fp_csr_der plan)"
    "fp_order_id plan = i" "load_identifiers (o_identifiers ord) = Inr (fp_identifiers plan)"
    "first_domain (fp_identifiers plan) = Inr (fp_domain plan)"
  using assms
  by (auto simp: finalize_prepare_def bindE_eq_Inr_iff require_order_owner_Inr b64_of_json_def split: if_splits)

lemma finalize_commit_Inr:
  "finalize_commit cfg plan db = (Inr (res, ts), db') \<longleftrightarrow>
     (\<exists>r \<in> set (orders db). o_id r = fp_order_id plan \<and> o_status r = ''ready'') \<and>
     db' = snd (claim_order (fp_order_id plan) db) \<and> res = finalize_response cfg plan db' \<and>
     ts = [ProcessFinalize (fp_order_id plan) (fp_domain plan) (fp_csr_der plan)]"
proof -
  obtain n db1 where n: "claim_order (fp_order_id plan) db = (Inr n, db1)"
    by (simp add: claim_order_def Let_def)
  from claim_order_count [OF n] show ?thesis
    by (cases "n = 0") (auto simp: finalize_commit_def bindM_apply n)
qed

lemma finalize_commit_Inl:
  "finalize_commit cfg plan db = (Inl e, db') \<Longrightarrow> db' = db \<and> (\<exists>st. e = order_not_ready st)"
  by (auto simp: finalize_commit_def bindM_eq_Inl_iff bindM_eq_Inr_iff claim_order_def Let_def
      tupdate_none split: if_splits)

lemma finalize_order_body_Inr:
  "finalize_order_body L cfg i req (payload, acct) db = (Inr rep, db') \<longleftrightarrow>
     (\<exists>plan. finalize_prepare L i payload acct db = Inr plan \<and> finalize_commit cfg plan db = (Inr rep, db'))"
  by (auto simp: finalize_order_body_def bindM_eq_Inr_iff)

lemma finalize_order_body_Inl:
  "finalize_order_body L cfg i req pa db = (Inl e, db') \<Longrightarrow> db' = db"
  by (cases pa) (auto simp: finalize_order_body_def bindM_eq_Inl_iff dest: finalize_commit_Inl)

lemma finalize_order_body_db:
  assumes "finalize_order_body L cfg i req (payload, acct) db = (r, db')"
  shows "db' = db \<or> db' = snd (claim_order i db)"
proof (cases r)
  case (Inl e)
  with assms finalize_order_body_Inl show ?thesis by blast
next
  case (Inr rep)
  with assms obtain plan where p: "finalize_prepare L i payload acct db = Inr plan"
    "finalize_commit cfg plan db = (Inr rep, db')" by (auto simp: finalize_order_body_Inr)
  have "fp_order_id plan = i" using p(1) by (rule finalize_prepare_Inr)
  with p(2) show ?thesis by (cases rep) (auto simp: finalize_commit_Inr)
qed

text \<open>The three bodies leave the nonce table alone: the contract of authenticated routes.\<close>

interpretation new_order_route: authenticated_route "new_order_body L cfg D" for L cfg D
proof
  fix req pa db
  obtain payload acct r db' where "pa = (payload, acct)" "new_order_body L cfg D req pa db = (r, db')"
    by (metis surj_pair)
  then show "nonces (snd (new_order_body L cfg D req pa db)) = nonces db"
    using new_order_body_db [of L cfg D req payload acct db r db'] by (auto simp: with_order_def)
qed

interpretation get_order_route: authenticated_route "get_order_body cfg i" for cfg i
  by unfold_locales (metis get_order_body_pure pure_comp_def)

interpretation finalize_route: authenticated_route "finalize_order_body L cfg i" for L cfg i
proof
  fix req pa db
  obtain payload acct r db' where "pa = (payload, acct)" "finalize_order_body L cfg i req pa db = (r, db')"
    by (metis surj_pair)
  then show "nonces (snd (finalize_order_body L cfg i req pa db)) = nonces db"
    using finalize_order_body_db [of L cfg i req payload acct db r db'] by (auto simp: claim_order_db)
qed

section \<open>new-order, cut where it awaits\<close>

text \<open>The count of the recent orders and the commit are two transactions.\<close>

definition new_order_prepare ::
  "'k libs \<Rightarrow> settings \<Rightarrow> datetime \<Rightarrow> json \<Rightarrow> string \<Rightarrow> database \<Rightarrow> exc + acme_identifier list" where
  "new_order_prepare L cfg now payload account_id db =
     bindE (of_option (PyError ''ValidationError'') (validate_new_order L payload)) (\<lambda>identifiers.
     bindE (validate_identifiers identifiers) (\<lambda>_.
     bindE (check_domain_policy (allowed_domain_list cfg) identifiers) (\<lambda>_.
     bindE (check_order_rate_limit cfg now account_id db) (\<lambda>_. Inr identifiers))))"

definition new_order_commit :: "settings \<Rightarrow> draws \<Rightarrow> string \<Rightarrow> acme_identifier list \<Rightarrow> response dbm" where
  "new_order_commit cfg D account_id identifiers =
     (let order = new_order_row D account_id identifiers;
          authzs = new_authz_rows D identifiers
      in bindM (commit_order order authzs) (\<lambda>_.
         returnM (json_response
           (order_json \<lparr>or_status = ''pending'', or_identifiers = identifiers,
              or_authorizations = map (\<lambda>z. authz_url cfg (z_id z)) authzs,
              or_finalize = order_url cfg (uuid4 D 0) @ ''/finalize'',
              or_certificate = None, or_expires = isoformat_utc (o_expires_at order), or_error = None\<rparr>)
           201 [(''Location'', order_url cfg (uuid4 D 0))])))"

lemma new_order_body_split:
  "new_order_body L cfg D req (payload, acct) =
     bindM (readM (new_order_prepare L cfg (clock D 1) payload acct)) (\<lambda>prepared.
     bindM (liftM prepared) (new_order_commit cfg D acct))"
proof
  fix db
  show "new_order_body L cfg D req (payload, acct) db =
      bindM (readM (new_order_prepare L cfg (clock D 1) payload acct)) (\<lambda>prepared.
      bindM (liftM prepared) (new_order_commit cfg D acct)) db"
    by (auto simp: new_order_body_def new_order_prepare_def new_order_commit_def bindM_apply bindE_def Let_def
        split: option.splits sum.splits)
qed

lemma new_order_prepare_Inr:
  assumes "new_order_prepare L cfg now payload acct db = Inr ids"
  obtains i where "ids = [i]" "id_type i = ''dns''" "strip (id_value i) \<noteq> []"
    "allowed_domain_list cfg = [] \<or> (\<exists>base \<in> set (allowed_domain_list cfg). under_base (id_value i) base)"
    "check_order_rate_limit cfg now acct db = Inr ()"
  using assms by (auto simp: new_order_prepare_def bindE_eq_Inr_iff validate_identifiers_Inr check_domain_policy_Inr)

lemma new_order_commit_db:
  assumes "new_order_commit cfg D acct [i] db = (r, db')"
  shows "db' = db \<or> (uuid4 D 0 \<notin> set (map o_id (orders db)) \<and> uuid4 D 1 \<notin> set (map z_id (authorizations db)) \<and>
    db' = with_order D acct i db)"
proof (cases "commit_order (new_order_row D acct [i]) (new_authz_rows D [i]) db")
  case (Pair x d)
  then show ?thesis using assms
    by (cases x) (auto simp: new_order_commit_def Let_def commit_order_Inr new_authz_rows_single tinsert_eq_Some_iff
        with_order_def dest: commit_order_Inl split: option.splits)
qed

text \<open>
  Two requests that both counted before either committed exceed the limit together.
\<close>

lemma new_order_commit_fresh:
  assumes "uuid4 D 0 \<notin> set (map o_id (orders db))" "uuid4 D 1 \<notin> set (map z_id (authorizations db))"
  shows "\<exists>r. new_order_commit cfg D acct [i] db = (Inr r, with_order D acct i db)"
proof -
  have "commit_order (new_order_row D acct [i]) (new_authz_rows D [i]) db = (Inr (), with_order D acct i db)"
    using assms by (simp add: commit_order_Inr new_authz_rows_single tinsert_def with_order_def)
  then show ?thesis by (simp add: new_order_commit_def Let_def)
qed

lemma concurrent_orders_exceed_limit:
  assumes "new_order_prepare L cfg now payload acct db = Inr [i]" "new_order_prepare L cfg now payload' acct db = Inr [i']"
    "int (recent_orders acct (rate_window_start cfg now) (orders db)) = order_rate_limit cfg - 1"
    "uuid4 D 0 \<notin> set (map o_id (orders db))" "uuid4 D 1 \<notin> set (map z_id (authorizations db))"
    "uuid4 D' 0 \<notin> set (map o_id (orders db))" "uuid4 D' 1 \<notin> set (map z_id (authorizations db))"
    "uuid4 D 0 \<noteq> uuid4 D' 0" "uuid4 D 1 \<noteq> uuid4 D' 1"
    "clock D 3 \<ge> rate_window_start cfg now" "clock D' 3 \<ge> rate_window_start cfg now"
  shows "\<exists>r r' db1 db2. new_order_commit cfg D acct [i] db = (Inr r, db1) \<and> new_order_commit cfg D' acct [i'] db1 = (Inr r', db2) \<and>
    order_rate_limit cfg < int (recent_orders acct (rate_window_start cfg now) (orders db2))"
proof -
  let ?db1 = "with_order D acct i db" and ?db2 = "with_order D' acct i' (with_order D acct i db)"
  obtain r where "new_order_commit cfg D acct [i] db = (Inr r, ?db1)" using new_order_commit_fresh [OF assms(4,5)] by blast
  moreover have "uuid4 D' 0 \<notin> set (map o_id (orders ?db1))" "uuid4 D' 1 \<notin> set (map z_id (authorizations ?db1))"
    using assms(6-9) by (auto simp: with_order_def)
  then obtain r' where "new_order_commit cfg D' acct [i'] ?db1 = (Inr r', ?db2)" using new_order_commit_fresh by blast
  moreover have "recent_orders acct (rate_window_start cfg now) (orders ?db2) =
      Suc (Suc (recent_orders acct (rate_window_start cfg now) (orders db)))"
    using assms(10,11) by (simp add: recent_orders_def with_order_def tcount_def)
  ultimately show ?thesis using assms(3) by auto
qed

section \<open>From creation to the next request\<close>

lemma get_after_new_order:
  assumes "order_accepted L cfg D payload acct db i" "\<forall>z \<in> set (authorizations db). z_order_id z \<in> set (map o_id (orders db))"
  shows "get_order_body cfg (uuid4 D 0) req (p, acct) (with_order D acct i db) =
    (Inr (json_response (order_json \<lparr>or_status = ''pending'', or_identifiers = [i],
        or_authorizations = [authz_url cfg (uuid4 D 1)],
        or_finalize = order_url cfg (uuid4 D 0) @ ''/finalize'', or_certificate = None,
        or_expires = isoformat_utc (Some (clock D 2 + days 1)), or_error = None\<rparr>) 200 []),
     with_order D acct i db)"
proof -
  have fresh: "uuid4 D 0 \<notin> set (map o_id (orders db))" using assms(1) by (simp add: order_accepted_def)
  then have none: "tget o_id (uuid4 D 0) (orders db) = None" by (simp add: tget_None_iff)
  have row: "get_order_row (uuid4 D 0) (with_order D acct i db) = Some (new_order_row D acct [i])"
    by (simp add: get_order_row_def with_order_def tget_append none tget_Cons)
  have "filter (\<lambda>z. z_order_id z = uuid4 D 0) (authorizations db) = []"
    using assms(2) fresh by (simp add: filter_empty_conv) metis
  then have az: "order_authzs (uuid4 D 0) (with_order D acct i db) = [new_authz_row D 0 i]"
    by (simp add: order_authzs_def with_order_def)
  have "order_resource cfg (uuid4 D 0) (new_order_row D acct [i]) (with_order D acct i db) =
      Inr \<lparr>or_status = ''pending'', or_identifiers = [i],
        or_authorizations = [authz_url cfg (uuid4 D 1)],
        or_finalize = order_url cfg (uuid4 D 0) @ ''/finalize'', or_certificate = None,
        or_expires = isoformat_utc (Some (clock D 2 + days 1)), or_error = None\<rparr>"
    by (simp add: order_resource_def load_error_def az)
  with row show ?thesis
    unfolding get_order_body_Inr by (intro conjI refl exI [of _ "new_order_row D acct [i]"] exI) auto
qed

lemma recent_orders_with_order:
  "recent_orders acct w (orders (with_order D acct i db)) \<le> Suc (recent_orders acct w (orders db))"
  by (simp add: recent_orders_def with_order_def tcount_def)

text \<open>A new order that nothing interrupts never leaves an account above the limit.\<close>

lemma rate_limit_respected:
  assumes "new_order_body L cfg D req (payload, acct) db = (Inr r, db')" "0 < order_rate_limit cfg"
  shows "int (recent_orders acct (rate_window_start cfg (clock D 1)) (orders db')) \<le> order_rate_limit cfg"
proof -
  obtain i where i: "order_accepted L cfg D payload acct db i" "db' = with_order D acct i db"
    using assms(1) by (auto simp: new_order_body_Inr)
  from i(1) assms(2) have "int (recent_orders acct (rate_window_start cfg (clock D 1)) (orders db)) < order_rate_limit cfg"
    by (auto simp: order_accepted_def)
  with recent_orders_with_order [of acct "rate_window_start cfg (clock D 1)" D i db] show ?thesis
    unfolding i(2) by linarith
qed

end
