(* ===== verification/Challenges.thy ===== *)
theory Challenges
  imports Orders
begin

text \<open>
  The authorization routes: acknowledging a challenge (\<^verbatim>\<open>routes/challenge.py\<close>) and
  reading an authorization (\<^verbatim>\<open>routes/authz.py\<close>).  Acknowledging is split where the
  source awaits the commit: \<open>ack_prepare\<close> holds the rows as the session loaded them, and
  \<open>ack_commit\<close> writes the statuses decided from those rows and dispatches the validation task.
\<close>

section \<open>Acknowledging a challenge\<close>

record ack_plan =
  ap_authz_id :: string
  ap_order_id :: string
  ap_authz_pending :: bool
  ap_order_pending :: bool
  ap_token :: string

definition authz_already :: "string \<Rightarrow> exc" where
  "authz_already status = HTTPException 400 (JStr (''Authorization is already '' @ repr_str status))"

definition ack_prepare :: "string \<Rightarrow> string \<Rightarrow> database \<Rightarrow> exc + ack_plan" where
  "ack_prepare authz_id account_id db =
     bindE (require_authz_owner authz_id account_id db) (\<lambda>authz.
       if z_status authz \<noteq> ''pending'' \<and> z_status authz \<noteq> ''processing''
       then Inl (authz_already (z_status authz))
       else Inr \<lparr>ap_authz_id = authz_id, ap_order_id = z_order_id authz,
                 ap_authz_pending = (z_status authz = ''pending''),
                 ap_order_pending = (case get_order_row (z_order_id authz) db of
                    None \<Rightarrow> False | Some order \<Rightarrow> o_status order = ''pending''),
                 ap_token = (case z_challenge_token authz of None \<Rightarrow> '''' | Some t \<Rightarrow> t)\<rparr>)"

definition ack_update :: "ack_plan \<Rightarrow> database \<Rightarrow> database" where
  "ack_update plan db =
     (if ap_authz_pending plan
      then let db1 = update_authz (ap_authz_id plan) (\<lambda>r. r\<lparr>z_status := ''processing''\<rparr>) db
           in if ap_order_pending plan
              then update_order (ap_order_id plan) (\<lambda>r. r\<lparr>o_status := ''processing''\<rparr>) db1
              else db1
      else db)"

definition challenge_url :: "settings \<Rightarrow> string \<Rightarrow> string" where
  "challenge_url cfg i = relay_base_url cfg @ ''/acme/challenge/'' @ i"

definition up_link :: "string \<Rightarrow> string" where
  "up_link url = ''<'' @ url @ ''>;rel='' @ [CHR 0x22] @ ''up'' @ [CHR 0x22]"

definition ack_response :: "settings \<Rightarrow> ack_plan \<Rightarrow> response" where
  "ack_response cfg plan =
     json_response
       (challenge_json \<lparr>ch_type = ''http-01'', ch_url = challenge_url cfg (ap_authz_id plan),
          ch_status = ''processing'', ch_token = ap_token plan, ch_error = None\<rparr>)
       200 [(''Link'', up_link (authz_url cfg (ap_authz_id plan)))]"

definition ack_commit :: "settings \<Rightarrow> ack_plan \<Rightarrow> reply dbm" where
  "ack_commit cfg plan =
     bindM (writeM (ack_update plan)) (\<lambda>_.
       returnM (Inr (ack_response cfg plan), [RunChallenge (ap_authz_id plan) (ap_order_id plan)]))"

definition acknowledge_challenge_body ::
  "settings \<Rightarrow> string \<Rightarrow> request \<Rightarrow> json \<times> string \<Rightarrow> reply dbm" where
  "acknowledge_challenge_body cfg authz_id req = (\<lambda>(_, account_id).
     bindM (readM (ack_prepare authz_id account_id)) (\<lambda>prepared.
     bindM (liftM prepared) (ack_commit cfg)))"

definition acknowledge_challenge ::
  "'k libs \<Rightarrow> settings \<Rightarrow> draws \<Rightarrow> string \<Rightarrow> request \<Rightarrow> reply dbm" where
  "acknowledge_challenge L cfg D authz_id req =
     bindM (verify_jws L cfg (clock D 0) req) (acknowledge_challenge_body cfg authz_id req)"

section \<open>Reading an authorization\<close>

definition authz_resource :: "settings \<Rightarrow> string \<Rightarrow> authz_row \<Rightarrow> exc + authz_response" where
  "authz_resource cfg authz_id authz =
     bindE (load_error (z_error authz)) (\<lambda>err.
       Inr \<lparr>zr_status = (if z_status authz = ''processing'' then ''pending'' else z_status authz),
            zr_identifier = \<lparr>id_type = ''dns'', id_value = z_identifier authz\<rparr>,
            zr_challenges = [\<lparr>ch_type = ''http-01'', ch_url = challenge_url cfg authz_id,
              ch_status = z_status authz,
              ch_token = (case z_challenge_token authz of None \<Rightarrow> '''' | Some t \<Rightarrow> t),
              ch_error = err\<rparr>]\<rparr>)"

definition get_authz_body :: "settings \<Rightarrow> string \<Rightarrow> request \<Rightarrow> json \<times> string \<Rightarrow> response dbm" where
  "get_authz_body cfg authz_id req = (\<lambda>(_, account_id).
     bindM (readM (require_authz_owner authz_id account_id)) (\<lambda>owned.
     bindM (liftM owned) (\<lambda>authz.
     bindM (liftM (authz_resource cfg authz_id authz)) (\<lambda>body.
       returnM (json_response (authz_json body) 200
         [(''Link'', up_link (order_url cfg (z_order_id authz)))])))))"

definition get_authz :: "'k libs \<Rightarrow> settings \<Rightarrow> draws \<Rightarrow> string \<Rightarrow> request \<Rightarrow> response dbm" where
  "get_authz L cfg D authz_id req =
     bindM (verify_jws L cfg (clock D 0) req) (get_authz_body cfg authz_id req)"

section \<open>Facts\<close>

lemma ack_prepare_Inr:
  assumes "ack_prepare i acct db = Inr plan"
  obtains z ord where "get_authz_row i db = Some z" "get_order_row (z_order_id z) db = Some ord"
    "o_account_id ord = acct" "z_status z = ''pending'' \<or> z_status z = ''processing''"
    "ap_authz_id plan = i" "ap_order_id plan = z_order_id z"
    "ap_authz_pending plan \<longleftrightarrow> z_status z = ''pending''"
    "ap_order_pending plan \<longleftrightarrow> o_status ord = ''pending''"
  using assms
  by (auto simp: ack_prepare_def bindE_eq_Inr_iff require_authz_owner_Inr split: if_splits)

lemma ack_update_simps [simp]:
  "accounts (ack_update plan db) = accounts db" "certificates (ack_update plan db) = certificates db"
  "nonces (ack_update plan db) = nonces db"
  by (simp_all add: ack_update_def Let_def)

lemma ack_commit_Inr:
  "ack_commit cfg plan db = (r, db') \<longleftrightarrow>
     db' = ack_update plan db \<and>
     r = Inr (Inr (ack_response cfg plan), [RunChallenge (ap_authz_id plan) (ap_order_id plan)])"
  by (auto simp: ack_commit_def)

lemma acknowledge_challenge_body_cases:
  "acknowledge_challenge_body cfg i req (payload, acct) db =
     (case ack_prepare i acct db of
        Inl e \<Rightarrow> (Inl e, db)
      | Inr plan \<Rightarrow> (Inr (Inr (ack_response cfg plan), [RunChallenge (ap_authz_id plan) (ap_order_id plan)]),
          ack_update plan db))"
  by (auto simp: acknowledge_challenge_body_def bindM_apply ack_commit_Inr split: sum.splits)

lemma get_authz_body_Inr:
  "get_authz_body cfg i req (payload, acct) db = (Inr r, db') \<longleftrightarrow>
     db' = db \<and> (\<exists>z ord res. get_authz_row i db = Some z \<and> get_order_row (z_order_id z) db = Some ord \<and>
       o_account_id ord = acct \<and> authz_resource cfg i z = Inr res \<and>
       r = json_response (authz_json res) 200 [(''Link'', up_link (order_url cfg (z_order_id z)))])"
  by (auto simp: get_authz_body_def bindM_eq_Inr_iff require_authz_owner_Inr)

text \<open>A polling client never sees a status that is not one of an authorization object.\<close>

lemma authz_resource_status:
  "authz_resource cfg i z = Inr res \<Longrightarrow> zr_status res \<noteq> ''processing''"
  by (auto simp: authz_resource_def bindE_eq_Inr_iff split: if_splits)

interpretation ack_route: authenticated_route "acknowledge_challenge_body cfg i" for cfg i
proof
  fix req pa db
  show "nonces (snd (acknowledge_challenge_body cfg i req pa db)) = nonces db"
    by (cases pa) (simp add: acknowledge_challenge_body_cases split: sum.splits)
qed

lemma get_authz_body_pure: "pure_comp (get_authz_body cfg i req pa)"
  by (cases pa) (auto simp: get_authz_body_def intro!: pure_comp_bindM)

interpretation get_authz_route: authenticated_route "get_authz_body cfg i" for cfg i
  by unfold_locales (metis get_authz_body_pure pure_comp_def)

end
