(* ===== verification/IpAddress.thy ===== *)
theory IpAddress
  imports Prelude "HOL-Library.Word"
begin

unbundle bit_operations_syntax

text \<open>
  The part of Python's \<open>ipaddress\<close> module that \<^verbatim>\<open>services/http01.py\<close> uses: reading
  an address from its text (dotted quads; groups of hexadecimal digits with \<open>::\<close>, an embedded
  dotted quad and a scope), and membership in a network, a comparison under the network mask.
  Addresses are words of 32 and 128 bits.  The lemmas turn the mask test into a range test and
  show that every IPv4 address is read back from its dotted quad.
\<close>

section \<open>Addresses and networks\<close>

datatype ip_addr = IPv4 "32 word" | IPv6 "128 word"

datatype ip_net = IPv4Net "32 word" nat | IPv6Net "128 word" nat

text \<open>\<open>addr in net\<close>: same version, and the same address under the mask.\<close>

fun in_net :: "ip_addr \<Rightarrow> ip_net \<Rightarrow> bool" where
  "in_net (IPv4 a) (IPv4Net base plen) = (a AND NOT (mask (32 - plen)) = base)"
| "in_net (IPv6 a) (IPv6Net base plen) = (a AND NOT (mask (128 - plen)) = base)"
| "in_net _ _ = False"

section \<open>Reading an address\<close>

text \<open>Digits to a number; \<open>None\<close> when a character is no digit of the base.\<close>

fun read_digits :: "nat \<Rightarrow> nat \<Rightarrow> string \<Rightarrow> nat option" where
  "read_digits b acc [] = Some acc"
| "read_digits b acc (c # cs) =
     (case char_digit c of
        None \<Rightarrow> None
      | Some d \<Rightarrow> if d < b then read_digits b (acc * b + d) cs else None)"

definition parse_octet :: "string \<Rightarrow> nat option" where
  "parse_octet s =
     (if s = [] then None
      else if \<not> list_all is_digit s then None
      else if length s > 3 then None
      else if s \<noteq> ''0'' \<and> hd s = CHR ''0'' then None
      else case read_digits 10 0 s of
          None \<Rightarrow> None
        | Some n \<Rightarrow> if n > 255 then None else Some n)"

definition parse_ipv4 :: "string \<Rightarrow> 32 word option" where
  "parse_ipv4 s = (case map parse_octet (split_on CHR ''.'' s) of
     [Some a, Some b, Some c, Some d] \<Rightarrow> Some (of_nat (of_digits 256 [a, b, c, d]))
   | _ \<Rightarrow> None)"

definition parse_hextet :: "string \<Rightarrow> nat option" where
  "parse_hextet s = (if s = [] \<or> length s > 4 then None else read_digits 16 0 s)"

text \<open>The hexadecimal groups left of and right of the gap; no gap means all groups are on the left.\<close>

definition empty_inner :: "string list \<Rightarrow> nat list" where
  "empty_inner parts = filter (\<lambda>i. parts ! i = []) [1..<length parts - 1]"

definition group_layout :: "string list \<Rightarrow> (nat \<times> nat) option" where
  "group_layout parts = (case empty_inner parts of
     [] \<Rightarrow> if length parts \<noteq> 8 \<or> hd parts = [] \<or> last parts = [] then None else Some (8, 0)
   | [skip] \<Rightarrow>
       let hi = (if hd parts = [] then skip - 1 else skip);
           lo = (if last parts = [] then length parts - skip - 2 else length parts - skip - 1)
       in if (hd parts = [] \<and> hi \<noteq> 0) \<or> (last parts = [] \<and> lo \<noteq> 0) \<or> hi + lo > 7 then None
          else Some (hi, lo)
   | _ \<Rightarrow> None)"

definition join_groups :: "string list \<Rightarrow> nat \<times> nat \<Rightarrow> 128 word option" where
  "join_groups parts = (\<lambda>(hi, lo).
     let groups = map parse_hextet (take hi parts) @ replicate (8 - (hi + lo)) (Some 0) @
                  map parse_hextet (drop (length parts - lo) parts)
     in if None \<in> set groups then None else Some (of_nat (of_digits 65536 (map the groups))))"

definition embed_ipv4 :: "string list \<Rightarrow> string list option" where
  "embed_ipv4 parts =
     (if CHR ''.'' \<in> set (last parts)
      then map_option (\<lambda>a. butlast parts @ [nat_str 16 (unat a div 65536), nat_str 16 (unat a mod 65536)])
             (parse_ipv4 (last parts))
      else Some parts)"

definition parse_ipv6_groups :: "string \<Rightarrow> 128 word option" where
  "parse_ipv6_groups s =
     (let parts = split_on CHR '':'' s in
      if length parts < 3 then None
      else case embed_ipv4 parts of
          None \<Rightarrow> None
        | Some parts' \<Rightarrow>
            if length parts' > 9 then None
            else Option.bind (group_layout parts') (join_groups parts'))"

definition parse_ipv6 :: "string \<Rightarrow> 128 word option" where
  "parse_ipv6 s = (case split_on CHR ''%'' s of
     [addr] \<Rightarrow> parse_ipv6_groups addr
   | [addr, scope] \<Rightarrow> if scope = [] then None else parse_ipv6_groups addr
   | _ \<Rightarrow> None)"

text \<open>\<open>ipaddress.ip_address\<close>; \<open>None\<close> is \<open>ValueError\<close>.\<close>

definition ip_address :: "string \<Rightarrow> ip_addr option" where
  "ip_address s =
     (if CHR ''/'' \<in> set s then None
      else case parse_ipv4 s of
          Some a \<Rightarrow> Some (IPv4 a)
        | None \<Rightarrow> map_option IPv6 (parse_ipv6 s))"

section \<open>Membership as a range\<close>

lemma and_not_mask: "a AND NOT (mask n) = push_bit n (drop_bit n (a :: 'a::len word))"
  by (rule bit_word_eqI) (auto simp: bit_simps)

lemma drop_bit_push_drop: "drop_bit n (push_bit n (drop_bit n a)) = drop_bit n (a :: 'a::len word)"
  by (rule bit_word_eqI) (auto simp: bit_simps dest: bit_imp_le_length)

text \<open>Two addresses agree under a mask exactly when they lie in the same aligned block.\<close>

lemma masked_eq_iff:
  fixes a base :: "'a::len word"
  assumes "base AND NOT (mask n) = base"
  shows "a AND NOT (mask n) = base \<longleftrightarrow> unat a div 2 ^ n = unat base div 2 ^ n"
proof -
  have "a AND NOT (mask n) = base \<longleftrightarrow> drop_bit n a = drop_bit n base"
    using assms drop_bit_push_drop [of n a] by (metis and_not_mask)
  also have "\<dots> \<longleftrightarrow> unat (drop_bit n a) = unat (drop_bit n base)"
    by (simp add: word_unat_eq_iff)
  also have "\<dots> \<longleftrightarrow> drop_bit n (unat a) = drop_bit n (unat base)"
    by (simp only: unat_drop_bit_eq)
  finally show ?thesis by (simp add: drop_bit_eq_div)
qed

lemma aligned_base:
  fixes base :: "'a::len word"
  assumes "unat base mod 2 ^ n = 0"
  shows "base AND NOT (mask n) = base"
proof -
  have "unat (take_bit n base) = 0"
    using assms by (simp only: unsigned_take_bit_eq take_bit_eq_mod [of n "unat base"])
  then have "take_bit n base = 0" by (simp add: unat_eq_0)
  then have "\<not> (bit base i \<and> i < n)" for i
    using bit_take_bit_iff [of n base i] by auto
  then show ?thesis by (intro bit_word_eqI) (auto simp: bit_simps)
qed

lemma in_net_v4:
  assumes "unat base mod 2 ^ (32 - plen) = 0"
  shows "in_net (IPv4 a) (IPv4Net base plen) \<longleftrightarrow>
           unat a div 2 ^ (32 - plen) = unat base div 2 ^ (32 - plen)"
  using masked_eq_iff [OF aligned_base [OF assms]] by simp

lemma in_net_v6:
  assumes "unat base mod 2 ^ (128 - plen) = 0"
  shows "in_net (IPv6 a) (IPv6Net base plen) \<longleftrightarrow>
           unat a div 2 ^ (128 - plen) = unat base div 2 ^ (128 - plen)"
  using masked_eq_iff [OF aligned_base [OF assms]] by simp

section \<open>Dotted quads\<close>

definition ipv4_str :: "32 word \<Rightarrow> string" where
  "ipv4_str a = (let n = unat a in
     join ''.'' (map (nat_str 10) [n div 16777216, n div 65536 mod 256, n div 256 mod 256, n mod 256]))"

lemma read_digits_map:
  "\<forall>d \<in> set ds. d < b \<Longrightarrow> b \<le> 16 \<Longrightarrow>
   read_digits b acc (map digit_char ds) = Some (foldl (\<lambda>a d. a * b + d) acc ds)"
  by (induction ds arbitrary: acc) (auto simp: char_digit_digit_char)

lemma read_digits_nat_str: "2 \<le> b \<Longrightarrow> b \<le> 16 \<Longrightarrow> read_digits b 0 (nat_str b n) = Some n"
  using of_digits_nat_digits [of b n] nat_digits_bound [of b _ n]
  by (simp add: nat_str_def read_digits_map of_digits_def)

lemma nat_str_decimal: "list_all is_digit (nat_str 10 n)"
  using nat_digits_bound [of 10 _ n] by (auto simp: nat_str_def list_all_iff is_digit_digit_char)

lemma nat_str_no_lead: "hd (nat_str 10 n) = CHR ''0'' \<Longrightarrow> nat_str 10 n = ''0''"
proof -
  assume h: "hd (nat_str 10 n) = CHR ''0''"
  have lt: "hd (nat_digits 10 n) < 10" using nat_digits_bound [of 10 _ n] by simp
  have "digit_char (hd (nat_digits 10 n)) = digit_char 0"
    using h by (simp add: nat_str_def hd_map digit_char_def char_of_def bit_0)
  with lt have "hd (nat_digits 10 n) = 0"
    using char_digit_digit_char [of "hd (nat_digits 10 n)"] char_digit_digit_char [of 0] by simp
  then have "nat_digits 10 n = [0]" by (simp add: nat_digits_lead)
  then show ?thesis by (simp add: nat_str_def digit_char_def char_of_def bit_0)
qed

lemma nat_str_length: "n < 1000 \<Longrightarrow> length (nat_str 10 n) \<le> 3"
  by (simp add: nat_str_def nat_digits.simps [of 10 n] nat_digits.simps [of 10 "n div 10"]
      nat_digits.simps [of 10 "n div 10 div 10"])

lemma parse_octet_nat_str: "n < 256 \<Longrightarrow> parse_octet (nat_str 10 n) = Some n"
  using nat_str_decimal [of n] nat_str_no_lead [of n] nat_str_length [of n]
  by (auto simp: parse_octet_def read_digits_nat_str)

lemma no_dot_nat_str: "CHR ''.'' \<notin> set (nat_str 10 n)"
  using nat_str_decimal [of n] by (auto simp: list_all_iff is_digit_def)

lemma quad_value:
  fixes n :: nat
  shows "of_digits 256 [n div 16777216, n div 65536 mod 256, n div 256 mod 256, n mod 256] = n"
proof -
  have d: "n div 65536 = n div 256 div 256" "n div 16777216 = n div 256 div 256 div 256"
    by (simp_all add: div_mult2_eq [symmetric])
  have e: "m div 256 * 256 + m mod 256 = m" for m :: nat by (rule div_mult_mod_eq)
  show ?thesis
    unfolding of_digits_def d
    by (simp only: foldl.simps mult_0 add_0 e)
qed

lemma parse_ipv4_str: "parse_ipv4 (ipv4_str a) = Some a"
proof -
  let ?n = "unat a"
  let ?ds = "[?n div 16777216, ?n div 65536 mod 256, ?n div 256 mod 256, ?n mod 256]"
  have "?n < 4294967296" using unsigned_less [of a] by simp
  then have hi: "?n div 16777216 < 256" by (intro less_mult_imp_div_less) simp
  have "split_on CHR ''.'' (ipv4_str a) = map (nat_str 10) ?ds"
    by (simp add: ipv4_str_def Let_def split_on_append_sep no_dot_nat_str split_on_free)
  then have "map parse_octet (split_on CHR ''.'' (ipv4_str a)) = map Some ?ds"
    using hi by (simp add: parse_octet_nat_str)
  then show ?thesis using quad_value [of ?n] by (simp add: parse_ipv4_def)
qed

lemma ip_address_ipv4_str: "ip_address (ipv4_str a) = Some (IPv4 a)"
proof -
  have "CHR ''/'' \<notin> set (nat_str 10 n)" for n
    using nat_str_decimal [of n] by (auto simp: list_all_iff is_digit_def)
  then have "CHR ''/'' \<notin> set (ipv4_str a)" by (simp add: ipv4_str_def Let_def)
  then show ?thesis by (simp add: ip_address_def parse_ipv4_str)
qed

end
