(* ===== verification/Http01.thy ===== *)
theory Http01
  imports IpAddress Schemas
begin

unbundle bit_operations_syntax

text \<open>
  HTTP-01 validation of \<^verbatim>\<open>services/http01.py\<close>: the blocked networks, name resolution with
  the check of every address, the pinned fetch and the comparison with the expected key
  authorization, and the retry loop.  The network is an argument: the answers of
  \<open>getaddrinfo\<close> and of the HTTP client, one \<open>network\<close> per attempt, so that they may differ
  between attempts.  The lemmas say which address ranges are refused, that the fetch goes to an
  address that passed the check, and what a successful validation has established.
\<close>

section \<open>Blocked addresses\<close>

definition blocked_networks :: "ip_net list" where
  "blocked_networks =
     [IPv4Net 0x7F000000 8, IPv4Net 0xA9FE0000 16, IPv4Net 0 8, IPv4Net 0xE0000000 4,
      IPv4Net 0xF0000000 4, IPv6Net 1 128, IPv6Net 0xFE800000000000000000000000000000 10,
      IPv6Net 0xFF000000000000000000000000000000 8]"

definition is_blocked :: "string \<Rightarrow> bool" where
  "is_blocked ip_str = (case ip_address ip_str of
     None \<Rightarrow> True
   | Some addr \<Rightarrow> list_ex (in_net addr) blocked_networks)"

section \<open>Resolution\<close>

datatype dns_answer =
    Addresses "(bool \<times> string) list"
  | OsError string
  | ResolverError string

datatype http_answer =
    HttpResponse int string
  | HttpTimeout
  | HttpRequestError string
  | HttpOtherError string

record network =
  getaddrinfo :: "string \<Rightarrow> dns_answer"
  http_get :: "string \<Rightarrow> string \<Rightarrow> http_answer"

definition blocked_error :: "string \<Rightarrow> string \<Rightarrow> exc" where
  "blocked_error hostname ip = Http01ValidationError
     (''Domain '' @ repr_str hostname @ '' resolves to blocked address '' @ repr_str ip) DNS"

text \<open>The loop over the answers: \<open>True\<close> marks \<open>AF_INET\<close>.\<close>

fun choose_address ::
  "string \<Rightarrow> string option \<Rightarrow> string option \<Rightarrow> (bool \<times> string) list \<Rightarrow> exc + string option \<times> string option" where
  "choose_address hostname v4 any [] = Inr (v4, any)"
| "choose_address hostname v4 any ((inet, ip) # rest) =
     (if is_blocked ip then Inl (blocked_error hostname ip)
      else choose_address hostname
             (if inet \<and> v4 = None then Some ip else v4)
             (if any = None then Some ip else any) rest)"

text \<open>
  \<open>_attempt_validation\<close> turns every other exception of the resolution into a validation error
  with the text below; that handler is folded into the two branches concerned.
\<close>

definition resolve_and_check :: "network \<Rightarrow> string \<Rightarrow> exc + string" where
  "resolve_and_check net hostname = (case getaddrinfo net hostname of
     OsError msg \<Rightarrow> Inl (Http01ValidationError
       (''DNS resolution failed for '' @ repr_str hostname @ '': '' @ msg) DNS)
   | ResolverError msg \<Rightarrow> Inl (Http01ValidationError
       (''Unexpected error resolving '' @ repr_str hostname @ '': '' @ msg) DNS)
   | Addresses results \<Rightarrow>
       if results = [] then Inl (Http01ValidationError
         (''No DNS records found for '' @ repr_str hostname) DNS)
       else bindE (choose_address hostname None None results) (\<lambda>(v4, any).
         case (case v4 of Some ip \<Rightarrow> if ip = [] then any else Some ip | None \<Rightarrow> any) of
           None \<Rightarrow> Inl (Http01ValidationError
             (''Unexpected error resolving '' @ repr_str hostname @ '': '') DNS)
         | Some ip \<Rightarrow> Inr ip))"

section \<open>The key authorization\<close>

definition key_authorization :: "'k libs \<Rightarrow> string \<Rightarrow> string \<Rightarrow> exc + string" where
  "key_authorization L tok account_public_key_json =
     bindE (of_option (PyError ''JSONDecodeError'') (json_loads account_public_key_json)) (\<lambda>j.
     bindE (of_option (PyError ''DeserializationError'') (jwk_from_json L j)) (\<lambda>jwk.
       Inr (tok @ ''.'' @ b64url_encode (jwk_thumbprint L jwk))))"

section \<open>One attempt\<close>

text \<open>
  \<open>decode("ascii", errors="replace")\<close>: a byte above 127 becomes U+FFFD, here \<open>None\<close>, which
  is neither white space nor ASCII.
\<close>

definition decode_replace :: "string \<Rightarrow> char option list" where
  "decode_replace bytes = map (\<lambda>c. if (of_char c :: nat) < 128 then Some c else None) bytes"

definition strip_opt :: "char option list \<Rightarrow> char option list" where
  "strip_opt s =
     (let P = (\<lambda>c. case c of None \<Rightarrow> False | Some d \<Rightarrow> py_space d)
      in rev (dropWhile P (rev (dropWhile P s))))"

text \<open>\<open>hmac.compare_digest\<close> on text: equality, and an exception on a non-ASCII character.\<close>

definition compare_digest :: "char option list \<Rightarrow> string \<Rightarrow> exc + bool" where
  "compare_digest body expected =
     (if None \<in> set body \<or> (\<exists>c \<in> set expected. (of_char c :: nat) \<ge> 128)
      then Inl (PyError ''TypeError'') else Inr (body = map Some expected))"

definition max_response_bytes :: nat where
  "max_response_bytes = 4096"

definition fetch_and_compare ::
  "http_answer \<Rightarrow> string \<Rightarrow> string \<Rightarrow> int \<Rightarrow> exc + unit" where
  "fetch_and_compare answer domain expected request_timeout = (case answer of
     HttpTimeout \<Rightarrow> Inl (Http01ValidationError
       (''HTTP-01 request timed out for '' @ repr_str domain @ '' after '' @ int_str request_timeout @ ''s'')
       CONNECTION)
   | HttpRequestError msg \<Rightarrow> Inl (Http01ValidationError
       (''HTTP-01 request failed for '' @ repr_str domain @ '': '' @ msg) CONNECTION)
   | HttpOtherError cls \<Rightarrow> Inl (PyError cls)
   | HttpResponse code content \<Rightarrow>
       if code \<noteq> 200 then Inl (Http01ValidationError
         (''HTTP-01 challenge URL returned status '' @ int_str code @ '' for '' @ repr_str domain) UNAUTHORIZED)
       else let body = strip_opt (decode_replace (take max_response_bytes content))
            in if body = [] then Inl (Http01ValidationError
                 (''HTTP-01 response body is empty for '' @ repr_str domain) UNAUTHORIZED)
               else bindE (compare_digest body expected) (\<lambda>same.
                 if same then Inr ()
                 else Inl (Http01ValidationError
                   (''HTTP-01 key authorization mismatch for '' @ repr_str domain) UNAUTHORIZED)))"

definition challenge_target :: "string \<Rightarrow> int \<Rightarrow> string \<Rightarrow> string" where
  "challenge_target ip port url_path =
     (let host_port = (if port = 80 then '''' else '':'' @ int_str port)
      in if CHR '':'' \<in> set ip then ''http://['' @ ip @ '']'' @ host_port @ url_path
         else ''http://'' @ ip @ host_port @ url_path)"

definition host_header :: "string \<Rightarrow> int \<Rightarrow> string" where
  "host_header domain port = (if port \<noteq> 80 then domain @ '':'' @ int_str port else domain)"

text \<open>\<open>client_factory\<close> is the test hook; the relay passes \<open>None\<close>.\<close>

definition attempt_validation ::
  "network \<Rightarrow> string \<Rightarrow> int \<Rightarrow> string \<Rightarrow> string \<Rightarrow> int \<Rightarrow> (string \<Rightarrow> http_answer) option \<Rightarrow> exc + unit" where
  "attempt_validation net domain port url_path expected request_timeout client_factory =
     (case client_factory of
        Some client \<Rightarrow>
          fetch_and_compare (client (''http://'' @ domain @ url_path)) domain expected request_timeout
      | None \<Rightarrow>
          bindE (resolve_and_check net domain) (\<lambda>ip.
            fetch_and_compare (http_get net (challenge_target ip port url_path) (host_header domain port))
              domain expected request_timeout))"

section \<open>The retry loop\<close>

text \<open>\<open>k\<close> counts the attempts made, the last argument the attempts left.\<close>

fun http01_loop :: "(nat \<Rightarrow> exc + unit) \<Rightarrow> nat \<Rightarrow> nat \<Rightarrow> exc + unit" where
  "http01_loop attempt k 0 = Inr ()"
| "http01_loop attempt k (Suc left) = (case attempt k of
     Inr _ \<Rightarrow> Inr ()
   | Inl (Http01ValidationError detail ty) \<Rightarrow>
       if left = 0 then Inl (Http01ValidationError detail ty) else http01_loop attempt (Suc k) left
   | Inl e \<Rightarrow> Inl e)"

definition challenge_path :: "string \<Rightarrow> string" where
  "challenge_path tok = ''/.well-known/acme-challenge/'' @ tok"

definition http01_attempt ::
  "settings \<Rightarrow> (nat \<Rightarrow> network) \<Rightarrow> string \<Rightarrow> string \<Rightarrow> string \<Rightarrow> nat \<Rightarrow> exc + unit" where
  "http01_attempt cfg nets domain tok expected k =
     attempt_validation (nets k) domain (challenge_http_port cfg) (challenge_path tok) expected
       (challenge_timeout cfg) None"

definition validate_http01 ::
  "settings \<Rightarrow> (nat \<Rightarrow> network) \<Rightarrow> string \<Rightarrow> string \<Rightarrow> string \<Rightarrow> exc + unit" where
  "validate_http01 cfg nets domain tok expected =
     http01_loop (http01_attempt cfg nets domain tok expected) 0 (nat (challenge_retries cfg))"

section \<open>Which addresses are refused\<close>

definition blocked_addr :: "ip_addr \<Rightarrow> bool" where
  "blocked_addr a = (case a of
     IPv4 w \<Rightarrow> let n = unat w in
       n div 2 ^ 24 = 127 \<or> n div 2 ^ 16 = 169 * 256 + 254 \<or> n div 2 ^ 24 = 0 \<or> 224 * 2 ^ 24 \<le> n
   | IPv6 w \<Rightarrow> let n = unat w in
       n = 1 \<or> n div 2 ^ 118 = 0xFE80 div 2 ^ 6 \<or> 0xFF * 2 ^ 120 \<le> n)"

lemma blocked_v4: "list_ex (in_net (IPv4 w)) blocked_networks \<longleftrightarrow> blocked_addr (IPv4 w)"
proof -
  have lt: "unat w < 2 ^ 32" using unsigned_less [of w] by simp
  have nets: "in_net (IPv4 w) (IPv4Net 0x7F000000 8) \<longleftrightarrow> unat w div 2 ^ 24 = 127"
    "in_net (IPv4 w) (IPv4Net 0xA9FE0000 16) \<longleftrightarrow> unat w div 2 ^ 16 = 43518"
    "in_net (IPv4 w) (IPv4Net 0 8) \<longleftrightarrow> unat w div 2 ^ 24 = 0"
    "in_net (IPv4 w) (IPv4Net 0xE0000000 4) \<longleftrightarrow> unat w div 2 ^ 28 = 14"
    "in_net (IPv4 w) (IPv4Net 0xF0000000 4) \<longleftrightarrow> unat w div 2 ^ 28 = 15"
    by (subst in_net_v4; simp)+
  have "unat w div 2 ^ 28 < 16" using lt by (intro less_mult_imp_div_less) simp
  then have "unat w div 2 ^ 28 = 14 \<or> unat w div 2 ^ 28 = 15 \<longleftrightarrow> 14 \<le> unat w div 2 ^ 28" by linarith
  also have "\<dots> \<longleftrightarrow> 14 * 2 ^ 28 \<le> unat w" by (rule less_eq_div_iff_mult_less_eq) simp
  finally show ?thesis
    using nets by (auto simp: blocked_networks_def blocked_addr_def Let_def)
qed

lemma blocked_v6: "list_ex (in_net (IPv6 w)) blocked_networks \<longleftrightarrow> blocked_addr (IPv6 w)"
proof -
  have lt: "unat w < 2 ^ 128" using unsigned_less [of w] by simp
  have nets: "in_net (IPv6 w) (IPv6Net 1 128) \<longleftrightarrow> unat w = 1"
    "in_net (IPv6 w) (IPv6Net 0xFE800000000000000000000000000000 10) \<longleftrightarrow> unat w div 2 ^ 118 = 1018"
    "in_net (IPv6 w) (IPv6Net 0xFF000000000000000000000000000000 8) \<longleftrightarrow> unat w div 2 ^ 120 = 255"
    by (subst in_net_v6; simp)+
  have "unat w div 2 ^ 120 < 256" using lt by (intro less_mult_imp_div_less) simp
  then have "unat w div 2 ^ 120 = 255 \<longleftrightarrow> 255 \<le> unat w div 2 ^ 120" by linarith
  also have "\<dots> \<longleftrightarrow> 255 * 2 ^ 120 \<le> unat w" by (rule less_eq_div_iff_mult_less_eq) simp
  finally show ?thesis
    using nets by (auto simp: blocked_networks_def blocked_addr_def Let_def)
qed

lemma is_blocked_iff:
  "is_blocked s \<longleftrightarrow> (case ip_address s of None \<Rightarrow> True | Some a \<Rightarrow> blocked_addr a)"
proof (cases "ip_address s")
  case (Some a)
  then show ?thesis by (cases a) (simp_all add: is_blocked_def blocked_v4 blocked_v6)
qed (simp add: is_blocked_def)

section \<open>What resolution establishes\<close>

lemma choose_address_Inr:
  "choose_address h v4 any rs = Inr (v4', any') \<Longrightarrow>
     (\<forall>(f, ip) \<in> set rs. \<not> is_blocked ip) \<and>
     v4' = (if v4 = None then map_option snd (find fst rs) else v4) \<and>
     any' = (if any = None then (case rs of [] \<Rightarrow> None | (f, ip) # _ \<Rightarrow> Some ip) else any)"
proof (induction rs arbitrary: v4 any)
  case (Cons r rs)
  obtain f ip where r: "r = (f, ip)" by (cases r)
  with Cons.prems have nb: "\<not> is_blocked ip" by (auto split: if_splits)
  with Cons.prems r Cons.IH [of "if f \<and> v4 = None then Some ip else v4" "if any = None then Some ip else any"]
  show ?case by (auto split: if_splits)
qed simp

lemma choose_address_Inl:
  "choose_address h v4 any rs = Inl e \<longleftrightarrow> (\<exists>f ip. find (\<lambda>(f, ip). is_blocked ip) rs = Some (f, ip) \<and> e = blocked_error h ip)"
  by (induction rs arbitrary: v4 any) auto

lemma is_blocked_nonempty: "\<not> is_blocked ip \<Longrightarrow> ip \<noteq> []"
  by (auto simp: is_blocked_def ip_address_def parse_ipv4_def parse_ipv6_def parse_ipv6_groups_def
      parse_octet_def split: if_splits)

lemma resolve_and_check_Inr:
  assumes "resolve_and_check net h = Inr ip"
  obtains results where "getaddrinfo net h = Addresses results" "ip \<in> snd ` set results"
    "\<forall>(f, a) \<in> set results. \<not> is_blocked a"
    "ip = (case find fst results of Some (_, a) \<Rightarrow> a | None \<Rightarrow> snd (hd results))"
proof -
  from assms obtain results v4 any where r: "getaddrinfo net h = Addresses results" "results \<noteq> []"
    "choose_address h None None results = Inr (v4, any)"
    "(case v4 of Some a \<Rightarrow> if a = [] then any else Some a | None \<Rightarrow> any) = Some ip"
    by (auto simp: resolve_and_check_def bindE_eq_Inr_iff split: dns_answer.splits if_splits option.splits)
  from choose_address_Inr [OF r(3)] have ok: "\<forall>(f, a) \<in> set results. \<not> is_blocked a"
    and v4: "v4 = map_option snd (find fst results)" and any: "any = Some (snd (hd results))"
    using r(2) by (auto split: list.splits)
  have mem: "(f, a) \<in> set results" if "find fst results = Some (f, a)" for f a
    using that by (auto simp: find_Some_iff)
  have ne: "a \<noteq> []" if "(f, a) \<in> set results" for f a using ok that is_blocked_nonempty by blast
  have "ip = (case find fst results of Some (_, a) \<Rightarrow> a | None \<Rightarrow> snd (hd results))"
    using r(4) v4 any ne mem by (auto split: option.splits if_splits)
  moreover from this have "ip \<in> snd ` set results"
    using mem r(2) by (force split: option.splits intro: hd_in_set)
  ultimately show ?thesis using that r(1) ok by blast
qed

text \<open>One address in a blocked range refuses the name, wherever it stands in the answer.\<close>

lemma resolve_and_check_blocked:
  assumes "getaddrinfo net h = Addresses results" "(f, a) \<in> set results" "is_blocked a"
  shows "\<exists>ip. resolve_and_check net h = Inl (blocked_error h ip) \<and> is_blocked ip"
proof -
  from assms have ne: "results \<noteq> []" by auto
  obtain f' ip where fnd: "find (\<lambda>(f, ip). is_blocked ip) results = Some (f', ip)"
    using assms(2,3) by (cases "find (\<lambda>(f, ip). is_blocked ip) results") (auto simp: find_None_iff)
  then have "choose_address h None None results = Inl (blocked_error h ip)"
    by (simp add: choose_address_Inl)
  moreover have "is_blocked ip" using fnd by (auto simp: find_Some_iff)
  ultimately show ?thesis using assms(1) ne by (auto simp: resolve_and_check_def)
qed

section \<open>What a successful validation establishes\<close>

text \<open>
  The client of \<open>domain\<close> answered the challenge: its name resolved to addresses outside the
  blocked ranges, and one of them served the expected text under the challenge URL.
\<close>

definition challenge_met :: "settings \<Rightarrow> network \<Rightarrow> string \<Rightarrow> string \<Rightarrow> string \<Rightarrow> bool" where
  "challenge_met cfg net domain tok expected \<longleftrightarrow>
     (\<exists>results ip content. getaddrinfo net domain = Addresses results \<and>
        (\<forall>(f, a) \<in> set results. \<not> is_blocked a) \<and> ip \<in> snd ` set results \<and>
        http_get net (challenge_target ip (challenge_http_port cfg) (challenge_path tok))
          (host_header domain (challenge_http_port cfg)) = HttpResponse 200 content \<and>
        strip_opt (decode_replace (take max_response_bytes content)) = map Some expected \<and> expected \<noteq> [])"

lemma fetch_and_compare_Inr:
  "fetch_and_compare answer domain expected t = Inr u \<longleftrightarrow>
     (\<exists>content. answer = HttpResponse 200 content \<and> expected \<noteq> [] \<and>
        (\<forall>c \<in> set expected. (of_char c :: nat) < 128) \<and>
        strip_opt (decode_replace (take max_response_bytes content)) = map Some expected)"
  by (auto simp: fetch_and_compare_def compare_digest_def bindE_eq_Inr_iff Let_def not_le
      split: http_answer.splits if_splits) (metis not_le)

lemma http01_attempt_Inr:
  "http01_attempt cfg nets domain tok expected k = Inr u \<Longrightarrow> challenge_met cfg (nets k) domain tok expected"
  unfolding http01_attempt_def attempt_validation_def challenge_met_def option.case bindE_eq_Inr_iff
    fetch_and_compare_Inr
  by (elim exE conjE resolve_and_check_Inr) blast

lemma http01_loop_Inr:
  "http01_loop attempt k (Suc n) = Inr u \<longleftrightarrow>
     (\<exists>j \<le> n. attempt (k + j) = Inr () \<and>
        (\<forall>i < j. \<exists>d ty. attempt (k + i) = Inl (Http01ValidationError d ty)))"
proof (induction n arbitrary: k)
  case 0
  then show ?case by (auto split: sum.splits exc.splits)
next
  case (Suc n)
  show ?case
  proof (cases "\<exists>d ty. attempt k = Inl (Http01ValidationError d ty)")
    case True
    then have "http01_loop attempt k (Suc (Suc n)) = http01_loop attempt (Suc k) (Suc n)" by auto
    moreover have "(\<exists>j \<le> Suc n. attempt (k + j) = Inr () \<and>
          (\<forall>i < j. \<exists>d ty. attempt (k + i) = Inl (Http01ValidationError d ty))) \<longleftrightarrow>
        (\<exists>j \<le> n. attempt (Suc k + j) = Inr () \<and>
          (\<forall>i < j. \<exists>d ty. attempt (Suc k + i) = Inl (Http01ValidationError d ty)))" (is "?L \<longleftrightarrow> ?R")
    proof
      assume ?L
      then obtain j where j: "j \<le> Suc n" "attempt (k + j) = Inr ()"
        "\<forall>i < j. \<exists>d ty. attempt (k + i) = Inl (Http01ValidationError d ty)" by blast
      with True obtain j' where "j = Suc j'" by (cases j) auto
      with j show ?R by (intro exI [of _ j']) auto
    next
      assume ?R
      then obtain j where j: "j \<le> n" "attempt (Suc k + j) = Inr ()"
        "\<forall>i < j. \<exists>d ty. attempt (Suc k + i) = Inl (Http01ValidationError d ty)" by blast
      have "\<exists>d ty. attempt (k + i) = Inl (Http01ValidationError d ty)" if "i < Suc j" for i
        using that True j(3) by (cases i) auto
      with j show ?L by (intro exI [of _ "Suc j"]) auto
    qed
    ultimately show ?thesis by (simp only: Suc.IH)
  next
    case False
    then have "http01_loop attempt k (Suc (Suc n)) = attempt k"
      by (cases "attempt k") (auto split: exc.splits)
    moreover have "j = 0" if "\<forall>i < j. \<exists>d ty. attempt (k + i) = Inl (Http01ValidationError d ty)" for j
      using that False by (cases j) auto
    ultimately show ?thesis by (metis add.right_neutral le0 not_less0 unit_eq)
  qed
qed

lemma validate_http01_met:
  assumes "validate_http01 cfg nets domain tok expected = Inr u" "0 < challenge_retries cfg"
  obtains k where "k < nat (challenge_retries cfg)" "challenge_met cfg (nets k) domain tok expected"
proof -
  obtain n where n: "nat (challenge_retries cfg) = Suc n" using assms(2) by (cases "nat (challenge_retries cfg)") auto
  from assms(1) obtain j where "j \<le> n" "http01_attempt cfg nets domain tok expected j = Inr ()"
    unfolding validate_http01_def n http01_loop_Inr by auto
  then show ?thesis using that n http01_attempt_Inr by (metis le_imp_less_Suc)
qed

section \<open>Limits of the protection\<close>

text \<open>
  With a configured number of attempts of zero or less, the validation loop makes no attempt and
  counts as success.
\<close>

lemma no_attempts_validate_everything:
  "challenge_retries cfg \<le> 0 \<Longrightarrow> validate_http01 cfg nets domain tok expected = Inr ()"
  by (simp add: validate_http01_def)

text \<open>
  Loopback is refused as IPv4 text, but not in its IPv4-mapped IPv6 form, and neither is the
  unspecified IPv6 address.
\<close>

lemma mapped_loopback_is_allowed:
  "is_blocked ''127.0.0.1'' \<and> \<not> is_blocked ''::ffff:127.0.0.1'' \<and> \<not> is_blocked ''::''"
proof -
  note ev = ip_address_def parse_ipv4_def parse_octet_def is_digit_def char_digit_def of_digits_def
    parse_ipv6_def parse_ipv6_groups_def embed_ipv4_def group_layout_def empty_inner_def join_groups_def
    parse_hextet_def Let_def nat_str_def digit_char_def upt_rec
  have d: "nat_digits 16 32512 = [7, 15, 0, 0]" "nat_digits 16 (Suc 0) = [1]" by (simp_all add: nat_digits.simps)
  have r: "replicate 5 (0 :: nat) = [0, 0, 0, 0, 0]" "replicate 8 (0 :: nat) = [0, 0, 0, 0, 0, 0, 0, 0]"
    by (simp_all add: numeral_eq_Suc)
  have "ip_address ''127.0.0.1'' = Some (IPv4 0x7F000001)" by (simp add: ev)
  moreover have "ip_address ''::ffff:127.0.0.1'' = Some (IPv6 0xFFFF7F000001)" by (simp add: ev d r)
  moreover have "ip_address ''::'' = Some (IPv6 0)" by (simp add: ev r)
  ultimately show ?thesis by (simp add: is_blocked_iff blocked_addr_def)
qed

end
