(* ===== verification/LeClient.thy ===== *)
theory LeClient
  imports Schemas
begin

text \<open>
  The upstream ACME client of \<^verbatim>\<open>services/le_client.py\<close>.  The gufo-acme base class, the
  DNS provider and the cryptographic helpers are the argument \<open>G\<close>; their effects act on a world
  of any type.  The client's own state is the map from finalize URLs to order URLs, the registry of
  domain locks and the requests sent so far.  The lemmas show how the zone of a domain is chosen,
  that polling stops within its bound, how an order URL captured at new-order is used and dropped
  at finalize, and that every failure has a problem document.
\<close>

section \<open>The zone of a domain\<close>

text \<open>\<open>max(matches, key=len)\<close>: the first of the longest.\<close>

fun longest :: "string \<Rightarrow> string list \<Rightarrow> string" where
  "longest best [] = best"
| "longest best (z # zs) = longest (if length z > length best then z else best) zs"

definition last_two :: "string list \<Rightarrow> string list" where
  "last_two labels = drop (length labels - 2) labels"

definition zone_matches :: "string \<Rightarrow> string list \<Rightarrow> string list" where
  "zone_matches d overrides = filter (\<lambda>z. d = z \<or> endswith d (''.'' @ z)) overrides"

definition apex_domain :: "string \<Rightarrow> string list \<Rightarrow> string" where
  "apex_domain domain overrides =
     (let d = rstrip_if (\<lambda>c. c = CHR ''.'') domain
      in case zone_matches d overrides of
           z # zs \<Rightarrow> longest z zs
         | [] \<Rightarrow> join ''.'' (last_two (split_on CHR ''.'' d)))"

section \<open>The base class, the provider and the client state\<close>

record acme_resp =
  re_location :: "string option"
  re_content :: string

record acme_order =
  ao_authorizations :: "(string \<times> json) list"
  ao_finalize :: string

record acme_challenge =
  ac_type :: string
  ac_url :: string
  ac_token :: string

record 'w gufo =
  g_post :: "string \<Rightarrow> json option \<Rightarrow> (exc, 'w, acme_resp) comp"
  g_new_order_url :: "(exc, 'w, string) comp"
  g_revoke_url :: "(exc, 'w, string) comp"
  g_check_bound :: "(exc, 'w, unit) comp"
  g_identifiers :: "string \<Rightarrow> string list"
  g_order_status :: "acme_resp \<Rightarrow> exc + string"
  g_key_authorization :: "acme_challenge \<Rightarrow> string"
  g_pem_to_der :: "string \<Rightarrow> string"
  g_csr_pem :: "string \<Rightarrow> string option"
  g_sha256 :: "string \<Rightarrow> string"
  dns_set_txt :: "string \<Rightarrow> string \<Rightarrow> string \<Rightarrow> (exc, 'w, unit) comp"
  dns_delete_txt :: "string \<Rightarrow> string \<Rightarrow> (exc, 'w, unit) comp"

record 'w le_state =
  le_order_urls :: "(string \<times> string) list"
  le_domain_locks :: "string list"
  le_sent :: "(string \<times> json option) list"
  le_world :: 'w

type_synonym ('w, 'a) lem = "(exc, 'w le_state, 'a) comp"

definition liftW :: "(exc, 'w, 'a) comp \<Rightarrow> ('w, 'a) lem" where
  "liftW m = (\<lambda>s. case m (le_world s) of (r, w) \<Rightarrow> (r, s\<lparr>le_world := w\<rparr>))"

definition le_post :: "'w gufo \<Rightarrow> string \<Rightarrow> json option \<Rightarrow> ('w, acme_resp) lem" where
  "le_post G url payload = (\<lambda>s. liftW (g_post G url payload) (s\<lparr>le_sent := le_sent s @ [(url, payload)]\<rparr>))"

definition domain_lock :: "string \<Rightarrow> ('w, unit) lem" where
  "domain_lock domain = writeM (\<lambda>s.
     if domain \<in> set (le_domain_locks s) then s else s\<lparr>le_domain_locks := le_domain_locks s @ [domain]\<rparr>)"

section \<open>Reading responses\<close>

text \<open>
  A field that is used as text is read as text; a value of another type raises where Python would
  raise at its first use.
\<close>

definition resp_json :: "acme_resp \<Rightarrow> exc + json" where
  "resp_json resp = of_option (PyError ''JSONDecodeError'') (json_loads (re_content resp))"

definition json_item :: "string \<Rightarrow> json \<Rightarrow> exc + json" where
  "json_item k j = (case j of
     JObj kvs \<Rightarrow> of_option (PyError ''KeyError'') (map_of kvs k)
   | _ \<Rightarrow> Inl (PyError ''TypeError''))"

definition json_text :: "json \<Rightarrow> exc + string" where
  "json_text j = (case j of JStr s \<Rightarrow> Inr s | _ \<Rightarrow> Inl (PyError ''TypeError''))"

definition json_list :: "json \<Rightarrow> exc + json list" where
  "json_list j = (case j of JArr xs \<Rightarrow> Inr xs | _ \<Rightarrow> Inl (PyError ''TypeError''))"

definition text_item :: "string \<Rightarrow> json \<Rightarrow> exc + string" where
  "text_item k j = bindE (json_item k j) json_text"

section \<open>get_authorization_status\<close>

definition challenge_of_json :: "json \<Rightarrow> exc + acme_challenge" where
  "challenge_of_json d =
     bindE (text_item ''type'' d) (\<lambda>ty. bindE (text_item ''url'' d) (\<lambda>url.
     bindE (text_item ''token'' d) (\<lambda>tok. Inr \<lparr>ac_type = ty, ac_url = url, ac_token = tok\<rparr>)))"

text \<open>\<open>"token" in d\<close>: a key of a dict, a part of a text, an item of a list.\<close>

definition has_token :: "json \<Rightarrow> exc + bool" where
  "has_token d = (case d of
     JObj kvs \<Rightarrow> Inr (map_of kvs ''token'' \<noteq> None)
   | JStr s \<Rightarrow> Inr (contains ''token'' s)
   | JArr xs \<Rightarrow> Inr (JStr ''token'' \<in> set xs)
   | _ \<Rightarrow> Inl (PyError ''TypeError''))"

fun token_challenges :: "json list \<Rightarrow> exc + acme_challenge list" where
  "token_challenges [] = Inr []"
| "token_challenges (d # ds) =
     bindE (has_token d) (\<lambda>ok.
       if ok
       then bindE (challenge_of_json d) (\<lambda>c. bindE (token_challenges ds) (\<lambda>cs. Inr (c # cs)))
       else token_challenges ds)"

definition get_authorization_status ::
  "'w gufo \<Rightarrow> string \<Rightarrow> ('w, string \<times> acme_challenge list) lem" where
  "get_authorization_status G url =
     bindM (le_post G url None) (\<lambda>resp.
     bindM (liftM (resp_json resp)) (\<lambda>data.
     bindM (liftM (text_item ''status'' data)) (\<lambda>status.
     bindM (liftM (bindE (json_item ''challenges'' data) json_list)) (\<lambda>ds.
     bindM (liftM (token_challenges ds)) (\<lambda>challenges.
       returnM (status, challenges))))))"

section \<open>new_order\<close>

definition identifiers_payload :: "string list \<Rightarrow> json" where
  "identifiers_payload vs = JObj [(''identifiers'',
     JArr (map (\<lambda>v. JObj [(''type'', JStr ''dns''), (''value'', JStr v)]) vs))]"

definition capture_order_url :: "string \<Rightarrow> string option \<Rightarrow> ('w, unit) lem" where
  "capture_order_url finalize loc = writeM (\<lambda>s. case loc of
     None \<Rightarrow> s
   | Some url \<Rightarrow> s\<lparr>le_order_urls := dict_set finalize url (le_order_urls s)\<rparr>)"

definition le_new_order :: "'w gufo \<Rightarrow> string \<Rightarrow> ('w, acme_order) lem" where
  "le_new_order G domain =
     (let identifiers = g_identifiers G domain in
      bindM (liftW (g_check_bound G)) (\<lambda>_.
      bindM (liftW (g_new_order_url G)) (\<lambda>url.
      bindM (le_post G url (Some (identifiers_payload identifiers))) (\<lambda>resp.
      bindM (liftM (resp_json resp)) (\<lambda>data.
      bindM (liftM (case re_location resp of None \<Rightarrow> Inr '''' | Some _ \<Rightarrow> text_item ''finalize'' data)) (\<lambda>key.
      bindM (capture_order_url key (re_location resp)) (\<lambda>_.
      bindM (liftM (bindE (json_item ''authorizations'' data) json_list)) (\<lambda>urls.
      bindM (guardM (length urls = length identifiers) (PyError ''ValueError'')) (\<lambda>_.
      bindM (liftM (text_item ''finalize'' data)) (\<lambda>finalize.
        returnM \<lparr>ao_authorizations = zip identifiers urls, ao_finalize = finalize\<rparr>))))))))))"

section \<open>Finalizing and polling\<close>

definition finalize_poll_attempts :: nat where
  "finalize_poll_attempts = 60"

definition poll_timeout_error :: "string \<Rightarrow> exc" where
  "poll_timeout_error order_uri = AcmeExc ''AcmeCertificateError''
     (''Order '' @ order_uri @ '' did not become valid within 120s'')"

definition download_from :: "'w gufo \<Rightarrow> acme_resp \<Rightarrow> ('w, string) lem" where
  "download_from G resp =
     bindM (liftM (bindE (resp_json resp) (text_item ''certificate''))) (\<lambda>url.
     bindM (le_post G url None) (\<lambda>cert_resp. returnM (re_content cert_resp)))"

fun poll_loop :: "'w gufo \<Rightarrow> string \<Rightarrow> nat \<Rightarrow> ('w, string) lem" where
  "poll_loop G order_uri 0 = throwM (poll_timeout_error order_uri)"
| "poll_loop G order_uri (Suc n) =
     bindM (le_post G order_uri None) (\<lambda>resp.
     bindM (liftM (g_order_status G resp)) (\<lambda>status.
       if status = ''valid'' then download_from G resp
       else if status = ''invalid''
       then throwM (AcmeExc ''AcmeCertificateError''
              (''Order '' @ order_uri @ '' became invalid during finalization''))
       else poll_loop G order_uri n))"

definition poll_order_for_cert :: "'w gufo \<Rightarrow> string \<Rightarrow> ('w, string) lem" where
  "poll_order_for_cert G order_uri = poll_loop G order_uri finalize_poll_attempts"

definition is_order_already_finalized :: "string \<Rightarrow> bool" where
  "is_order_already_finalized msg = contains ''orderNotReady'' msg"

definition pop_order_url :: "string \<Rightarrow> ('w, string option) lem" where
  "pop_order_url finalize = (\<lambda>s.
     (Inr (map_of (le_order_urls s) finalize),
      s\<lparr>le_order_urls := filter (\<lambda>(k, _). k \<noteq> finalize) (le_order_urls s)\<rparr>))"

definition finalize_payload :: "'w gufo \<Rightarrow> string \<Rightarrow> json" where
  "finalize_payload G csr = JObj [(''csr'', JStr (b64url_encode (g_pem_to_der G csr)))]"

definition finalized :: "'w gufo \<Rightarrow> string option \<Rightarrow> acme_resp \<Rightarrow> ('w, string) lem" where
  "finalized G stored resp =
     bindM (liftM (g_order_status G resp)) (\<lambda>_.
       case re_location resp of
         Some order_uri \<Rightarrow> poll_order_for_cert G order_uri
       | None \<Rightarrow>
           (case stored of
              Some order_uri \<Rightarrow> poll_order_for_cert G order_uri
            | None \<Rightarrow>
                bindM (liftM (resp_json resp)) (\<lambda>data. case data of
                  JObj kvs \<Rightarrow>
                    if map_of kvs ''status'' = Some (JStr ''valid'') \<and> map_of kvs ''certificate'' \<noteq> None
                    then download_from G resp
                    else throwM (AcmeExc ''AcmeCertificateError''
                      ''Finalize response missing Location header and no order URL available'')
                | _ \<Rightarrow> throwM (PyError ''AttributeError''))))"

definition finalize_and_wait :: "'w gufo \<Rightarrow> acme_order \<Rightarrow> string \<Rightarrow> ('w, string) lem" where
  "finalize_and_wait G order csr =
     bindM (pop_order_url (ao_finalize order)) (\<lambda>stored. \<lambda>s.
       case le_post G (ao_finalize order) (Some (finalize_payload G csr)) s of
         (Inr resp, t) \<Rightarrow> finalized G stored resp t
       | (Inl e, t) \<Rightarrow>
           (case (e, stored) of
              (AcmeExc cls msg, Some url) \<Rightarrow>
                if is_order_already_finalized msg then poll_order_for_cert G url t else (Inl e, t)
            | _ \<Rightarrow> (Inl e, t)))"

section \<open>DNS-01\<close>

definition dns01_txt_value :: "'w gufo \<Rightarrow> string \<Rightarrow> string" where
  "dns01_txt_value G key_auth = b64url_encode (g_sha256 G key_auth)"

definition challenge_name :: "string \<Rightarrow> string" where
  "challenge_name domain = ''_acme-challenge.'' @ domain"

definition fulfill_dns_01 ::
  "'w gufo \<Rightarrow> string list \<Rightarrow> string \<Rightarrow> acme_challenge \<Rightarrow> ('w, bool) lem" where
  "fulfill_dns_01 G zone_overrides domain challenge = (\<lambda>s.
     case liftW (dns_set_txt G (apex_domain domain zone_overrides) (challenge_name domain)
                  (dns01_txt_value G (g_key_authorization G challenge))) s of
       (Inl _, t) \<Rightarrow> (Inr False, t)
     | (Inr _, t) \<Rightarrow> (Inr True, t))"

definition clear_dns_01 ::
  "'w gufo \<Rightarrow> string list \<Rightarrow> string \<Rightarrow> ('w, unit) lem" where
  "clear_dns_01 G zone_overrides domain = (\<lambda>s.
     case liftW (dns_delete_txt G (apex_domain domain zone_overrides) (challenge_name domain)) s of
       (_, t) \<Rightarrow> (Inr (), t))"

section \<open>Revoking and ordering\<close>

definition le_revoke_cert :: "'w gufo \<Rightarrow> json \<Rightarrow> json \<Rightarrow> ('w, unit) lem" where
  "le_revoke_cert G cert_b64 reason =
     bindM (liftW (g_revoke_url G)) (\<lambda>url.
     bindM (le_post G url (Some (JObj ([(''certificate'', cert_b64)] @
              (if reason = JNull then [] else [(''reason'', reason)]))))) (\<lambda>_. returnM ()))"

text \<open>\<open>sign\<close> is inherited from the base class.\<close>

definition der_to_pem_csr :: "'w gufo \<Rightarrow> string \<Rightarrow> exc + string" where
  "der_to_pem_csr G csr_der = of_option (PyError ''ValueError'') (g_csr_pem G csr_der)"

definition order_cert ::
  "'w gufo \<Rightarrow> (string \<Rightarrow> string \<Rightarrow> ('w, string) lem) \<Rightarrow> string \<Rightarrow> string \<Rightarrow> ('w, string) lem" where
  "order_cert G sign domain csr_der =
     bindM (liftM (der_to_pem_csr G csr_der)) (\<lambda>csr_pem.
     bindM (domain_lock domain) (\<lambda>_. sign domain csr_pem))"

section \<open>Problem documents\<close>

definition apos :: string where
  "apos = [CHR 0x27]"

definition acme_problems :: "(string \<times> string \<times> string) list" where
  "acme_problems =
     [(''AcmeRateLimitError'', RATE_LIMITED,
        ''Let'' @ apos @ ''s Encrypt rejected the request due to its rate limits; retry later.''),
      (''AcmeUnauthorizedError'', UNAUTHORIZED,
        ''Let'' @ apos @ ''s Encrypt refused to authorize issuance for this domain.''),
      (''AcmeFulfillmentFailed'', DNS,
        ''The relay could not fulfil the DNS-01 challenge with Let'' @ apos @ ''s Encrypt.''),
      (''AcmeTimeoutError'', CONNECTION, ''The relay timed out talking to Let'' @ apos @ ''s Encrypt.''),
      (''AcmeConnectError'', CONNECTION, ''The relay could not connect to Let'' @ apos @ ''s Encrypt.'')]"

text \<open>
  \<open>bases\<close> gives the classes a gufo-acme exception class derives from; every one of them derives
  from \<open>AcmeError\<close>.
\<close>

definition isinstance_acme :: "(string \<Rightarrow> string list) \<Rightarrow> exc \<Rightarrow> string \<Rightarrow> bool" where
  "isinstance_acme bases e cls = (case e of
     AcmeExc c _ \<Rightarrow> cls = ''AcmeError'' \<or> cls = c \<or> cls \<in> set (bases c)
   | _ \<Rightarrow> False)"

definition exc_text :: "exc \<Rightarrow> string" where
  "exc_text e = (case e of AcmeExc _ msg \<Rightarrow> msg | _ \<Rightarrow> '''')"

definition acme_problem :: "(string \<Rightarrow> string list) \<Rightarrow> exc \<Rightarrow> json" where
  "acme_problem bases e =
     (case find (\<lambda>(cls, _, _). isinstance_acme bases e cls) acme_problems of
        Some (_, problem_type, detail) \<Rightarrow> problem problem_type detail
      | None \<Rightarrow>
          if isinstance_acme bases e ''AcmeError''
          then problem SERVER_INTERNAL
                 (if strip (exc_text e) = '''' then ''Let'' @ apos @ ''s Encrypt rejected the certificate request.''
                  else strip (exc_text e))
          else problem SERVER_INTERNAL ''An unexpected error occurred while issuing the certificate.'')"

definition is_known_acme_error :: "(string \<Rightarrow> string list) \<Rightarrow> exc \<Rightarrow> bool" where
  "is_known_acme_error bases e = isinstance_acme bases e ''AcmeError''"

section \<open>Facts on zones\<close>

lemma longest_mem: "longest b zs \<in> set (b # zs)"
  by (induction zs arbitrary: b) auto

lemma longest_max: "z \<in> set (b # zs) \<Longrightarrow> length z \<le> length (longest b zs)"
proof (induction zs arbitrary: b z)
  case (Cons y ys)
  have "length b \<le> length (longest (if length b < length y then y else b) ys)"
    and "length y \<le> length (longest (if length b < length y then y else b) ys)"
    using Cons.IH [of "if length b < length y then y else b" "if length b < length y then y else b"]
    by (auto split: if_splits)
  with Cons show ?case by auto
qed simp

definition in_zone :: "string \<Rightarrow> string \<Rightarrow> bool" where
  "in_zone d z \<longleftrightarrow> d = z \<or> (\<exists>u. d = u @ ''.'' @ z)"

lemma zone_matches_iff: "z \<in> set (zone_matches d overrides) \<longleftrightarrow> z \<in> set overrides \<and> in_zone d z"
  by (auto simp: zone_matches_def in_zone_def endswith_iff)

lemma apex_override:
  assumes "z \<in> set overrides" "in_zone (rstrip_if (\<lambda>c. c = CHR ''.'') domain) z"
  shows "apex_domain domain overrides \<in> set overrides"
    "in_zone (rstrip_if (\<lambda>c. c = CHR ''.'') domain) (apex_domain domain overrides)"
    "length z \<le> length (apex_domain domain overrides)"
proof -
  let ?d = "rstrip_if (\<lambda>c. c = CHR ''.'') domain"
  have z: "z \<in> set (zone_matches ?d overrides)" using assms by (simp add: zone_matches_iff)
  then obtain y ys where ys: "zone_matches ?d overrides = y # ys" by (cases "zone_matches ?d overrides") auto
  then have apex: "apex_domain domain overrides = longest y ys" by (simp add: apex_domain_def Let_def)
  have "longest y ys \<in> set (zone_matches ?d overrides)" using longest_mem [of y ys] ys by simp
  then show "apex_domain domain overrides \<in> set overrides" "in_zone ?d (apex_domain domain overrides)"
    by (simp_all add: zone_matches_iff apex)
  show "length z \<le> length (apex_domain domain overrides)"
    using longest_max [of z y ys] z ys apex by simp
qed

lemma join_append:
  "xs \<noteq> [] \<Longrightarrow> ys \<noteq> [] \<Longrightarrow> join sep (xs @ ys) = join sep xs @ sep @ join sep ys"
proof (induction xs)
  case (Cons x xs)
  then show ?case by (cases xs; cases ys) auto
qed simp

lemma apex_default:
  assumes "\<forall>z \<in> set overrides. \<not> in_zone (rstrip_if (\<lambda>c. c = CHR ''.'') domain) z"
  shows "apex_domain domain overrides =
      join ''.'' (last_two (split_on CHR ''.'' (rstrip_if (\<lambda>c. c = CHR ''.'') domain)))"
    "in_zone (rstrip_if (\<lambda>c. c = CHR ''.'') domain) (apex_domain domain overrides)"
proof -
  let ?d = "rstrip_if (\<lambda>c. c = CHR ''.'') domain"
  let ?ls = "split_on CHR ''.'' ?d"
  have "zone_matches ?d overrides = []"
    using assms zone_matches_iff [of _ ?d overrides] by (cases "zone_matches ?d overrides") auto
  then show apex: "apex_domain domain overrides = join ''.'' (last_two ?ls)"
    by (simp add: apex_domain_def Let_def)
  have d: "join ''.'' (take (length ?ls - 2) ?ls @ last_two ?ls) = ?d"
    by (simp add: last_two_def join_split_on)
  have "length ?ls \<noteq> 0" by simp
  then have ne: "last_two ?ls \<noteq> []" by (simp add: last_two_def not_le del: split_on_nonempty)
  show "in_zone ?d (apex_domain domain overrides)"
  proof (cases "take (length ?ls - 2) ?ls = []")
    case True
    with d apex show ?thesis by (simp add: in_zone_def)
  next
    case False
    from join_append [OF False ne, of "''.''"] d
    have "?d = join ''.'' (take (length ?ls - 2) ?ls) @ ''.'' @ join ''.'' (last_two ?ls)" by argo
    with apex show ?thesis unfolding in_zone_def by metis
  qed
qed

section \<open>Facts on polling and finalizing\<close>

lemma liftW_frame:
  "liftW m s = (r, t) \<Longrightarrow> le_sent t = le_sent s \<and> le_order_urls t = le_order_urls s \<and>
     le_domain_locks t = le_domain_locks s"
  by (auto simp: liftW_def split: prod.splits)

lemma le_post_frame:
  "le_post G url p s = (r, t) \<Longrightarrow> le_sent t = le_sent s @ [(url, p)] \<and>
     le_order_urls t = le_order_urls s \<and> le_domain_locks t = le_domain_locks s"
  unfolding le_post_def by (drule liftW_frame) simp

lemma download_from_frame:
  "download_from G resp s = (r, t) \<Longrightarrow> le_order_urls t = le_order_urls s \<and>
     (\<exists>ps. le_sent t = le_sent s @ ps \<and> length ps \<le> 1)"
  by (cases r) (auto simp: download_from_def bindM_eq_Inl_iff bindM_eq_Inr_iff dest!: le_post_frame)

lemma poll_loop_frame:
  "poll_loop G uri n s = (r, t) \<Longrightarrow> le_order_urls t = le_order_urls s \<and>
     (\<exists>k ps. le_sent t = le_sent s @ replicate k (uri, None) @ ps \<and> k \<le> n \<and> length ps \<le> 1)"
proof (induction n arbitrary: s)
  case 0
  then show ?case by auto
next
  case (Suc n)
  obtain p s1 where post: "le_post G uri None s = (p, s1)" by (cases "le_post G uri None s")
  note s1 = le_post_frame [OF post]
  have one: ?case if "t = s1" using that s1 by (intro conjI exI [of _ 1] exI [of _ "[]"]) auto
  show ?case
  proof (cases p)
    case (Inl e)
    with Suc.prems post one show ?thesis by (auto simp: bindM_apply)
  next
    case (Inr resp)
    show ?thesis
    proof (cases "g_order_status G resp")
      case (Inl e)
      with Suc.prems post Inr one show ?thesis by (auto simp: bindM_apply)
    next
      case st: (Inr status)
      consider "status = ''valid''" | "status = ''invalid''" | "status \<noteq> ''valid''" "status \<noteq> ''invalid''" by blast
      then show ?thesis
      proof cases
        case 1
        with Suc.prems post Inr st have "download_from G resp s1 = (r, t)" by (simp add: bindM_apply)
        from download_from_frame [OF this] s1 show ?thesis by (fastforce intro: exI [of _ 1])
      next
        case 2
        with Suc.prems post Inr st one show ?thesis by (auto simp: bindM_apply)
      next
        case 3
        with Suc.prems post Inr st have "poll_loop G uri n s1 = (r, t)" by (simp add: bindM_apply)
        from Suc.IH [OF this] obtain k ps where "le_order_urls t = le_order_urls s1"
          "le_sent t = le_sent s1 @ replicate k (uri, None) @ ps" "k \<le> n" "length ps \<le> 1" by blast
        with s1 show ?thesis by (intro conjI exI [of _ "Suc k"] exI [of _ ps]) auto
      qed
    qed
  qed
qed

text \<open>An order that stays in another state than valid or invalid ends the poll with an error.\<close>

lemma poll_loop_stuck:
  assumes "\<And>w. \<exists>resp w'. g_post G uri None w = (Inr resp, w') \<and>
      (\<exists>st. g_order_status G resp = Inr st \<and> st \<noteq> ''valid'' \<and> st \<noteq> ''invalid'')"
  shows "\<exists>t. poll_loop G uri n s = (Inl (poll_timeout_error uri), t) \<and>
      le_sent t = le_sent s @ replicate n (uri, None)"
proof (induction n arbitrary: s)
  case (Suc n)
  obtain resp w' st where post: "g_post G uri None (le_world s) = (Inr resp, w')"
    and st: "g_order_status G resp = Inr st" "st \<noteq> ''valid''" "st \<noteq> ''invalid''"
    using assms [of "le_world s"] by blast
  define s1 where "s1 = s\<lparr>le_sent := le_sent s @ [(uri, None)], le_world := w'\<rparr>"
  have "le_post G uri None s = (Inr resp, s1)" by (simp add: le_post_def liftW_def post s1_def)
  with st have step: "poll_loop G uri (Suc n) s = poll_loop G uri n s1" by (simp add: bindM_apply)
  from Suc [of s1] obtain t where t: "poll_loop G uri n s1 = (Inl (poll_timeout_error uri), t)"
    "le_sent t = le_sent s1 @ replicate n (uri, None)" by blast
  have "le_sent t = le_sent s @ replicate (Suc n) (uri, None)" by (simp add: t(2) s1_def)
  with t(1) show ?case by (simp only: step) blast
qed simp

lemma finalized_frame:
  "finalized G stored resp s = (r, t) \<Longrightarrow> le_order_urls t = le_order_urls s"
  by (auto simp: finalized_def bindM_apply poll_order_for_cert_def
      split: sum.splits option.splits json.splits if_splits dest!: poll_loop_frame download_from_frame)

lemma finalize_and_wait_pops:
  assumes "finalize_and_wait G ord csr s = (r, t)"
  shows "le_order_urls t = filter (\<lambda>(k, _). k \<noteq> ao_finalize ord) (le_order_urls s)"
  using assms
  by (auto simp: finalize_and_wait_def pop_order_url_def bindM_apply poll_order_for_cert_def
      split: prod.splits sum.splits exc.splits option.splits if_splits
      dest!: le_post_frame finalized_frame poll_loop_frame)

text \<open>The order URL a new order was answered with is remembered under its finalize URL.\<close>

lemma le_new_order_captures:
  assumes "liftW (g_check_bound G) s = (Inr (), s1)" "liftW (g_new_order_url G) s1 = (Inr no, s2)"
    "le_post G no (Some (identifiers_payload (g_identifiers G domain))) s2 = (Inr resp, s3)"
    "re_location resp = Some url" "le_new_order G domain s = (Inr ord, t)"
  shows "t = s3\<lparr>le_order_urls := dict_set (ao_finalize ord) url (le_order_urls s3)\<rparr>"
  using assms
  by (auto simp: le_new_order_def Let_def bindM_eq_Inr_iff capture_order_url_def guardM_def split: if_splits)

lemma finalize_and_wait_recovers:
  assumes "map_of (le_order_urls s) (ao_finalize ord) = Some url"
    "le_post G (ao_finalize ord) (Some (finalize_payload G csr))
       (s\<lparr>le_order_urls := filter (\<lambda>(k, _). k \<noteq> ao_finalize ord) (le_order_urls s)\<rparr>) = (Inl (AcmeExc cls msg), t)"
    "is_order_already_finalized msg"
  shows "finalize_and_wait G ord csr s = poll_order_for_cert G url t"
  using assms by (simp add: finalize_and_wait_def pop_order_url_def bindM_apply)

text \<open>The order URL captured at new-order is the one a finalize answer without Location uses.\<close>

lemma finalize_and_wait_captured:
  assumes "map_of (le_order_urls s) (ao_finalize ord) = Some url"
    "le_post G (ao_finalize ord) (Some (finalize_payload G csr))
       (s\<lparr>le_order_urls := filter (\<lambda>(k, _). k \<noteq> ao_finalize ord) (le_order_urls s)\<rparr>) = (Inr resp, t)"
    "re_location resp = None" "g_order_status G resp = Inr st"
  shows "finalize_and_wait G ord csr s = poll_order_for_cert G url t"
  using assms by (simp add: finalize_and_wait_def pop_order_url_def bindM_apply finalized_def)

section \<open>Facts on problem documents\<close>

lemma acme_problem_shape:
  obtains ty detail where "acme_problem bases e = problem ty detail" "detail \<noteq> []"
    "ty \<in> {RATE_LIMITED, UNAUTHORIZED, DNS, CONNECTION, SERVER_INTERNAL}"
proof (cases "find (\<lambda>(cls, _, _). isinstance_acme bases e cls) acme_problems")
  case None
  define d where "d = (if isinstance_acme bases e ''AcmeError''
    then (if strip (exc_text e) = '''' then ''Let'' @ apos @ ''s Encrypt rejected the certificate request.''
          else strip (exc_text e))
    else ''An unexpected error occurred while issuing the certificate.'')"
  from None have "acme_problem bases e = problem SERVER_INTERNAL d" by (simp add: acme_problem_def d_def)
  moreover have "d \<noteq> []" by (simp add: d_def)
  ultimately show ?thesis using that by blast
next
  case (Some p)
  then have "p \<in> set acme_problems" by (rule find_SomeD [THEN conjunct1])
  with Some that show ?thesis by (auto simp: acme_problem_def acme_problems_def)
qed

end
