(* ===== verification/Worker.thy ===== *)
theory Worker
  imports Challenges CertStore Http01 LeClient
begin

text \<open>
  The background tasks of \<^verbatim>\<open>worker.py\<close>.  Each task opens one database session, then talks
  to the network, then opens a second session; the model has one definition per session, with the
  outcome of the network phase as an argument of the second.  The lemmas give the effect of every
  phase on the tables.
\<close>

section \<open>Helpers\<close>

text \<open>\<open>_s\<close>: newlines are escaped before logging.\<close>

fun log_safe :: "string \<Rightarrow> string" where
  "log_safe [] = []"
| "log_safe (c # cs) =
     (if (of_char c :: nat) = 10 then [CHR 0x5C, CHR ''n'']
      else if (of_char c :: nat) = 13 then [CHR 0x5C, CHR ''r''] else [c]) @ log_safe cs"

definition cert_expiry_from_pem :: "'k libs \<Rightarrow> datetime \<Rightarrow> string \<Rightarrow> datetime" where
  "cert_expiry_from_pem L now pem_chain = (case pem_leaf L pem_chain of
     Some (_, not_after) \<Rightarrow> not_after
   | None \<Rightarrow> now + days 89)"

section \<open>run_challenge\<close>

record rc_plan =
  rp_authz_id :: string
  rp_order_id :: string
  rp_domain :: string
  rp_token :: string
  rp_expected :: string

definition fail_authz :: "string \<Rightarrow> string \<Rightarrow> json \<Rightarrow> database \<Rightarrow> database" where
  "fail_authz authz_id order_id prob db =
     update_order order_id (\<lambda>r. r\<lparr>o_status := ''invalid''\<rparr>)
       (update_authz authz_id (\<lambda>r. r\<lparr>z_status := ''invalid'', z_error := Some (json_dumps prob)\<rparr>) db)"

text \<open>The first session: \<open>None\<close> is a task that returned before validation.\<close>

definition rc_begin :: "'k libs \<Rightarrow> string \<Rightarrow> string \<Rightarrow> rc_plan option dbm" where
  "rc_begin L authz_id order_id = (\<lambda>db.
     case (get_authz_row authz_id db, get_order_row order_id db) of
       (Some authz, Some order) \<Rightarrow>
         (case z_challenge_token authz of
            None \<Rightarrow> (Inr None, fail_authz authz_id order_id
                      (problem SERVER_INTERNAL ''Authorization has no challenge token'') db)
          | Some tok \<Rightarrow>
              (case get_account (o_account_id order) db of
                 None \<Rightarrow> (Inr None, fail_authz authz_id order_id
                           (problem SERVER_INTERNAL ''Account for this authorization no longer exists'') db)
               | Some account \<Rightarrow>
                   (case key_authorization L tok (a_public_key account) of
                      Inl e \<Rightarrow> (Inl e, db)
                    | Inr expected \<Rightarrow>
                        (Inr (Some \<lparr>rp_authz_id = authz_id, rp_order_id = order_id,
                           rp_domain = z_identifier authz, rp_token = tok, rp_expected = expected\<rparr>), db))))
     | _ \<Rightarrow> (Inr None, db))"

text \<open>The problem document of a failed validation.\<close>

definition validation_problem :: "exc \<Rightarrow> json" where
  "validation_problem e = (case e of
     Http01ValidationError detail ty \<Rightarrow> problem ty detail
   | _ \<Rightarrow> problem SERVER_INTERNAL ''Unexpected error during HTTP-01 validation'')"

definition authz_statuses :: "string \<Rightarrow> database \<Rightarrow> string list" where
  "authz_statuses order_id db = map z_status (filter (\<lambda>z. z_order_id z = order_id) (authorizations db))"

text \<open>The second session, after the validation returned or raised.\<close>

definition rc_finish :: "string \<Rightarrow> string \<Rightarrow> exc + unit \<Rightarrow> database \<Rightarrow> database" where
  "rc_finish authz_id order_id outcome db =
     (case (get_authz_row authz_id db, get_order_row order_id db) of
        (Some authz, Some order) \<Rightarrow>
          (case outcome of
             Inr _ \<Rightarrow>
               let db1 = update_authz authz_id (\<lambda>r. r\<lparr>z_status := ''valid''\<rparr>) db
               in if list_all (\<lambda>s. s = ''valid'') (authz_statuses order_id db1)
                  then update_order order_id (\<lambda>r. r\<lparr>o_status := ''ready''\<rparr>) db1
                  else db1
           | Inl e \<Rightarrow> fail_authz authz_id order_id (validation_problem e) db)
      | _ \<Rightarrow> db)"

text \<open>The task without interference from other tasks.\<close>

definition run_challenge :: "'k libs \<Rightarrow> settings \<Rightarrow> (nat \<Rightarrow> network) \<Rightarrow> string \<Rightarrow> string \<Rightarrow> unit dbm" where
  "run_challenge L cfg nets authz_id order_id =
     bindM (rc_begin L authz_id order_id) (\<lambda>begun. case begun of
       None \<Rightarrow> returnM ()
     | Some plan \<Rightarrow> writeM (rc_finish authz_id order_id
         (validate_http01 cfg nets (rp_domain plan) (rp_token plan) (rp_expected plan))))"

section \<open>process_finalize\<close>

text \<open>The first session only checks that the order is there.\<close>

definition pf_begin :: "string \<Rightarrow> database \<Rightarrow> bool" where
  "pf_begin order_id db \<longleftrightarrow> get_order_row order_id db \<noteq> None"

text \<open>
  The second session.  The certificate is committed before the order points at it; a collision of
  certificate identifiers ends the task between the two.
\<close>

definition pf_store :: "'k libs \<Rightarrow> draws \<Rightarrow> string \<Rightarrow> string \<Rightarrow> string option dbm" where
  "pf_store L D order_id pem_chain = (\<lambda>db.
     let expires_at = cert_expiry_from_pem L (clock D 0) pem_chain in
     (case get_order_row order_id db of
        None \<Rightarrow> (Inr None, db)
      | Some _ \<Rightarrow>
          bindM (store_cert L (uuid4 D 0) (clock D 1) order_id pem_chain expires_at) (\<lambda>cert_id. returnM (Some cert_id)) db))"

definition pf_done :: "string \<Rightarrow> string \<Rightarrow> database \<Rightarrow> database" where
  "pf_done order_id cert_id = update_order order_id (\<lambda>r. r\<lparr>o_cert_id := Some cert_id, o_status := ''valid''\<rparr>)"

definition pf_fail :: "(string \<Rightarrow> string list) \<Rightarrow> string \<Rightarrow> exc \<Rightarrow> database \<Rightarrow> database" where
  "pf_fail bases order_id e db = (case get_order_row order_id db of
     None \<Rightarrow> db
   | Some _ \<Rightarrow> update_order order_id
       (\<lambda>r. r\<lparr>o_status := ''invalid'', o_error := Some (json_dumps (acme_problem bases e))\<rparr>) db)"

definition pf_finish ::
  "'k libs \<Rightarrow> (string \<Rightarrow> string list) \<Rightarrow> draws \<Rightarrow> string \<Rightarrow> exc + string \<Rightarrow> unit dbm" where
  "pf_finish L bases D order_id outcome = (case outcome of
     Inl e \<Rightarrow> writeM (pf_fail bases order_id e)
   | Inr pem_chain \<Rightarrow>
       bindM (pf_store L D order_id pem_chain) (\<lambda>stored. case stored of
         None \<Rightarrow> returnM ()
       | Some cert_id \<Rightarrow> writeM (pf_done order_id cert_id)))"

lemmas pf_defs = pf_finish_def pf_store_def pf_done_def pf_fail_def

definition process_finalize ::
  "'k libs \<Rightarrow> (string \<Rightarrow> string list) \<Rightarrow> (string \<Rightarrow> string \<Rightarrow> exc + string) \<Rightarrow> draws \<Rightarrow>
   string \<Rightarrow> string \<Rightarrow> string \<Rightarrow> unit dbm" where
  "process_finalize L bases issue D order_id domain csr_der =
     bindM (readM (pf_begin order_id)) (\<lambda>found.
       if found then pf_finish L bases D order_id (issue domain csr_der) else returnM ())"

section \<open>Facts\<close>

lemma log_safe_no_newline: "c \<in> set (log_safe s) \<Longrightarrow> (of_char c :: nat) \<noteq> 10 \<and> (of_char c :: nat) \<noteq> 13"
  by (induction s) (auto split: if_splits)

lemma fail_authz_simps [simp]:
  "accounts (fail_authz i j p db) = accounts db" "certificates (fail_authz i j p db) = certificates db"
  "nonces (fail_authz i j p db) = nonces db"
  "orders (fail_authz i j p db) = tupdate (\<lambda>r. o_id r = j) (\<lambda>r. r\<lparr>o_status := ''invalid''\<rparr>) (orders db)"
  "authorizations (fail_authz i j p db) =
     tupdate (\<lambda>r. z_id r = i) (\<lambda>r. r\<lparr>z_status := ''invalid'', z_error := Some (json_dumps p)\<rparr>) (authorizations db)"
  by (simp_all add: fail_authz_def)

lemma rc_begin_plan:
  assumes "rc_begin L i j db = (Inr (Some plan), db')"
  obtains z ord acct where "db' = db" "get_authz_row i db = Some z" "get_order_row j db = Some ord"
    "get_account (o_account_id ord) db = Some acct" "z_challenge_token z = Some (rp_token plan)"
    "key_authorization L (rp_token plan) (a_public_key acct) = Inr (rp_expected plan)"
    "rp_domain plan = z_identifier z" "rp_authz_id plan = i" "rp_order_id plan = j"
  using assms by (auto simp: rc_begin_def split: option.splits sum.splits)

lemma rc_begin_db:
  assumes "rc_begin L i j db = (r, db')"
  shows "db' = db \<or> ((\<exists>z. get_authz_row i db = Some z) \<and> (\<exists>ty d. db' = fail_authz i j (problem ty d) db))"
  using assms by (auto simp: rc_begin_def split: option.splits sum.splits)

lemma rc_finish_nonces [simp]: "nonces (rc_finish i j r db) = nonces db"
  and rc_finish_accounts [simp]: "accounts (rc_finish i j r db) = accounts db"
  and rc_finish_certificates [simp]: "certificates (rc_finish i j r db) = certificates db"
  by (auto simp: rc_finish_def Let_def split: option.splits sum.splits)

lemma pf_finish_Inr_valid:
  assumes "get_order_row i db = Some ord" "uuid4 D 0 \<notin> set (map c_id (certificates db))"
  shows "pf_finish L bases D i (Inr pem) db =
     (Inr (), update_order i (\<lambda>r. r\<lparr>o_cert_id := Some (uuid4 D 0), o_status := ''valid''\<rparr>)
        (db\<lparr>certificates := certificates db @
           [new_cert_row L (uuid4 D 0) (clock D 1) i pem (cert_expiry_from_pem L (clock D 0) pem)]\<rparr>))"
proof -
  have "store_cert L (uuid4 D 0) (clock D 1) i pem (cert_expiry_from_pem L (clock D 0) pem) db =
      (Inr (uuid4 D 0), db\<lparr>certificates := certificates db @
           [new_cert_row L (uuid4 D 0) (clock D 1) i pem (cert_expiry_from_pem L (clock D 0) pem)]\<rparr>)"
    using assms(2) by (simp add: store_cert_Inr)
  with assms(1) show ?thesis by (simp add: pf_defs Let_def bindM_apply)
qed

text \<open>What is written into an error column is a problem document.\<close>

lemma validation_problem_form: "\<exists>ty d. validation_problem e = problem ty d"
  by (cases e) (auto simp: validation_problem_def)

lemma acme_problem_form: "\<exists>ty d. acme_problem bases e = problem ty d"
  by (auto simp: acme_problem_def split: option.splits)

text \<open>Every effect the second session of a finalize task can have.\<close>

lemma pf_finish_db:
  assumes "pf_finish L bases D i outcome db = (r, db')"
  shows "db' = db
    \<or> (\<exists>e. outcome = Inl e \<and> get_order_row i db \<noteq> None \<and> db' = update_order i
          (\<lambda>r. r\<lparr>o_status := ''invalid'', o_error := Some (json_dumps (acme_problem bases e))\<rparr>) db)
    \<or> (\<exists>pem ord. outcome = Inr pem \<and> get_order_row i db = Some ord \<and>
         uuid4 D 0 \<notin> set (map c_id (certificates db)) \<and>
         db' = update_order i (\<lambda>r. r\<lparr>o_cert_id := Some (uuid4 D 0), o_status := ''valid''\<rparr>)
           (db\<lparr>certificates := certificates db @
              [new_cert_row L (uuid4 D 0) (clock D 1) i pem (cert_expiry_from_pem L (clock D 0) pem)]\<rparr>))"
proof (cases outcome)
  case (Inl e)
  with assms show ?thesis by (auto simp: pf_defs split: option.splits)
next
  case (Inr pem)
  show ?thesis
  proof (cases "get_order_row i db")
    case None
    with Inr assms show ?thesis by (simp add: pf_defs Let_def bindM_apply)
  next
    case (Some ord)
    show ?thesis
    proof (cases "uuid4 D 0 \<in> set (map c_id (certificates db))")
      case True
      with Inr Some assms show ?thesis
        by (auto simp: pf_defs Let_def store_cert_def tinsert_def new_cert_row_def bindM_apply)
    next
      case False
      with Inr Some assms pf_finish_Inr_valid [OF Some False, of L bases pem] show ?thesis by auto
    qed
  qed
qed

lemma rc_finish_success_eq:
  assumes "get_authz_row i db = Some z" "get_order_row j db = Some ord"
    "\<forall>y \<in> set (authorizations db). z_order_id y = j \<longrightarrow> z_id y \<noteq> i \<longrightarrow> z_status y = ''valid''"
  shows "rc_finish i j (Inr ()) db = update_order j (\<lambda>r. r\<lparr>o_status := ''ready''\<rparr>)
     (update_authz i (\<lambda>r. r\<lparr>z_status := ''valid''\<rparr>) db)"
proof -
  have "list_all (\<lambda>s. s = ''valid'') (authz_statuses j (update_authz i (\<lambda>r. r\<lparr>z_status := ''valid''\<rparr>) db))"
    using assms(3) by (auto simp: authz_statuses_def list_all_iff set_tupdate)
  with assms(1,2) show ?thesis by (simp add: rc_finish_def Let_def)
qed

lemma rc_finish_success:
  assumes "get_authz_row i db = Some z" "get_order_row j db = Some ord"
    "\<forall>y \<in> set (authorizations db). z_order_id y = j \<longrightarrow> z_id y \<noteq> i \<longrightarrow> z_status y = ''valid''"
  shows "map_option o_status (get_order_row j (rc_finish i j (Inr ()) db)) = Some ''ready''"
    and "map_option z_status (get_authz_row i (rc_finish i j (Inr ()) db)) = Some ''valid''"
  unfolding rc_finish_success_eq [OF assms] get_order_row_def get_authz_row_def
  using assms(1,2)
  by (simp_all add: order_status.tget_tupdate_key authz_status.tget_tupdate_key get_order_row_def get_authz_row_def)

lemma rc_finish_failure:
  assumes "get_authz_row i db = Some z" "get_order_row j db = Some ord"
  shows "map_option o_status (get_order_row j (rc_finish i j (Inl e) db)) = Some ''invalid''"
    and "map_option (\<lambda>r. (z_status r, z_error r)) (get_authz_row i (rc_finish i j (Inl e) db)) =
      Some (''invalid'', Some (json_dumps (validation_problem e)))"
  using assms
  by (auto simp: rc_finish_def get_order_row_def get_authz_row_def order_status.tget_tupdate_key
      authz_error.tget_tupdate_key)

text \<open>
  A validation that finishes late reopens its order: when a second validation of the same authorization
  succeeds while the order is being finalized, the next finalize request claims it a second time.
\<close>

lemma late_validation_reopens_order:
  assumes "distinct (map o_id (orders db))" "get_authz_row i db = Some z" "get_order_row j db = Some ord"
    "o_status ord = ''processing''"
    "\<forall>y \<in> set (authorizations db). z_order_id y = j \<longrightarrow> z_id y \<noteq> i \<longrightarrow> z_status y = ''valid''"
  shows "fst (claim_order j db) = Inr 0 \<and> fst (claim_order j (rc_finish i j (Inr ()) db)) = Inr 1"
proof
  have row: "r = ord" if "r \<in> set (orders db)" "o_id r = j" for r
    using assms(1,3) that by (auto simp: get_order_row_def tget_eq_Some_iff inj_on_eq_iff distinct_map)
  have none: "\<not> (o_id r = j \<and> o_status r = ''ready'')" if "r \<in> set (orders db)" for r
    using row [OF that] assms(4) by auto
  then show "fst (claim_order j db) = Inr 0"
    using claim_order_count [of j db] by (cases "claim_order j db") (auto simp: claim_order_def Let_def tcount_def filter_empty_conv)
  define db1 where "db1 = rc_finish i j (Inr ()) db"
  obtain n db2 where n: "claim_order j db1 = (Inr n, db2)" by (auto simp: claim_order_def Let_def)
  have eq: "db1 = update_order j (\<lambda>r. r\<lparr>o_status := ''ready''\<rparr>) (update_authz i (\<lambda>r. r\<lparr>z_status := ''valid''\<rparr>) db)"
    unfolding db1_def by (rule rc_finish_success_eq [OF assms(2,3,5)])
  have d: "distinct (map o_id (orders db1))" using assms(1) unfolding eq by (simp add: order_status.keys_tupdate)
  obtain r where "r \<in> set (orders db1)" "o_id r = j" "o_status r = ''ready''"
    using rc_finish_success(1) [OF assms(2,3,5)] unfolding db1_def [symmetric]
    by (auto simp: get_order_row_def dest: tget_SomeD)
  then have "0 < n" using claim_order_count [OF n] by blast
  moreover have "n \<le> 1" by (rule claim_order_single [OF d n])
  ultimately show "fst (claim_order j (rc_finish i j (Inr ()) db)) = Inr 1" using n unfolding db1_def by simp
qed

end
