(* ===== verification/App.thy ===== *)
theory App
  imports Accounts Worker
begin

text \<open>
  The application of \<^verbatim>\<open>main.py\<close>: the unauthenticated routes, the dispatch of a request to
  its route, the middleware that adds the \<open>Link\<close> and \<open>Replay-Nonce\<close> headers to every response,
  and the start-up that resets what an earlier process left in \<open>processing\<close>.  The framework's
  rendering of a raised \<open>HTTPException\<close> is an argument.  The lemmas carry the contract of
  authenticated routes over to the whole dispatch.
\<close>

section \<open>Unauthenticated routes\<close>

definition get_directory :: "settings \<Rightarrow> response" where
  "get_directory cfg =
     (let base = relay_base_url cfg in
      json_response (directory_json
        \<lparr>dr_new_nonce = base @ ''/acme/new-nonce'', dr_new_account = base @ ''/acme/new-account'',
         dr_new_order = base @ ''/acme/new-order'', dr_revoke_cert = base @ ''/acme/revoke-cert'',
         dr_key_change = base @ ''/acme/key-change'',
         dr_meta = Some \<lparr>dm_terms_of_service = Some (base @ ''/acme/terms''), dm_website = None,
           dm_caa_identities = None, dm_external_account_required = None\<rparr>\<rparr>) 200 [])"

definition new_nonce_head :: response where
  "new_nonce_head = \<lparr>rs_status = 200, rs_content = RawBody '''' '''', rs_headers = []\<rparr>"

definition new_nonce_post :: response where
  "new_nonce_post = \<lparr>rs_status = 204, rs_content = RawBody '''' '''', rs_headers = []\<rparr>"

definition healthz :: response where
  "healthz = \<lparr>rs_status = 200, rs_content = RawBody '''' '''', rs_headers = []\<rparr>"

text \<open>\<open>__version__\<close>: the version of the installed distribution, if there is one.\<close>

definition package_version :: "string option \<Rightarrow> string" where
  "package_version installed = (case installed of Some v \<Rightarrow> v | None \<Rightarrow> ''0.0.0+unknown'')"

definition version_route :: "string \<Rightarrow> response" where
  "version_route v = json_response (JObj [(''version'', JStr v)]) 200 []"

definition nl :: string where
  "nl = [CHR 0x0A]"

definition terms_body :: string where
  "terms_body = concat
     [''Jackdaw ACME Relay '', [CHR 0xE2, CHR 0x80, CHR 0x94], '' Terms of Service'', nl, nl,
      ''This relay issues publicly trusted TLS certificates via Let'', apos, ''s Encrypt on behalf'', nl,
      ''of internal ACME clients.  By using this relay you agree to Let'', apos, ''s Encrypt'', apos, ''s'', nl,
      ''Subscriber Agreement (https://letsencrypt.org/repository/) and Acceptable Use'', nl,
      ''Policy.  The relay operator accepts no liability for misuse.'', nl, nl,
      ''Certificates are subject to Let'', apos, ''s Encrypt rate limits.  The relay validates'', nl,
      ''domain control via HTTP-01 before forwarding requests to Let'', apos, ''s Encrypt.'', nl]"

definition terms_of_service :: response where
  "terms_of_service =
     \<lparr>rs_status = 200, rs_content = RawBody ''text/plain; charset=utf-8'' terms_body, rs_headers = []\<rparr>"

section \<open>Dispatch\<close>

datatype endpoint =
    Directory | NonceHead | NoncePost | Healthz | Version | Terms
  | NewAccount | NewOrder | GetOrder string | FinalizeOrder string | GetAuthz string
  | AckChallenge string | DownloadCert string | RevokeCert | KeyChange

definition plain :: "response dbm \<Rightarrow> reply dbm" where
  "plain m = bindM m (\<lambda>r. returnM (Inr r, []))"

definition route ::
  "'k libs \<Rightarrow> settings \<Rightarrow> string \<Rightarrow> draws \<Rightarrow> (json \<Rightarrow> json \<Rightarrow> exc + unit) \<Rightarrow> endpoint \<Rightarrow> request \<Rightarrow> reply dbm" where
  "route L cfg ver D le_revoke ep req = (case ep of
     Directory \<Rightarrow> plain (returnM (get_directory cfg))
   | NonceHead \<Rightarrow> plain (returnM new_nonce_head)
   | NoncePost \<Rightarrow> plain (returnM new_nonce_post)
   | Healthz \<Rightarrow> plain (returnM healthz)
   | Version \<Rightarrow> plain (returnM (version_route ver))
   | Terms \<Rightarrow> plain (returnM terms_of_service)
   | NewAccount \<Rightarrow> plain (new_account L cfg D req)
   | NewOrder \<Rightarrow> plain (new_order L cfg D req)
   | GetOrder i \<Rightarrow> plain (get_order L cfg D i req)
   | FinalizeOrder i \<Rightarrow> finalize_order L cfg D i req
   | GetAuthz i \<Rightarrow> plain (get_authz L cfg D i req)
   | AckChallenge i \<Rightarrow> acknowledge_challenge L cfg D i req
   | DownloadCert i \<Rightarrow> plain (download_cert L cfg D i req)
   | RevokeCert \<Rightarrow> plain (revoke_cert L cfg D le_revoke req)
   | KeyChange \<Rightarrow> plain (key_change L cfg D req))"

definition authenticated :: "endpoint \<Rightarrow> bool" where
  "authenticated ep \<longleftrightarrow> ep \<notin> {Directory, NonceHead, NoncePost, Healthz, Version, Terms}"

section \<open>The header middleware\<close>

definition index_link :: "settings \<Rightarrow> string" where
  "index_link cfg = ''<'' @ relay_base_url cfg @ ''/directory>;rel='' @ [CHR 0x22] @ ''index'' @ [CHR 0x22]"

definition add_link :: "settings \<Rightarrow> response \<Rightarrow> response" where
  "add_link cfg r =
     (let existing = (case map_of (rs_headers r) ''Link'' of None \<Rightarrow> '''' | Some v \<Rightarrow> v)
      in r\<lparr>rs_headers := dict_set ''Link''
            (if existing \<noteq> '''' then existing @ '', '' @ index_link cfg else index_link cfg) (rs_headers r)\<rparr>)"

definition add_nonce :: "string option \<Rightarrow> response \<Rightarrow> response" where
  "add_nonce nonce r = (case nonce of
     None \<Rightarrow> r | Some v \<Rightarrow> r\<lparr>rs_headers := dict_set ''Replay-Nonce'' v (rs_headers r)\<rparr>)"

definition dispatch :: "settings \<Rightarrow> string \<Rightarrow> datetime \<Rightarrow> request \<Rightarrow> response \<Rightarrow> response dbm" where
  "dispatch cfg fresh now req response =
     (let linked = add_link cfg response in
      if rq_method req = ''HEAD'' \<or> rq_method req = ''POST''
      then bindM (generate_nonce cfg fresh now) (\<lambda>nonce. returnM (add_nonce nonce linked))
      else returnM linked)"

text \<open>The whole request: the route, the rendering of a raised \<open>HTTPException\<close>, the middleware.\<close>

definition handle_request ::
  "(int \<Rightarrow> json \<Rightarrow> response) \<Rightarrow> 'k libs \<Rightarrow> settings \<Rightarrow> string \<Rightarrow> draws \<Rightarrow> (json \<Rightarrow> json \<Rightarrow> exc + unit) \<Rightarrow>
   string \<Rightarrow> datetime \<Rightarrow> endpoint \<Rightarrow> request \<Rightarrow> database \<Rightarrow> (exc + response) \<times> task list \<times> database" where
  "handle_request render L cfg ver D le_revoke fresh now ep req db =
     (let (result, db1) = route L cfg ver D le_revoke ep req db;
          (outcome, tasks) = (case result of Inl e \<Rightarrow> (Inl e, []) | Inr reply \<Rightarrow> reply)
      in case outcome of
           Inr response \<Rightarrow>
             let (r, db2) = dispatch cfg fresh now req response db1 in (r, tasks, db2)
         | Inl (HTTPException code detail) \<Rightarrow>
             let (r, db2) = dispatch cfg fresh now req (render code detail) db1 in (r, tasks, db2)
         | Inl e \<Rightarrow> (Inl e, tasks, db1))"

section \<open>Start-up and the prune loop\<close>

definition interrupted_order_error :: string where
  "interrupted_order_error = json_dumps (problem SERVER_INTERNAL
     ''Certificate issuance was interrupted by a relay restart; submit a new order.'')"

definition reset_processing_orders :: "database \<Rightarrow> database" where
  "reset_processing_orders db =
     db\<lparr>orders := tupdate (\<lambda>r. o_status r = ''processing'')
          (\<lambda>r. r\<lparr>o_status := ''invalid'', o_error := Some interrupted_order_error\<rparr>) (orders db),
        authorizations := tupdate (\<lambda>r. z_status r = ''processing'')
          (\<lambda>r. r\<lparr>z_status := ''invalid''\<rparr>) (authorizations db)\<rparr>"

definition le_production_url :: string where
  "le_production_url = ''https://acme-v02.api.letsencrypt.org/directory''"

text \<open>The database part of \<open>lifespan\<close>, after the check of the TLS settings.\<close>

definition lifespan_start :: "settings \<Rightarrow> unit dbm" where
  "lifespan_start cfg =
     (if \<not> le_verify_ssl cfg \<and> le_directory cfg = le_production_url then throwM (PyError ''RuntimeError'')
      else writeM reset_processing_orders)"

definition prune_round :: "settings \<Rightarrow> datetime \<Rightarrow> unit dbm" where
  "prune_round cfg now = prune_nonces cfg now"

section \<open>Facts on headers\<close>

lemma map_of_dict_set: "map_of (dict_set k v d) j = (if j = k then Some v else map_of d j)"
proof -
  let ?u = "map (\<lambda>(k', v'). if k' = k then (k', v) else (k', v')) d"
  have "j \<noteq> k \<Longrightarrow> map_of ?u j = map_of d j" by (induction d) auto
  moreover have "k \<in> fst ` set d \<Longrightarrow> map_of ?u k = Some v" by (induction d) auto
  moreover have "k \<notin> fst ` set d \<Longrightarrow> map_of d k = None" by (simp add: map_of_eq_None_iff)
  ultimately show ?thesis
    by (cases "k \<in> fst ` set d") (auto simp: dict_set_def map_add_def split: option.splits)
qed

lemma dispatch_link:
  assumes "dispatch cfg fresh now req r db = (Inr r', db')"
  shows "\<exists>p. map_of (rs_headers r') ''Link'' = Some (p @ index_link cfg)"
proof -
  have "\<exists>p. map_of (rs_headers (add_link cfg r)) ''Link'' = Some (p @ index_link cfg)"
    by (auto simp: add_link_def Let_def map_of_dict_set)
  with assms show ?thesis
    by (auto simp: dispatch_def Let_def bindM_eq_Inr_iff add_nonce_def map_of_dict_set split: if_splits option.splits)
qed

lemma dispatch_status:
  "dispatch cfg fresh now req r db = (Inr r', db') \<Longrightarrow> rs_status r' = rs_status r \<and> rs_content r' = rs_content r"
  by (auto simp: dispatch_def Let_def bindM_eq_Inr_iff add_nonce_def add_link_def split: if_splits option.splits)

text \<open>A POST response carries a nonce that is accepted for its whole lifetime, or the store is full.\<close>

lemma dispatch_nonce:
  assumes "dispatch cfg fresh now req r db = (Inr r', db')" "rq_method req = ''POST'' \<or> rq_method req = ''HEAD''"
  shows "(map_of (rs_headers r') ''Replay-Nonce'' = Some fresh \<and>
      (\<forall>t. now \<le> t \<longrightarrow> t \<le> now + seconds (nonce_ttl cfg) \<longrightarrow> nonce_live cfg t db' fresh))
    \<or> (0 < nonce_max cfg \<and> nonce_max cfg \<le> int (length (nonces db)) \<and> db' = db)"
proof -
  from assms obtain nonce where g: "generate_nonce cfg fresh now db = (Inr nonce, db')"
    and r': "r' = add_nonce nonce (add_link cfg r)"
    by (auto simp: dispatch_def Let_def bindM_eq_Inr_iff)
  show ?thesis
  proof (cases nonce)
    case None
    with g show ?thesis by (auto simp: generate_nonce_cases split: if_splits)
  next
    case (Some v)
    then have "v = fresh" using g by (auto simp: generate_nonce_cases split: if_splits)
    with Some g r' show ?thesis
      by (auto simp: add_nonce_def map_of_dict_set intro: generated_is_live)
  qed
qed

section \<open>Replays\<close>

lemma plain_Inl: "plain m db = (Inl e, db') \<longleftrightarrow> m db = (Inl e, db')"
  by (auto simp: plain_def bindM_eq_Inl_iff)

lemma plain_Inr: "plain m db = (Inr rep, db') \<longleftrightarrow> (\<exists>r. m db = (Inr r, db') \<and> rep = (Inr r, []))"
  by (auto simp: plain_def bindM_eq_Inr_iff)

lemma plain_snd: "snd (plain m db) = snd (m db)"
  by (simp add: plain_def bindM_apply split: prod.splits sum.splits)

lemmas route_defs = new_account_def new_order_def get_order_def finalize_order_def get_authz_def
  acknowledge_challenge_def download_cert_def revoke_cert_def key_change_def

lemma route_refused_all:
  assumes "authenticated ep" "decode_jws req = Inr p" "request_nonce p = Some n" "nonce_spent db n"
  shows "\<exists>e. route L cfg ver D lr ep req db = (Inl e, db)"
proof -
  note R = assms(2,3,4)
  show ?thesis
    using assms(1) new_account_route.route_refused [OF R] new_order_route.route_refused [OF R]
      get_order_route.route_refused [OF R] finalize_route.route_refused [OF R]
      get_authz_route.route_refused [OF R] ack_route.route_refused [OF R]
      download_route.route_refused [OF R] revoke_route.route_refused [OF R]
      key_change_route.route_refused [OF R]
    by (cases ep) (auto simp: route_def authenticated_def plain_Inl route_defs)
qed

lemma route_spent_stable_all:
  assumes "nonce_spent db v"
  shows "nonce_spent (snd (route L cfg ver D lr ep req db)) v"
  using assms new_account_route.route_spent_stable [OF assms] new_order_route.route_spent_stable [OF assms]
    get_order_route.route_spent_stable [OF assms] finalize_route.route_spent_stable [OF assms]
    get_authz_route.route_spent_stable [OF assms] ack_route.route_spent_stable [OF assms]
    download_route.route_spent_stable [OF assms] revoke_route.route_spent_stable [OF assms]
    key_change_route.route_spent_stable [OF assms]
  by (cases ep) (auto simp: route_def plain_snd route_defs)

lemma route_keys_all: "nonce_keys_ok (snd (route L cfg ver D lr ep req db)) = nonce_keys_ok db"
  by (cases ep) (auto simp: route_def plain_snd route_defs new_account_route.route_keys
      new_order_route.route_keys get_order_route.route_keys finalize_route.route_keys
      get_authz_route.route_keys ack_route.route_keys download_route.route_keys
      revoke_route.route_keys key_change_route.route_keys)

text \<open>Every authenticated route verifies first: a success has spent the nonce of the request.\<close>

lemma route_verifies:
  assumes "authenticated ep" "route L cfg ver D lr ep req db = (Inr rep, db')"
  obtains pa db1 where "verify_jws L cfg (clock D 0) req db = (Inr pa, db1)"
  using assms by (cases ep) (auto simp: route_def authenticated_def plain_Inr route_defs bindM_eq_Inr_iff)

lemma route_success_spends_all:
  assumes "authenticated ep" "route L cfg ver D lr ep req db = (Inr rep, db')" "nonce_keys_ok db"
  obtains p n where "decode_jws req = Inr p" "request_nonce p = Some n" "nonce_spent db' n"
proof -
  obtain pa db1 where v: "verify_jws L cfg (clock D 0) req db = (Inr pa, db1)"
    using route_verifies [OF assms(1,2)] .
  obtain p n where pn: "decode_jws req = Inr p" "request_nonce p = Some n" "nonce_spent db1 n"
    using verify_jws_spends [OF v assms(3)] .
  have "nonces db' = nonces db1"
  proof -
    have "nonces (snd (body pa db1)) = nonces db1 \<Longrightarrow>
        snd (bindM (verify_jws L cfg (clock D 0) req) body db) = db' \<Longrightarrow> nonces db' = nonces db1"
      for body :: "json \<times> string \<Rightarrow> database \<Rightarrow> (exc + 'z) \<times> database"
      using v by (auto simp: bindM_apply)
    moreover have "snd (route L cfg ver D lr ep req db) = db'" using assms(2) by simp
    ultimately show ?thesis
      using assms(1)
      by (cases ep) (auto simp: route_def authenticated_def plain_snd route_defs v
          new_account_route.body_nonces new_order_route.body_nonces get_order_route.body_nonces
          finalize_route.body_nonces get_authz_route.body_nonces ack_route.body_nonces
          download_route.body_nonces revoke_route.body_nonces key_change_route.body_nonces)
  qed
  with pn that show ?thesis by (simp add: nonce_spent_def)
qed

section \<open>Traffic\<close>

text \<open>What may happen to the nonce table between two requests.\<close>

datatype traffic_op =
    Request draws "json \<Rightarrow> json \<Rightarrow> exc + unit" endpoint request
  | FreshNonce string datetime
  | PruneRound datetime

fun traffic :: "'k libs \<Rightarrow> settings \<Rightarrow> string \<Rightarrow> traffic_op list \<Rightarrow> database \<Rightarrow> database" where
  "traffic L cfg ver [] db = db"
| "traffic L cfg ver (Request D lr ep req # ops) db = traffic L cfg ver ops (snd (route L cfg ver D lr ep req db))"
| "traffic L cfg ver (FreshNonce v t # ops) db = traffic L cfg ver ops (snd (generate_nonce cfg v t db))"
| "traffic L cfg ver (PruneRound t # ops) db = traffic L cfg ver ops (snd (prune_round cfg t db))"

lemma traffic_spent:
  "nonce_spent db n \<Longrightarrow> (\<forall>t. FreshNonce n t \<notin> set ops) \<Longrightarrow> nonce_spent (traffic L cfg ver ops db) n"
proof (induction ops arbitrary: db)
  case (Cons op ops)
  have rest: "\<forall>t. FreshNonce n t \<notin> set ops" using Cons.prems(2) by simp
  show ?case
  proof (cases op)
    case (Request D lr ep req)
    have "nonce_spent (snd (route L cfg ver D lr ep req db)) n"
      by (rule route_spent_stable_all) (rule Cons.prems(1))
    from Cons.IH [OF this rest] show ?thesis by (simp only: Request traffic.simps)
  next
    case (FreshNonce v t)
    then have "nonce_spent (snd (generate_nonce cfg v t db)) n"
      using Cons.prems by (auto simp: nonce_spent_def generate_nonce_cases)
    from Cons.IH [OF this rest] show ?thesis by (simp only: FreshNonce traffic.simps)
  next
    case (PruneRound t)
    have "nonce_spent (snd (prune_round cfg t db)) n"
      using Cons.prems(1) by (auto simp: nonce_spent_def prune_round_def prune_nonces_def tdelete_def)
    from Cons.IH [OF this rest] show ?thesis by (simp only: PruneRound traffic.simps)
  qed
qed simp

section \<open>Facts on the recovery at start-up\<close>

lemma reset_result:
  "\<forall>r \<in> set (orders (reset_processing_orders db)). o_status r \<noteq> ''processing''"
  "\<forall>z \<in> set (authorizations (reset_processing_orders db)). z_status z \<noteq> ''processing''"
  "length (orders (reset_processing_orders db)) = length (orders db)"
  "k < length (orders db) \<Longrightarrow> orders (reset_processing_orders db) ! k =
     (if o_status (orders db ! k) = ''processing''
      then (orders db ! k)\<lparr>o_status := ''invalid'', o_error := Some interrupted_order_error\<rparr>
      else orders db ! k)"
  "accounts (reset_processing_orders db) = accounts db"
  "certificates (reset_processing_orders db) = certificates db"
  by (auto simp: reset_processing_orders_def tupdate_def)

end
