(* ===== verification/Relay.thy ===== *)
theory Relay
  imports App
begin

text \<open>
  The running relay as a step relation.  Its state is the database, the work in flight and a log of
  what happened.  Requests, background tasks, the nonce prune loop and restarts interleave freely.
  A request may run without interruption (\<open>plain_request\<close>); where a handler or task awaits between
  reading and writing it is cut, so that other steps may come between: after the signature was
  checked, after the nonce was consumed, after the look-ups of the body, and between the two commits
  that end an issuance.  A verified payload is not tied to the route it was sent to, which only adds
  behaviours.  The invariant ties every step towards issuance back to a successful HTTP-01
  validation of the same domain under the key of the account that owns the order.
\<close>

section \<open>State\<close>

datatype job =
    Authed jws_parts string
  | Verified json string
  | AccountOpen account_plan
  | OrderOpen draws string "acme_identifier list"
  | KeyOpen string account_row string
  | NonceOpen
  | AckOpen ack_plan
  | FinalizeOpen finalize_plan
  | Task task
  | Validating rc_plan
  | Waiting string string string
  | Issuing string string string
  | Returned string "exc + string"
  | Stored string string

datatype event =
    Begun rc_plan string string
  | Validated rc_plan "nat \<Rightarrow> network"
  | Dispatched string string string
  | Issued string string string

record relay =
  rl_db :: database
  rl_jobs :: "job list"
  rl_log :: "event list"

definition splits_up :: "endpoint \<Rightarrow> bool" where
  "splits_up ep = (case ep of FinalizeOrder _ \<Rightarrow> True | AckChallenge _ \<Rightarrow> True | _ \<Rightarrow> False)"

definition dispatched :: "task list \<Rightarrow> event list" where
  "dispatched ts = concat (map (\<lambda>t. case t of ProcessFinalize i d c \<Rightarrow> [Dispatched i d c] | _ \<Rightarrow> []) ts)"

definition issuing_domains :: "job list \<Rightarrow> string list" where
  "issuing_domains js = concat (map (\<lambda>j. case j of Issuing _ d _ \<Rightarrow> [d] | _ \<Rightarrow> []) js)"

section \<open>Steps\<close>

inductive relay_step ::
  "'k libs \<Rightarrow> settings \<Rightarrow> string \<Rightarrow> (string \<Rightarrow> string list) \<Rightarrow> relay \<Rightarrow> relay \<Rightarrow> bool"
  for L cfg ver bases where
  plain_request:
    "\<not> splits_up ep \<Longrightarrow> route L cfg ver D lr ep req (rl_db s) = (rep, db') \<Longrightarrow>
     relay_step L cfg ver bases s (s\<lparr>rl_db := db'\<rparr>)"
| issue_nonce:
    "generate_nonce cfg v now (rl_db s) = (r, db') \<Longrightarrow>
     relay_step L cfg ver bases s (s\<lparr>rl_db := db'\<rparr>)"
| prune:
    "prune_round cfg now (rl_db s) = (r, db') \<Longrightarrow>
     relay_step L cfg ver bases s (s\<lparr>rl_db := db'\<rparr>)"
| nonce_open:
    "\<not> nonce_cap_reached cfg (rl_db s) \<Longrightarrow>
     relay_step L cfg ver bases s (s\<lparr>rl_jobs := rl_jobs s @ [NonceOpen]\<rparr>)"
| nonce_close:
    "rl_jobs s = js @ NonceOpen # ks \<Longrightarrow> insert_nonce v now (rl_db s) = (r, db') \<Longrightarrow>
     relay_step L cfg ver bases s (s\<lparr>rl_db := db', rl_jobs := js @ ks\<rparr>)"
| auth_open:
    "authentic L cfg req (rl_db s) p key acct \<Longrightarrow>
     relay_step L cfg ver bases s (s\<lparr>rl_jobs := rl_jobs s @ [Authed p acct]\<rparr>)"
| auth_close:
    "rl_jobs s = js @ Authed p acct # ks \<Longrightarrow>
     consume_nonce_value cfg now (dict_get ''nonce'' (JStr '''') (jp_protected p)) (rl_db s) = (Inr u, db') \<Longrightarrow>
     decode_jws_payload (jp_payload_b64 p) = Inr payload \<Longrightarrow>
     relay_step L cfg ver bases s (s\<lparr>rl_db := db', rl_jobs := js @ ks @ [Verified payload acct]\<rparr>)"
| auth_lost:
    "rl_jobs s = js @ Authed p acct # ks \<Longrightarrow>
     consume_nonce_value cfg now (dict_get ''nonce'' (JStr '''') (jp_protected p)) (rl_db s) = (r, db') \<Longrightarrow>
     relay_step L cfg ver bases s (s\<lparr>rl_db := db', rl_jobs := js @ ks\<rparr>)"
| answered:
    "rl_jobs s = js @ Verified payload acct # ks \<Longrightarrow>
     relay_step L cfg ver bases s (s\<lparr>rl_jobs := js @ ks\<rparr>)"
| account_open:
    "rl_jobs s = js @ Verified payload acct # ks \<Longrightarrow>
     new_account_prepare L cfg D req payload (rl_db s) = Inr (Inr aplan) \<Longrightarrow>
     relay_step L cfg ver bases s (s\<lparr>rl_jobs := js @ ks @ [AccountOpen aplan]\<rparr>)"
| account_close:
    "rl_jobs s = js @ AccountOpen aplan # ks \<Longrightarrow> new_account_commit cfg aplan (rl_db s) = (r, db') \<Longrightarrow>
     relay_step L cfg ver bases s (s\<lparr>rl_db := db', rl_jobs := js @ ks\<rparr>)"
| order_open:
    "rl_jobs s = js @ Verified payload acct # ks \<Longrightarrow>
     new_order_prepare L cfg (clock D 1) payload acct (rl_db s) = Inr ids \<Longrightarrow>
     relay_step L cfg ver bases s (s\<lparr>rl_jobs := js @ ks @ [OrderOpen D acct ids]\<rparr>)"
| order_close:
    "rl_jobs s = js @ OrderOpen D acct ids # ks \<Longrightarrow> new_order_commit cfg D acct ids (rl_db s) = (r, db') \<Longrightarrow>
     relay_step L cfg ver bases s (s\<lparr>rl_db := db', rl_jobs := js @ ks\<rparr>)"
| key_open:
    "rl_jobs s = js @ Verified payload acct # ks \<Longrightarrow>
     key_change_check L cfg req payload acct (rl_db s) = Inr (a, k) \<Longrightarrow>
     relay_step L cfg ver bases s (s\<lparr>rl_jobs := js @ ks @ [KeyOpen acct a k]\<rparr>)"
| key_close:
    "rl_jobs s = js @ KeyOpen acct a k # ks \<Longrightarrow> key_change_commit cfg acct a k (rl_db s) = (r, db') \<Longrightarrow>
     relay_step L cfg ver bases s (s\<lparr>rl_db := db', rl_jobs := js @ ks\<rparr>)"
| ack_open:
    "rl_jobs s = js @ Verified payload acct # ks \<Longrightarrow> ack_prepare i acct (rl_db s) = Inr plan \<Longrightarrow>
     relay_step L cfg ver bases s (s\<lparr>rl_jobs := js @ ks @ [AckOpen plan]\<rparr>)"
| ack_close:
    "rl_jobs s = js @ AckOpen plan # ks \<Longrightarrow> ack_commit cfg plan (rl_db s) = (Inr (res, ts), db') \<Longrightarrow>
     relay_step L cfg ver bases s (s\<lparr>rl_db := db', rl_jobs := js @ ks @ map Task ts\<rparr>)"
| finalize_open:
    "rl_jobs s = js @ Verified payload acct # ks \<Longrightarrow> finalize_prepare L i payload acct (rl_db s) = Inr plan \<Longrightarrow>
     relay_step L cfg ver bases s (s\<lparr>rl_jobs := js @ ks @ [FinalizeOpen plan]\<rparr>)"
| finalize_close:
    "rl_jobs s = js @ FinalizeOpen plan # ks \<Longrightarrow> finalize_commit cfg plan (rl_db s) = (Inr (res, ts), db') \<Longrightarrow>
     relay_step L cfg ver bases s
       (s\<lparr>rl_db := db', rl_jobs := js @ ks @ map Task ts, rl_log := rl_log s @ dispatched ts\<rparr>)"
| finalize_lost:
    "rl_jobs s = js @ FinalizeOpen plan # ks \<Longrightarrow> finalize_commit cfg plan (rl_db s) = (Inl e, db') \<Longrightarrow>
     relay_step L cfg ver bases s (s\<lparr>rl_db := db', rl_jobs := js @ ks\<rparr>)"
| challenge_start:
    "rl_jobs s = js @ Task (RunChallenge i j) # ks \<Longrightarrow> rc_begin L i j (rl_db s) = (Inr (Some plan), db') \<Longrightarrow>
     get_order_row j (rl_db s) = Some ord \<Longrightarrow> get_account (o_account_id ord) (rl_db s) = Some a \<Longrightarrow>
     relay_step L cfg ver bases s
       (s\<lparr>rl_db := db', rl_jobs := js @ ks @ [Validating plan],
          rl_log := rl_log s @ [Begun plan (a_id a) (a_public_key a)]\<rparr>)"
| challenge_stop:
    "rl_jobs s = js @ Task (RunChallenge i j) # ks \<Longrightarrow> rc_begin L i j (rl_db s) = (r, db') \<Longrightarrow>
     (\<forall>plan. r \<noteq> Inr (Some plan)) \<Longrightarrow>
     relay_step L cfg ver bases s (s\<lparr>rl_db := db', rl_jobs := js @ ks\<rparr>)"
| challenge_finish:
    "rl_jobs s = js @ Validating plan # ks \<Longrightarrow>
     validate_http01 cfg nets (rp_domain plan) (rp_token plan) (rp_expected plan) = outcome \<Longrightarrow>
     relay_step L cfg ver bases s
       (s\<lparr>rl_db := rc_finish (rp_authz_id plan) (rp_order_id plan) outcome (rl_db s),
          rl_jobs := js @ ks,
          rl_log := rl_log s @ (case outcome of Inr _ \<Rightarrow> [Validated plan nets] | Inl _ \<Rightarrow> [])\<rparr>)"
| issue_start:
    "rl_jobs s = js @ Task (ProcessFinalize i d c) # ks \<Longrightarrow>
     relay_step L cfg ver bases s
       (s\<lparr>rl_jobs := js @ ks @ (if pf_begin i (rl_db s) then [Waiting i d c] else [])\<rparr>)"
| issue_lock:
    "rl_jobs s = js @ Waiting i d c # ks \<Longrightarrow> d \<notin> set (issuing_domains (js @ ks)) \<Longrightarrow>
     relay_step L cfg ver bases s (s\<lparr>rl_jobs := js @ ks @ [Issuing i d c]\<rparr>)"
| issue_return:
    "rl_jobs s = js @ Issuing i d c # ks \<Longrightarrow>
     relay_step L cfg ver bases s
       (s\<lparr>rl_jobs := js @ ks @ [Returned i outcome],
          rl_log := rl_log s @ (case outcome of Inr pem \<Rightarrow> [Issued i d pem] | Inl _ \<Rightarrow> [])\<rparr>)"
| issue_finish:
    "rl_jobs s = js @ Returned i outcome # ks \<Longrightarrow> pf_finish L bases D i outcome (rl_db s) = (r, db') \<Longrightarrow>
     relay_step L cfg ver bases s (s\<lparr>rl_db := db', rl_jobs := js @ ks\<rparr>)"
| issue_store:
    "rl_jobs s = js @ Returned i (Inr pem) # ks \<Longrightarrow> pf_store L D i pem (rl_db s) = (Inr (Some k), db') \<Longrightarrow>
     relay_step L cfg ver bases s (s\<lparr>rl_db := db', rl_jobs := js @ ks @ [Stored i k]\<rparr>)"
| issue_done:
    "rl_jobs s = js @ Stored i k # ks \<Longrightarrow>
     relay_step L cfg ver bases s (s\<lparr>rl_db := pf_done i k (rl_db s), rl_jobs := js @ ks\<rparr>)"
| restart:
    "lifespan_start cfg (rl_db s) = (Inr (), db') \<Longrightarrow>
     relay_step L cfg ver bases s (s\<lparr>rl_db := db', rl_jobs := []\<rparr>)"

definition relay_init :: relay where
  "relay_init = \<lparr>rl_db = empty_db, rl_jobs = [], rl_log = []\<rparr>"

definition reachable ::
  "'k libs \<Rightarrow> settings \<Rightarrow> string \<Rightarrow> (string \<Rightarrow> string list) \<Rightarrow> relay \<Rightarrow> bool" where
  "reachable L cfg ver bases s \<longleftrightarrow> (relay_step L cfg ver bases)\<^sup>*\<^sup>* relay_init s"

text \<open>An uninterrupted verification.\<close>

lemma verified_stepE:
  assumes "verify_jws L cfg now req (rl_db s) = (Inr (payload, acct), db')"
  obtains p where "relay_step L cfg ver bases s (s\<lparr>rl_jobs := rl_jobs s @ [Authed p acct]\<rparr>)"
    "relay_step L cfg ver bases (s\<lparr>rl_jobs := rl_jobs s @ [Authed p acct]\<rparr>)
       (s\<lparr>rl_db := db', rl_jobs := rl_jobs s @ [Verified payload acct]\<rparr>)"
proof -
  from assms obtain p key n where a: "authentic L cfg req (rl_db s) p key acct" "request_nonce p = Some n"
    "consume_nonce cfg now n (rl_db s) = (Inr (), db')" "decode_jws_payload (jp_payload_b64 p) = Inr payload"
    by (auto simp: verify_jws_Inr_iff)
  let ?s1 = "s\<lparr>rl_jobs := rl_jobs s @ [Authed p acct]\<rparr>"
  have "consume_nonce_value cfg now (dict_get ''nonce'' (JStr '''') (jp_protected p)) (rl_db ?s1) = (Inr (), db')"
    using a(2,3) by (auto simp: request_nonce_def consume_nonce_value_Inr)
  then have "relay_step L cfg ver bases ?s1 (?s1\<lparr>rl_db := db', rl_jobs := rl_jobs s @ [] @ [Verified payload acct]\<rparr>)"
    by (intro relay_step.auth_close [OF _ _ a(4)]) simp_all
  with that [OF relay_step.auth_open [OF a(1)]] show ?thesis by simp
qed

lemma reachable_invariant:
  assumes "reachable L cfg ver bases s" "I relay_init"
    "\<And>s t. I s \<Longrightarrow> relay_step L cfg ver bases s t \<Longrightarrow> I t"
  shows "I s"
proof -
  have "(relay_step L cfg ver bases)\<^sup>*\<^sup>* relay_init s" using assms(1) by (simp add: reachable_def)
  then show ?thesis by (induction rule: rtranclp_induct) (auto intro: assms(2,3))
qed

section \<open>The part of the tables that never changes\<close>

definition ostat :: "order_row \<Rightarrow> string \<times> string \<times> string" where
  "ostat r = (o_id r, o_account_id r, o_identifiers r)"

definition zstat :: "authz_row \<Rightarrow> string \<times> string \<times> string \<times> string option" where
  "zstat z = (z_id z, z_order_id z, z_identifier z, z_challenge_token z)"

type_synonym skel = "(string \<times> string \<times> string) list \<times> (string \<times> string \<times> string \<times> string option) list"

definition skeleton :: "database \<Rightarrow> skel" where
  "skeleton db = (map ostat (orders db), map zstat (authorizations db))"

definition zorder :: "string \<times> string \<times> string \<times> string option \<Rightarrow> string" where
  "zorder z = fst (snd z)"

definition skel_le :: "skel \<Rightarrow> skel \<Rightarrow> bool" where
  "skel_le a b \<longleftrightarrow> set (fst a) \<subseteq> set (fst b) \<and> set (snd a) \<subseteq> set (snd b) \<and>
     (\<forall>z \<in> set (snd b) - set (snd a). zorder z \<notin> fst ` set (fst a))"

lemma skel_le_refl [simp, intro]: "skel_le a a"
  by (simp add: skel_le_def)

lemma skel_le_trans: "skel_le a b \<Longrightarrow> skel_le b c \<Longrightarrow> skel_le a c"
  unfolding skel_le_def by blast

text \<open>Every order names one domain, its authorizations name the same, and there is one.\<close>

definition skel_wf :: "skel \<Rightarrow> bool" where
  "skel_wf a \<longleftrightarrow> distinct (map fst (fst a)) \<and> distinct (map fst (snd a)) \<and>
     (\<forall>(i, acct, txt) \<in> set (fst a). \<exists>d. txt = dump_identifiers [d] \<and>
        (\<exists>z \<in> set (snd a). zorder z = i) \<and>
        (\<forall>(zi, zo, v, t) \<in> set (snd a). zo = i \<longrightarrow> v = id_value d)) \<and>
     (\<forall>z \<in> set (snd a). zorder z \<in> fst ` set (fst a))"

section \<open>Proof of control\<close>

definition proved ::
  "'k libs \<Rightarrow> settings \<Rightarrow> event list \<Rightarrow> skel \<Rightarrow> string \<times> string \<times> string \<times> string option \<Rightarrow> bool" where
  "proved L cfg log a z \<longleftrightarrow>
     (\<exists>plan nets acct pk txt. Validated plan nets \<in> set log \<and> Begun plan acct pk \<in> set log \<and>
        z = (rp_authz_id plan, rp_order_id plan, rp_domain plan, Some (rp_token plan)) \<and>
        (rp_order_id plan, acct, txt) \<in> set (fst a) \<and>
        key_authorization L (rp_token plan) pk = Inr (rp_expected plan) \<and>
        validate_http01 cfg nets (rp_domain plan) (rp_token plan) (rp_expected plan) = Inr ())"

definition order_proved :: "'k libs \<Rightarrow> settings \<Rightarrow> event list \<Rightarrow> skel \<Rightarrow> string \<Rightarrow> bool" where
  "order_proved L cfg log a i \<longleftrightarrow> i \<in> fst ` set (fst a) \<and>
     (\<forall>z \<in> set (snd a). zorder z = i \<longrightarrow> proved L cfg log a z)"

definition order_domain :: "skel \<Rightarrow> string \<Rightarrow> string \<Rightarrow> bool" where
  "order_domain a i v \<longleftrightarrow> (\<exists>acct d. (i, acct, dump_identifiers [d]) \<in> set (fst a) \<and> id_value d = v)"

definition authorized :: "'k libs \<Rightarrow> settings \<Rightarrow> event list \<Rightarrow> skel \<Rightarrow> string \<Rightarrow> string \<Rightarrow> bool" where
  "authorized L cfg log a i v \<longleftrightarrow> order_proved L cfg log a i \<and> order_domain a i v"

lemma proved_mono:
  "set log \<subseteq> set log' \<Longrightarrow> skel_le a b \<Longrightarrow> proved L cfg log a z \<Longrightarrow> proved L cfg log' b z"
  unfolding proved_def skel_le_def by blast

lemma order_proved_mono:
  "set log \<subseteq> set log' \<Longrightarrow> skel_le a b \<Longrightarrow> order_proved L cfg log a i \<Longrightarrow> order_proved L cfg log' b i"
proof -
  assume sub: "set log \<subseteq> set log'" and le: "skel_le a b" and p: "order_proved L cfg log a i"
  have "proved L cfg log' b z" if z: "z \<in> set (snd b)" "zorder z = i" for z
  proof -
    have "z \<in> set (snd a)" using le p z by (auto simp: skel_le_def order_proved_def)
    with p z(2) have "proved L cfg log a z" by (simp add: order_proved_def)
    then show ?thesis by (rule proved_mono [OF sub le])
  qed
  moreover have "i \<in> fst ` set (fst b)" using le p by (auto simp: skel_le_def order_proved_def)
  ultimately show ?thesis by (simp add: order_proved_def)
qed

lemma authorized_mono:
  "set log \<subseteq> set log' \<Longrightarrow> skel_le a b \<Longrightarrow> authorized L cfg log a i v \<Longrightarrow> authorized L cfg log' b i v"
  unfolding authorized_def order_domain_def using order_proved_mono [of log log' a b]
  by (auto simp: skel_le_def) blast

text \<open>An authorization to issue rests on a validation of that very domain.\<close>

lemma authorized_validated:
  assumes "authorized L cfg log a i v" "skel_wf a"
  obtains plan nets acct pk ids where "Validated plan nets \<in> set log" "Begun plan acct pk \<in> set log"
    "rp_order_id plan = i" "rp_domain plan = v" "(i, acct, ids) \<in> set (fst a)"
    "key_authorization L (rp_token plan) pk = Inr (rp_expected plan)"
    "validate_http01 cfg nets v (rp_token plan) (rp_expected plan) = Inr ()"
proof -
  from assms(1) obtain acct d where o: "(i, acct, dump_identifiers [d]) \<in> set (fst a)" "id_value d = v"
    by (auto simp: authorized_def order_domain_def)
  from assms(2) o(1) obtain d' where d': "dump_identifiers [d] = dump_identifiers [d']"
    "\<exists>z \<in> set (snd a). zorder z = i" "\<forall>(zi, zo, v, t) \<in> set (snd a). zo = i \<longrightarrow> v = id_value d'"
    unfolding skel_wf_def by fastforce
  have "map identifier_json [d] = map identifier_json [d']"
    using d'(1) load_dump_identifiers [of "[d]"] load_dump_identifiers [of "[d']"] by simp
  then have dd: "d = d'" by (metis identifier_of_json_json list.inject list.simps(9) option.inject)
  obtain z where z: "z \<in> set (snd a)" "zorder z = i" using d'(2) by blast
  obtain zi zo w t where zt: "z = (zi, zo, w, t)" by (cases z) auto
  have w: "w = v" using d'(3) z zt o(2) dd by (auto simp: zorder_def)
  have "proved L cfg log a z" using assms(1) z by (simp add: authorized_def order_proved_def)
  then show ?thesis using that zt w z(2) by (auto simp: proved_def zorder_def)
qed

end
