(* ===== verification/RelaySafety.thy ===== *)
theory RelaySafety
  imports Relay
begin

text \<open>
  The safety invariant of the running relay and its preservation by every step.  \<open>quiet\<close> is the
  effect of a step that neither creates rows nor makes an order ready or an authorization valid;
  only two steps are not quiet, the creation of an order and the end of a validation.
\<close>

section \<open>The invariant\<close>

definition ready_ok :: "'k libs \<Rightarrow> settings \<Rightarrow> event list \<Rightarrow> database \<Rightarrow> bool" where
  "ready_ok L cfg log db \<longleftrightarrow>
     (\<forall>r \<in> set (orders db). o_status r = ''ready'' \<longrightarrow> order_proved L cfg log (skeleton db) (o_id r))"

definition valid_ok :: "'k libs \<Rightarrow> settings \<Rightarrow> event list \<Rightarrow> database \<Rightarrow> bool" where
  "valid_ok L cfg log db \<longleftrightarrow>
     (\<forall>z \<in> set (authorizations db). z_status z = ''valid'' \<longrightarrow> proved L cfg log (skeleton db) (zstat z))"

definition cert_ok :: "event list \<Rightarrow> database \<Rightarrow> bool" where
  "cert_ok log db \<longleftrightarrow>
     (\<forall>c \<in> set (certificates db). \<exists>d. Issued (c_order_id c) d (c_pem_chain c) \<in> set log)"

definition task_ok :: "'k libs \<Rightarrow> settings \<Rightarrow> event list \<Rightarrow> skel \<Rightarrow> task \<Rightarrow> bool" where
  "task_ok L cfg log a t = (case t of
     RunChallenge i j \<Rightarrow> \<exists>d tok. (i, j, d, tok) \<in> set (snd a)
   | ProcessFinalize i d c \<Rightarrow> authorized L cfg log a i d)"

definition job_ok :: "'k libs \<Rightarrow> settings \<Rightarrow> event list \<Rightarrow> skel \<Rightarrow> job \<Rightarrow> bool" where
  "job_ok L cfg log a job = (case job of
     AckOpen p \<Rightarrow> \<exists>d tok. (ap_authz_id p, ap_order_id p, d, tok) \<in> set (snd a)
   | Task t \<Rightarrow> task_ok L cfg log a t
   | Validating p \<Rightarrow>
       (rp_authz_id p, rp_order_id p, rp_domain p, Some (rp_token p)) \<in> set (snd a) \<and>
       (\<exists>acct pk ids. Begun p acct pk \<in> set log \<and> (rp_order_id p, acct, ids) \<in> set (fst a) \<and>
          key_authorization L (rp_token p) pk = Inr (rp_expected p))
   | FinalizeOpen p \<Rightarrow> authorized L cfg log a (fp_order_id p) (fp_domain p)
   | Waiting i d c \<Rightarrow> authorized L cfg log a i d
   | Issuing i d c \<Rightarrow> authorized L cfg log a i d
   | OrderOpen D acct ids \<Rightarrow> \<exists>i. ids = [i]
   | Returned i outcome \<Rightarrow> \<forall>pem. outcome = Inr pem \<longrightarrow> (\<exists>d. Issued i d pem \<in> set log)
   | _ \<Rightarrow> True)"

definition event_ok :: "'k libs \<Rightarrow> settings \<Rightarrow> event list \<Rightarrow> skel \<Rightarrow> event \<Rightarrow> bool" where
  "event_ok L cfg log a e = (case e of
     Dispatched i d c \<Rightarrow> authorized L cfg log a i d
   | Issued i d pem \<Rightarrow> authorized L cfg log a i d
   | _ \<Rightarrow> True)"

definition relay_inv :: "'k libs \<Rightarrow> settings \<Rightarrow> relay \<Rightarrow> bool" where
  "relay_inv L cfg s \<longleftrightarrow>
     skel_wf (skeleton (rl_db s)) \<and> ready_ok L cfg (rl_log s) (rl_db s) \<and>
     valid_ok L cfg (rl_log s) (rl_db s) \<and> cert_ok (rl_log s) (rl_db s) \<and>
     (\<forall>j \<in> set (rl_jobs s). job_ok L cfg (rl_log s) (skeleton (rl_db s)) j) \<and>
     (\<forall>e \<in> set (rl_log s). event_ok L cfg (rl_log s) (skeleton (rl_db s)) e)"

lemma job_ok_mono:
  assumes "set log \<subseteq> set log'" "skel_le a b" "job_ok L cfg log a j"
  shows "job_ok L cfg log' b j"
proof -
  have fs: "set (fst a) \<subseteq> set (fst b)" "set (snd a) \<subseteq> set (snd b)"
    using assms(2) by (auto simp: skel_le_def)
  note am = authorized_mono [OF assms(1,2)]
  show ?thesis
    using assms(1,3) fs am
    by (cases j) (auto simp: job_ok_def task_ok_def subset_iff split: task.splits, blast+)
qed

lemma event_ok_mono:
  "set log \<subseteq> set log' \<Longrightarrow> skel_le a b \<Longrightarrow> event_ok L cfg log a e \<Longrightarrow> event_ok L cfg log' b e"
  by (cases e) (auto simp: event_ok_def intro: authorized_mono)

text \<open>One rule for every step: what is new has to be justified, the rest follows.\<close>

lemma relay_inv_stepI:
  assumes "relay_inv L cfg s" "skel_le (skeleton (rl_db s)) (skeleton db')" "set (rl_log s) \<subseteq> set log'"
    "skel_wf (skeleton db')" "ready_ok L cfg log' db'" "valid_ok L cfg log' db'"
    "\<forall>c \<in> set (certificates db'). c \<in> set (certificates (rl_db s)) \<or>
       (\<exists>d. Issued (c_order_id c) d (c_pem_chain c) \<in> set log')"
    "\<forall>j \<in> set jobs'. j \<in> set (rl_jobs s) \<or> job_ok L cfg log' (skeleton db') j"
    "\<forall>e \<in> set log'. e \<in> set (rl_log s) \<or> event_ok L cfg log' (skeleton db') e"
  shows "relay_inv L cfg \<lparr>rl_db = db', rl_jobs = jobs', rl_log = log'\<rparr>"
proof -
  have "cert_ok log' db'"
    using assms(1,3,7) unfolding relay_inv_def cert_ok_def by (metis subsetD)
  moreover have "\<forall>j \<in> set jobs'. job_ok L cfg log' (skeleton db') j"
    using assms(1,8) job_ok_mono [OF assms(3,2)] unfolding relay_inv_def by blast
  moreover have "\<forall>e \<in> set log'. event_ok L cfg log' (skeleton db') e"
    using assms(1,9) event_ok_mono [OF assms(3,2)] unfolding relay_inv_def by blast
  ultimately show ?thesis using assms(4,5,6) by (simp add: relay_inv_def)
qed

section \<open>Quiet effects\<close>

definition quiet :: "database \<Rightarrow> database \<Rightarrow> bool" where
  "quiet db db' \<longleftrightarrow> skeleton db' = skeleton db \<and>
     (\<forall>r \<in> set (orders db'). o_status r = ''ready'' \<longrightarrow>
        (\<exists>q \<in> set (orders db). o_id q = o_id r \<and> o_status q = ''ready'')) \<and>
     (\<forall>z \<in> set (authorizations db'). z_status z = ''valid'' \<longrightarrow>
        (\<exists>y \<in> set (authorizations db). zstat y = zstat z \<and> z_status y = ''valid''))"

lemma quiet_same: "orders db' = orders db \<Longrightarrow> authorizations db' = authorizations db \<Longrightarrow> quiet db db'"
  by (auto simp: quiet_def skeleton_def)

lemma quiet_trans: "quiet a b \<Longrightarrow> quiet b c \<Longrightarrow> quiet a c"
  unfolding quiet_def
proof (elim conjE, intro conjI ballI impI)
  fix r
  assume "r \<in> set (orders c)" "o_status r = ''ready''"
    and 1: "\<forall>r \<in> set (orders c). o_status r = ''ready'' \<longrightarrow>
      (\<exists>q \<in> set (orders b). o_id q = o_id r \<and> o_status q = ''ready'')"
    and 2: "\<forall>r \<in> set (orders b). o_status r = ''ready'' \<longrightarrow>
      (\<exists>q \<in> set (orders a). o_id q = o_id r \<and> o_status q = ''ready'')"
  then obtain q where "q \<in> set (orders b)" "o_id q = o_id r" "o_status q = ''ready''" by blast
  with 2 show "\<exists>q \<in> set (orders a). o_id q = o_id r \<and> o_status q = ''ready''" by metis
next
  fix z
  assume "z \<in> set (authorizations c)" "z_status z = ''valid''"
    and 1: "\<forall>z \<in> set (authorizations c). z_status z = ''valid'' \<longrightarrow>
      (\<exists>y \<in> set (authorizations b). zstat y = zstat z \<and> z_status y = ''valid'')"
    and 2: "\<forall>z \<in> set (authorizations b). z_status z = ''valid'' \<longrightarrow>
      (\<exists>y \<in> set (authorizations a). zstat y = zstat z \<and> z_status y = ''valid'')"
  then obtain y where "y \<in> set (authorizations b)" "zstat y = zstat z" "z_status y = ''valid''" by blast
  with 2 show "\<exists>y \<in> set (authorizations a). zstat y = zstat z \<and> z_status y = ''valid''" by metis
qed simp

lemma map_tupdate: "(\<And>r. g (f r) = g r) \<Longrightarrow> map g (tupdate P f rows) = map g rows"
  by (simp add: tupdate_def)

lemma quiet_orders:
  assumes "orders db' = tupdate P f (orders db)" "authorizations db' = authorizations db"
    "\<And>r. ostat (f r) = ostat r" "\<And>r. o_status (f r) = ''ready'' \<Longrightarrow> o_status r = ''ready''"
  shows "quiet db db'"
proof -
  have "o_id (f r) = o_id r" for r using assms(3) [of r] by (simp add: ostat_def)
  with assms(4) have "\<exists>q \<in> set (orders db). o_id q = o_id r \<and> o_status q = ''ready''"
    if "r \<in> set (orders db')" "o_status r = ''ready''" for r
    using that by (auto simp: assms(1) set_tupdate split: if_splits)
  then show ?thesis using assms(1-3) by (auto simp: quiet_def skeleton_def map_tupdate)
qed

lemma quiet_authzs:
  assumes "authorizations db' = tupdate P f (authorizations db)" "orders db' = orders db"
    "\<And>r. zstat (f r) = zstat r" "\<And>r. z_status (f r) = ''valid'' \<Longrightarrow> z_status r = ''valid''"
  shows "quiet db db'"
proof -
  have "\<exists>y \<in> set (authorizations db). zstat y = zstat z \<and> z_status y = ''valid''"
    if "z \<in> set (authorizations db')" "z_status z = ''valid''" for z
    using that assms(3,4) by (auto simp: assms(1) set_tupdate split: if_splits)
  then show ?thesis using assms(1-3) by (auto simp: quiet_def skeleton_def map_tupdate)
qed

lemma stat_updates [simp]:
  "ostat (r\<lparr>o_status := st\<rparr>) = ostat r" "ostat (r\<lparr>o_error := e\<rparr>) = ostat r"
  "ostat (r\<lparr>o_cert_id := c\<rparr>) = ostat r" "zstat (z\<lparr>z_status := st\<rparr>) = zstat z"
  "zstat (z\<lparr>z_error := e\<rparr>) = zstat z"
  by (simp_all add: ostat_def zstat_def)

lemma quiet_update_order:
  assumes "\<And>r. ostat (f r) = ostat r" "\<And>r. o_status (f r) = ''ready'' \<Longrightarrow> o_status r = ''ready''"
  shows "quiet db (update_order i f db)"
  by (rule quiet_orders [where P = "\<lambda>r. o_id r = i" and f = f]) (simp_all add: assms)

lemma quiet_update_authz:
  assumes "\<And>r. zstat (f r) = zstat r" "\<And>r. z_status (f r) = ''valid'' \<Longrightarrow> z_status r = ''valid''"
  shows "quiet db (update_authz i f db)"
  by (rule quiet_authzs [where P = "\<lambda>r. z_id r = i" and f = f]) (simp_all add: assms)

lemma quiet_claim: "quiet db (snd (claim_order i db))"
  by (rule quiet_orders [where P = "\<lambda>r. o_id r = i \<and> o_status r = ''ready''"
        and f = "\<lambda>r. r\<lparr>o_status := ''processing''\<rparr>"]) (simp_all add: claim_order_db)

lemma quiet_ack: "quiet db (ack_update plan db)"
proof -
  let ?z = "update_authz (ap_authz_id plan) (\<lambda>r. r\<lparr>z_status := ''processing''\<rparr>) db"
  have z: "quiet db ?z" by (rule quiet_update_authz) simp_all
  have "quiet ?z (update_order (ap_order_id plan) (\<lambda>r. r\<lparr>o_status := ''processing''\<rparr>) ?z)"
    by (rule quiet_update_order) simp_all
  with z show ?thesis by (auto simp: ack_update_def Let_def intro: quiet_trans quiet_same)
qed

lemma quiet_fail: "quiet db (fail_authz i j p db)"
  unfolding fail_authz_def by (rule quiet_trans [OF quiet_update_authz quiet_update_order]) simp_all

lemma quiet_rc_begin: "rc_begin L i j db = (r, db') \<Longrightarrow> quiet db db'"
  by (auto dest!: rc_begin_db intro: quiet_fail quiet_same)

lemma quiet_pf_finish: "pf_finish L bases D i outcome db = (r, db') \<Longrightarrow> quiet db db'"
proof -
  assume "pf_finish L bases D i outcome db = (r, db')"
  then consider "db' = db"
    | e where "db' = update_order i (\<lambda>r. r\<lparr>o_status := ''invalid'', o_error := Some e\<rparr>) db"
    | cs where "db' = update_order i (\<lambda>r. r\<lparr>o_cert_id := Some (uuid4 D 0), o_status := ''valid''\<rparr>) (db\<lparr>certificates := cs\<rparr>)"
    using pf_finish_db by blast
  then show ?thesis
  proof cases
    case 1
    then show ?thesis by (simp add: quiet_same)
  next
    case 2
    show ?thesis unfolding 2 by (rule quiet_update_order) simp_all
  next
    case 3
    have "quiet db (db\<lparr>certificates := cs\<rparr>)" by (rule quiet_same) simp_all
    then show ?thesis unfolding 3 by (rule quiet_trans) (rule quiet_update_order, simp_all)
  qed
qed

lemma quiet_reset: "quiet db (reset_processing_orders db)"
proof -
  let ?mid = "db\<lparr>orders := orders (reset_processing_orders db)\<rparr>"
  have "quiet db ?mid"
    by (rule quiet_orders [where P = "\<lambda>r. o_status r = ''processing''"
          and f = "\<lambda>r. r\<lparr>o_status := ''invalid'', o_error := Some interrupted_order_error\<rparr>"])
       (simp_all add: reset_processing_orders_def)
  moreover have "quiet ?mid (reset_processing_orders db)"
    by (rule quiet_authzs [where P = "\<lambda>r. z_status r = ''processing''"
          and f = "\<lambda>r. r\<lparr>z_status := ''invalid''\<rparr>"])
       (simp_all add: reset_processing_orders_def)
  ultimately show ?thesis by (rule quiet_trans)
qed

lemma quiet_verify: "verify_jws L cfg now req db = (r, db') \<Longrightarrow> quiet db db'"
  by (rule quiet_same) (simp_all add: verify_jws_frameD)

text \<open>A quiet step keeps the invariant when its new jobs, events and certificates are justified.\<close>

lemma relay_inv_quietI:
  assumes inv: "relay_inv L cfg s" and q: "quiet (rl_db s) db'"
    and log: "log' = rl_log s @ es"
    and certs: "\<forall>c \<in> set (certificates db'). c \<in> set (certificates (rl_db s)) \<or>
       (\<exists>d. Issued (c_order_id c) d (c_pem_chain c) \<in> set log')"
    and jobs: "\<forall>j \<in> set jobs'. j \<in> set (rl_jobs s) \<or> job_ok L cfg log' (skeleton (rl_db s)) j"
    and events: "\<forall>e \<in> set es. event_ok L cfg log' (skeleton (rl_db s)) e"
  shows "relay_inv L cfg \<lparr>rl_db = db', rl_jobs = jobs', rl_log = log'\<rparr>"
proof -
  have sk: "skeleton db' = skeleton (rl_db s)" using q by (simp add: quiet_def)
  have sub: "set (rl_log s) \<subseteq> set log'" using log by simp
  have "ready_ok L cfg log' db'"
    using inv q order_proved_mono [OF sub skel_le_refl]
    unfolding relay_inv_def ready_ok_def quiet_def by metis
  moreover have "valid_ok L cfg log' db'"
    using inv q proved_mono [OF sub skel_le_refl]
    unfolding relay_inv_def valid_ok_def quiet_def by metis
  ultimately show ?thesis
    using inv certs jobs events log sub
    by (intro relay_inv_stepI) (auto simp: sk relay_inv_def)
qed

section \<open>Creating an order\<close>

lemma skel_wf_extend:
  assumes "skel_wf a" "i \<notin> fst ` set (fst a)" "z \<notin> fst ` set (snd a)"
  shows "skel_wf (fst a @ [(i, acct, dump_identifiers [d])], snd a @ [(z, i, id_value d, t)])"
proof -
  have old: "\<forall>y \<in> set (snd a). zorder y \<noteq> i" using assms(1,2) by (auto simp: skel_wf_def)
  have each: "\<exists>e. ids = dump_identifiers [e] \<and> (\<exists>y \<in> set (snd a @ [(z, i, id_value d, t)]). zorder y = j) \<and>
      (\<forall>(yi, yo, v, u) \<in> set (snd a @ [(z, i, id_value d, t)]). yo = j \<longrightarrow> v = id_value e)"
    if mem: "(j, b, ids) \<in> set (fst a @ [(i, acct, dump_identifiers [d])])" for j b ids
  proof (cases "j = i")
    case True
    then have "ids = dump_identifiers [d]" using mem assms(2) by force
    with True old show ?thesis by (intro exI [of _ d]) (auto simp: zorder_def)
  next
    case False
    with mem have "(j, b, ids) \<in> set (fst a)" by auto
    with assms(1) obtain e where "ids = dump_identifiers [e]" "\<exists>y \<in> set (snd a). zorder y = j"
      "\<forall>(yi, yo, v, u) \<in> set (snd a). yo = j \<longrightarrow> v = id_value e"
      unfolding skel_wf_def by fastforce
    with False show ?thesis by (intro exI [of _ e]) auto
  qed
  have dist: "distinct (map fst (fst a @ [(i, acct, dump_identifiers [d])]))"
    "distinct (map fst (snd a @ [(z, i, id_value d, t)]))"
    using assms by (auto simp: skel_wf_def)
  have owner: "\<forall>y \<in> set (snd a @ [(z, i, id_value d, t)]). zorder y \<in> fst ` set (fst a @ [(i, acct, dump_identifiers [d])])"
    using assms(1) by (auto simp: skel_wf_def zorder_def)
  show ?thesis
    unfolding skel_wf_def fst_conv snd_conv using each dist owner by blast
qed

lemma skeleton_with_order:
  "skeleton (with_order D acct i db) =
     (fst (skeleton db) @ [(uuid4 D 0, acct, dump_identifiers [i])],
      snd (skeleton db) @ [(uuid4 D 1, uuid4 D 0, id_value i, Some (token D 0))])"
  by (simp add: skeleton_def with_order_def ostat_def zstat_def)

lemma relay_inv_new_order:
  assumes inv: "relay_inv L cfg s" and same: "orders db1 = orders (rl_db s)"
    "authorizations db1 = authorizations (rl_db s)" "certificates db1 = certificates (rl_db s)"
    and new: "uuid4 D 0 \<notin> set (map o_id (orders db1))" "uuid4 D 1 \<notin> set (map z_id (authorizations db1))"
    and jobs: "set jobs' \<subseteq> set (rl_jobs s)"
  shows "relay_inv L cfg (s\<lparr>rl_db := with_order D acct i db1, rl_jobs := jobs'\<rparr>)"
proof -
  let ?db' = "with_order D acct i db1" and ?a = "skeleton (rl_db s)"
  have sk: "skeleton db1 = ?a" using same by (simp add: skeleton_def)
  have fresh: "uuid4 D 0 \<notin> fst ` set (fst ?a)" "uuid4 D 1 \<notin> fst ` set (snd ?a)"
    using new same by (auto simp: skeleton_def ostat_def zstat_def)
  have wf: "skel_wf (skeleton ?db')"
    using skel_wf_extend [of ?a "uuid4 D 0" "uuid4 D 1" acct i "Some (token D 0)"] inv fresh
    by (simp add: skeleton_with_order sk relay_inv_def)
  have le: "skel_le ?a (skeleton ?db')"
    using fresh by (auto simp: skel_le_def skeleton_with_order sk zorder_def image_iff)
  have "ready_ok L cfg (rl_log s) ?db'"
    unfolding ready_ok_def
  proof (intro ballI impI)
    fix r assume "r \<in> set (orders ?db')" "o_status r = ''ready''"
    then have "order_proved L cfg (rl_log s) ?a (o_id r)"
      using inv same by (auto simp: ready_ok_def relay_inv_def with_order_def)
    then show "order_proved L cfg (rl_log s) (skeleton ?db') (o_id r)"
      by (rule order_proved_mono [OF order_refl le])
  qed
  moreover have "valid_ok L cfg (rl_log s) ?db'"
    unfolding valid_ok_def
  proof (intro ballI impI)
    fix z assume "z \<in> set (authorizations ?db')" "z_status z = ''valid''"
    then have "proved L cfg (rl_log s) ?a (zstat z)"
      using inv same by (auto simp: valid_ok_def relay_inv_def with_order_def)
    then show "proved L cfg (rl_log s) (skeleton ?db') (zstat z)"
      by (rule proved_mono [OF order_refl le])
  qed
  ultimately have "relay_inv L cfg \<lparr>rl_db = ?db', rl_jobs = jobs', rl_log = rl_log s\<rparr>"
    using inv le wf same jobs by (intro relay_inv_stepI) (auto simp: with_order_def)
  then show ?thesis by (cases s) simp
qed

section \<open>The end of a validation\<close>

lemma get_authz_static:
  "get_authz_row i db = Some z \<Longrightarrow> z \<in> set (authorizations db) \<and> z_id z = i"
  unfolding get_authz_row_def by (rule tget_SomeD)

lemma get_order_static:
  "get_order_row i db = Some r \<Longrightarrow> r \<in> set (orders db) \<and> o_id r = i"
  unfolding get_order_row_def by (rule tget_SomeD)

lemma skeleton_updates [simp]:
  "skeleton (update_order i (\<lambda>r. r\<lparr>o_status := st\<rparr>) db) = skeleton db"
  "skeleton (update_authz i (\<lambda>r. r\<lparr>z_status := st\<rparr>) db) = skeleton db"
  by (simp_all add: skeleton_def map_tupdate)

lemma valid_ok_update:
  assumes "valid_ok L cfg log db" "distinct (map z_id (authorizations db))"
    "(i, j, d, t) \<in> set (snd (skeleton db))" "proved L cfg log (skeleton db) (i, j, d, t)"
  shows "valid_ok L cfg log (update_authz i (\<lambda>r. r\<lparr>z_status := ''valid''\<rparr>) db)"
  unfolding valid_ok_def skeleton_updates
proof (intro ballI impI)
  fix z
  assume z: "z \<in> set (authorizations (update_authz i (\<lambda>r. r\<lparr>z_status := ''valid''\<rparr>) db))" "z_status z = ''valid''"
  then obtain y where y: "y \<in> set (authorizations db)"
    "z = (if z_id y = i then y\<lparr>z_status := ''valid''\<rparr> else y)" by (auto simp: set_tupdate)
  show "proved L cfg log (skeleton db) (zstat z)"
  proof (cases "z_id y = i")
    case True
    obtain x where x: "x \<in> set (authorizations db)" "zstat x = (i, j, d, t)"
      using assms(3) by (auto simp: skeleton_def)
    then have "x = y" using assms(2) True y(1) by (auto simp: distinct_map zstat_def dest: inj_onD)
    with x True y(2) assms(4) show ?thesis by simp
  next
    case False
    with y z(2) assms(1) show ?thesis by (auto simp: valid_ok_def)
  qed
qed

lemma order_proved_all_valid:
  assumes "valid_ok L cfg log db" "list_all (\<lambda>s. s = ''valid'') (authz_statuses j db)"
    "j \<in> fst ` set (fst (skeleton db))"
  shows "order_proved L cfg log (skeleton db) j"
proof -
  have "proved L cfg log (skeleton db) z" if "z \<in> set (snd (skeleton db))" "zorder z = j" for z
  proof -
    from that obtain y where y: "y \<in> set (authorizations db)" "z = zstat y" by (auto simp: skeleton_def)
    with that(2) assms(2) have "z_status y = ''valid''"
      by (auto simp: authz_statuses_def list_all_iff zorder_def zstat_def)
    with y assms(1) show ?thesis by (auto simp: valid_ok_def)
  qed
  with assms(3) show ?thesis by (simp add: order_proved_def)
qed

lemma relay_inv_validated:
  assumes inv: "relay_inv L cfg s" and jobs: "rl_jobs s = js @ Validating p # ks"
    and ok: "validate_http01 cfg nets (rp_domain p) (rp_token p) (rp_expected p) = Inr ()"
  shows "relay_inv L cfg \<lparr>rl_db = rc_finish (rp_authz_id p) (rp_order_id p) (Inr ()) (rl_db s),
     rl_jobs = js @ ks, rl_log = rl_log s @ [Validated p nets]\<rparr>"
proof -
  let ?db = "rl_db s" and ?log = "rl_log s @ [Validated p nets]" and ?i = "rp_authz_id p" and ?j = "rp_order_id p"
  let ?db1 = "update_authz ?i (\<lambda>r. r\<lparr>z_status := ''valid''\<rparr>) ?db"
  let ?fin = "rc_finish ?i ?j (Inr ()) ?db"
  have sub: "set (rl_log s) \<subseteq> set ?log" by auto
  have job: "job_ok L cfg (rl_log s) (skeleton ?db) (Validating p)"
    using inv jobs by (auto simp: relay_inv_def)
  have pr: "proved L cfg ?log (skeleton ?db) (?i, ?j, rp_domain p, Some (rp_token p))"
  proof -
    obtain acct pk ids where "Begun p acct pk \<in> set ?log" "(?j, acct, ids) \<in> set (fst (skeleton ?db))"
      "key_authorization L (rp_token p) pk = Inr (rp_expected p)" using job by (auto simp: job_ok_def)
    moreover have "Validated p nets \<in> set ?log" by simp
    ultimately show ?thesis
      using ok unfolding proved_def
      by (intro exI [of _ p] exI [of _ nets] exI [of _ acct] exI [of _ pk] exI [of _ ids]) simp
  qed
  have mem: "(?i, ?j, rp_domain p, Some (rp_token p)) \<in> set (snd (skeleton ?db))"
    using job by (simp add: job_ok_def)
  have j: "?j \<in> fst ` set (fst (skeleton ?db))" using job by (force simp: job_ok_def)
  have old_valid: "valid_ok L cfg ?log ?db"
    using inv proved_mono [OF sub skel_le_refl] unfolding relay_inv_def valid_ok_def by blast
  have old_ready: "ready_ok L cfg ?log ?db"
    using inv order_proved_mono [OF sub skel_le_refl] unfolding relay_inv_def ready_ok_def by blast
  have dist: "distinct (map z_id (authorizations ?db))"
    using inv by (auto simp: relay_inv_def skel_wf_def skeleton_def zstat_def comp_def)
  have v1: "valid_ok L cfg ?log ?db1" by (rule valid_ok_update [OF old_valid dist mem pr])
  have fin: "?fin = ?db \<or> ?fin = ?db1 \<or>
      (?fin = update_order ?j (\<lambda>r. r\<lparr>o_status := ''ready''\<rparr>) ?db1 \<and>
       list_all (\<lambda>s. s = ''valid'') (authz_statuses ?j ?db1))"
    by (auto simp: rc_finish_def Let_def split: option.splits)
  then have sk: "skeleton ?fin = skeleton ?db" by auto
  from fin v1 old_valid have valid: "valid_ok L cfg ?log ?fin"
    by (auto simp: valid_ok_def)
  have ready: "ready_ok L cfg ?log ?fin"
    using fin
  proof (elim disjE conjE)
    assume f: "?fin = update_order ?j (\<lambda>r. r\<lparr>o_status := ''ready''\<rparr>) ?db1"
      and all: "list_all (\<lambda>s. s = ''valid'') (authz_statuses ?j ?db1)"
    have "order_proved L cfg ?log (skeleton ?db1) ?j"
      using order_proved_all_valid [OF v1 all] j by simp
    with old_ready show ?thesis unfolding f by (auto simp: ready_ok_def set_tupdate)
  qed (use old_ready in \<open>auto simp: ready_ok_def\<close>)
  show ?thesis
    by (rule relay_inv_stepI [OF inv]) (use inv sk valid ready jobs in \<open>auto simp: relay_inv_def event_ok_def\<close>)
qed

section \<open>Every step keeps the invariant\<close>

text \<open>The effect of a request whose handler is not cut in two.\<close>

lemma route_plain_db:
  assumes "\<not> splits_up ep" "route L cfg ver D lr ep req db = (rep, db')"
  shows "(orders db' = orders db \<and> authorizations db' = authorizations db \<and> certificates db' = certificates db) \<or>
    (\<exists>payload acct i db1. orders db1 = orders db \<and> authorizations db1 = authorizations db \<and>
       certificates db1 = certificates db \<and> order_accepted L cfg D payload acct db1 i \<and>
       db' = with_order D acct i db1)"
proof -
  define g :: "database \<Rightarrow> _" where "g = (\<lambda>d. (orders d, authorizations d, certificates d))"
  have v: "g (snd (verify_jws L cfg t req d)) = g d" for t d by (simp add: g_def)
  have same: ?thesis if "g (snd (route L cfg ver D lr ep req db)) = g db"
    using that assms(2) by (simp add: g_def)
  have na: "g (snd (new_account_body L cfg D req pa d)) = g d" for pa d
  proof -
    obtain r d' where e: "new_account_body L cfg D req pa d = (r, d')" by fastforce
    from new_account_body_db [OF e] show ?thesis by (auto simp: e g_def)
  qed
  have kc: "g (snd (key_change_body L cfg req pa d)) = g d" for pa d
  proof -
    obtain r d' payload acct where e: "key_change_body L cfg req (payload, acct) d = (r, d')" "pa = (payload, acct)"
      by (metis surj_pair)
    from key_change_body_db [OF e(1)] show ?thesis by (auto simp: e g_def)
  qed
  have pure: "g (snd (get_order_body cfg i req pa d)) = g d" "g (snd (get_authz_body cfg i req pa d)) = g d"
    "g (snd (download_cert_body i req pa d)) = g d" "g (snd (revoke_cert_body L lr req pa d)) = g d" for i pa d
    by (simp_all add: g_def get_order_body_pure [unfolded pure_comp_def] get_authz_body_pure [unfolded pure_comp_def]
        download_cert_body_pure [unfolded pure_comp_def] revoke_cert_body_pure [unfolded pure_comp_def])
  have f: "g (snd (new_account L cfg D req db)) = g db" "g (snd (key_change L cfg D req db)) = g db"
    "g (snd (get_order L cfg D i req db)) = g db" "g (snd (get_authz L cfg D i req db)) = g db"
    "g (snd (download_cert L cfg D i req db)) = g db" "g (snd (revoke_cert L cfg D lr req db)) = g db" for i
    unfolding route_defs by (rule bindM_frame [where g = g], rule v, simp add: na kc pure)+
  show ?thesis
  proof (cases "ep = NewOrder")
    case False
    with assms(1) show ?thesis
      by (cases ep) (auto simp: splits_up_def route_def plain_snd f intro!: same)
  next
    case True
    have eq: "db' = snd (new_order L cfg D req db)" using assms(2) True plain_snd [of "new_order L cfg D req" db]
      by (simp add: route_def)
    show ?thesis
    proof (cases "verify_jws L cfg (clock D 0) req db")
      case (Pair r db1)
      note fr = verify_jws_frameD [OF Pair]
      show ?thesis
      proof (cases r)
        case (Inl x)
        with Pair eq fr show ?thesis by (simp add: new_order_def)
      next
        case (Inr pa)
        obtain payload acct where n: "pa = (payload, acct)" by (cases pa)
        obtain r' d where b: "new_order_body L cfg D req (payload, acct) db1 = (r', d)" by fastforce
        then have "d = db'" using eq Pair Inr n by (simp add: new_order_def)
        with new_order_body_db [OF b] fr show ?thesis by metis
      qed
    qed
  qed
qed

lemma relay_inv_plain_request:
  assumes inv: "relay_inv L cfg s" and "\<not> splits_up ep" "route L cfg ver D lr ep req (rl_db s) = (rep, db')"
  shows "relay_inv L cfg (s\<lparr>rl_db := db'\<rparr>)"
  using route_plain_db [OF assms(2,3)]
proof (elim disjE conjE exE)
  assume "orders db' = orders (rl_db s)" "authorizations db' = authorizations (rl_db s)"
    "certificates db' = certificates (rl_db s)"
  then have "relay_inv L cfg \<lparr>rl_db = db', rl_jobs = rl_jobs s, rl_log = rl_log s @ []\<rparr>"
    by (intro relay_inv_quietI [OF inv]) (auto intro: quiet_same)
  then show ?thesis by (cases s) simp
next
  fix payload acct i db1
  assume "orders db1 = orders (rl_db s)" "authorizations db1 = authorizations (rl_db s)"
    "certificates db1 = certificates (rl_db s)" "order_accepted L cfg D payload acct db1 i" "db' = with_order D acct i db1"
  with relay_inv_new_order [OF inv, of db1 D "rl_jobs s" acct i] show ?thesis
    by (cases s) (simp add: order_accepted_def)
qed

text \<open>What the two prepared plans have established.\<close>

lemma finalize_prepare_authorized:
  assumes inv: "relay_inv L cfg s" and sk: "skeleton db = skeleton (rl_db s)"
    and rdy: "ready_ok L cfg (rl_log s) db" and p: "finalize_prepare L i payload acct db = Inr plan"
  shows "authorized L cfg (rl_log s) (skeleton (rl_db s)) (fp_order_id plan) (fp_domain plan)"
proof -
  obtain ord where o: "get_order_row i db = Some ord" "o_status ord = ''ready''" "fp_order_id plan = i"
    "load_identifiers (o_identifiers ord) = Inr (fp_identifiers plan)"
    "first_domain (fp_identifiers plan) = Inr (fp_domain plan)"
    using p by (rule finalize_prepare_Inr)
  note mem = get_order_static [OF o(1)]
  have tup: "(i, o_account_id ord, o_identifiers ord) \<in> set (fst (skeleton (rl_db s)))"
    using mem sk [symmetric] by (force simp: skeleton_def ostat_def)
  moreover have "skel_wf (skeleton (rl_db s))" using inv by (simp add: relay_inv_def)
  ultimately obtain d where d: "o_identifiers ord = dump_identifiers [d]" unfolding skel_wf_def by fastforce
  then have "fp_identifiers plan = map identifier_json [d]" using o(4) by simp
  then have "fp_domain plan = id_value d"
    using o(5) by (simp add: first_domain_def identifier_json_def)
  with tup d have "order_domain (skeleton (rl_db s)) i (fp_domain plan)" by (auto simp: order_domain_def)
  moreover have "order_proved L cfg (rl_log s) (skeleton (rl_db s)) i"
    using rdy mem o(2) sk by (auto simp: ready_ok_def)
  ultimately show ?thesis by (simp add: authorized_def o(3))
qed

lemma ready_ok_quiet:
  "ready_ok L cfg log db \<Longrightarrow> quiet db db' \<Longrightarrow> ready_ok L cfg log db'"
  unfolding ready_ok_def quiet_def by metis

lemma ack_prepare_job:
  assumes "ack_prepare i acct db = Inr plan"
  shows "job_ok L cfg log (skeleton db) (AckOpen plan)"
proof -
  obtain z where z: "get_authz_row i db = Some z" "ap_authz_id plan = i" "ap_order_id plan = z_order_id z"
    using assms by (rule ack_prepare_Inr)
  with get_authz_static [OF z(1)] show ?thesis by (force simp: job_ok_def skeleton_def zstat_def)
qed

lemma rc_begin_job:
  assumes inv: "relay_inv L cfg s" and job: "job_ok L cfg (rl_log s) (skeleton (rl_db s)) (Task (RunChallenge i j))"
    and b: "rc_begin L i j (rl_db s) = (Inr (Some plan), db')" "get_order_row j (rl_db s) = Some ord"
      "get_account (o_account_id ord) (rl_db s) = Some a"
  shows "job_ok L cfg (rl_log s @ [Begun plan (a_id a) (a_public_key a)]) (skeleton (rl_db s)) (Validating plan)"
proof -
  obtain z ord' a' where p: "get_authz_row i (rl_db s) = Some z" "get_order_row j (rl_db s) = Some ord'"
    "get_account (o_account_id ord') (rl_db s) = Some a'" "z_challenge_token z = Some (rp_token plan)"
    "key_authorization L (rp_token plan) (a_public_key a') = Inr (rp_expected plan)"
    "rp_domain plan = z_identifier z" "rp_authz_id plan = i" "rp_order_id plan = j"
    using b(1) by (rule rc_begin_plan)
  have aa: "a' = a" "a_id a = o_account_id ord" using p(2,3) b(2,3) by (auto simp: get_account_def dest: tget_SomeD)
  note zm = get_authz_static [OF p(1)] and om = get_order_static [OF b(2)]
  obtain d tok where t: "(i, j, d, tok) \<in> set (snd (skeleton (rl_db s)))" using job by (auto simp: job_ok_def task_ok_def)
  have dist: "distinct (map fst (snd (skeleton (rl_db s))))" using inv by (simp add: relay_inv_def skel_wf_def)
  have mem: "zstat z \<in> set (snd (skeleton (rl_db s)))" using zm by (simp add: skeleton_def)
  have "fst (zstat z) = fst (i, j, d, tok)" using zm by (simp add: zstat_def)
  then have "zstat z = (i, j, d, tok)"
    using dist mem t by (intro inj_onD [of fst "set (snd (skeleton (rl_db s)))"]) (simp_all add: distinct_map)
  then have z: "(rp_authz_id plan, rp_order_id plan, rp_domain plan, Some (rp_token plan)) = zstat z"
    using p by (auto simp: zstat_def)
  have "(j, a_id a, o_identifiers ord) \<in> set (fst (skeleton (rl_db s)))"
    using om aa by (force simp: skeleton_def ostat_def)
  then show ?thesis unfolding job_ok_def job.case z using mem p(5,8) aa by auto
qed

lemma pf_finish_certs:
  assumes "pf_finish L bases D i outcome db = (r, db')" "c \<in> set (certificates db')"
  shows "c \<in> set (certificates db) \<or> (\<exists>pem. outcome = Inr pem \<and> c_order_id c = i \<and> c_pem_chain c = pem)"
  using pf_finish_db [OF assms(1)] assms(2) by (auto simp: new_cert_row_def)

lemma relay_inv_init: "relay_inv L cfg relay_init"
  by (simp add: relay_inv_def relay_init_def empty_db_def skeleton_def skel_wf_def ready_ok_def
      valid_ok_def cert_ok_def)

lemma relay_inv_quiet_db:
  assumes "relay_inv L cfg s" "quiet (rl_db s) db'" "certificates db' = certificates (rl_db s)"
    "\<forall>j \<in> set jobs'. j \<in> set (rl_jobs s) \<or> job_ok L cfg (rl_log s) (skeleton (rl_db s)) j"
  shows "relay_inv L cfg (s\<lparr>rl_db := db', rl_jobs := jobs'\<rparr>)"
proof -
  have "relay_inv L cfg \<lparr>rl_db = db', rl_jobs = jobs', rl_log = rl_log s @ []\<rparr>"
    using assms by (intro relay_inv_quietI) auto
  then show ?thesis by (cases s) simp
qed

lemma relay_inv_job:
  "relay_inv L cfg s \<Longrightarrow> rl_jobs s = js @ j # ks \<Longrightarrow> job_ok L cfg (rl_log s) (skeleton (rl_db s)) j"
  unfolding relay_inv_def by (metis in_set_conv_decomp)

text \<open>One lemma per step that is not a plain request.\<close>

lemma relay_inv_frame_only:
  assumes "relay_inv L cfg s" "quiet (rl_db s) db'" "certificates db' = certificates (rl_db s)"
  shows "relay_inv L cfg (s\<lparr>rl_db := db'\<rparr>)"
  using relay_inv_quiet_db [OF assms, of "rl_jobs s"] by (cases s) simp

lemma relay_inv_drop_job:
  assumes "relay_inv L cfg s" "rl_jobs s = js @ j # ks" "quiet (rl_db s) db'"
    "certificates db' = certificates (rl_db s)"
  shows "relay_inv L cfg (s\<lparr>rl_db := db', rl_jobs := js @ ks\<rparr>)"
  using assms by (intro relay_inv_quiet_db) auto

lemma relay_inv_swap_job:
  assumes "relay_inv L cfg s" "rl_jobs s = js @ j # ks"
    "\<forall>k \<in> set new. job_ok L cfg (rl_log s) (skeleton (rl_db s)) k"
  shows "relay_inv L cfg (s\<lparr>rl_jobs := js @ ks @ new\<rparr>)"
  using relay_inv_quiet_db [OF assms(1) quiet_same [OF refl refl] refl, of "js @ ks @ new"] assms(2,3)
  by (cases s) auto

lemma relay_inv_ack_close:
  assumes inv: "relay_inv L cfg s" and jobs: "rl_jobs s = js @ AckOpen plan # ks"
    and c: "ack_commit cfg plan (rl_db s) = (Inr (res, ts), db')"
  shows "relay_inv L cfg (s\<lparr>rl_db := db', rl_jobs := js @ ks @ map Task ts\<rparr>)"
proof -
  have c': "db' = ack_update plan (rl_db s)" "ts = [RunChallenge (ap_authz_id plan) (ap_order_id plan)]"
    using c by (auto simp: ack_commit_Inr)
  have "job_ok L cfg (rl_log s) (skeleton (rl_db s)) (Task (RunChallenge (ap_authz_id plan) (ap_order_id plan)))"
    using relay_inv_job [OF inv jobs] by (simp add: job_ok_def task_ok_def)
  then show ?thesis
    unfolding c' by (intro relay_inv_quiet_db inv quiet_ack) (auto simp: jobs)
qed

lemma relay_inv_finalize_open:
  assumes inv: "relay_inv L cfg s" and jobs: "rl_jobs s = js @ j # ks"
    and p: "finalize_prepare L i payload acct (rl_db s) = Inr plan"
  shows "relay_inv L cfg (s\<lparr>rl_jobs := js @ ks @ [FinalizeOpen plan]\<rparr>)"
proof -
  have "ready_ok L cfg (rl_log s) (rl_db s)" using inv unfolding relay_inv_def by blast
  then have "job_ok L cfg (rl_log s) (skeleton (rl_db s)) (FinalizeOpen plan)"
    using finalize_prepare_authorized [OF inv refl _ p] by (simp add: job_ok_def)
  then show ?thesis by (intro relay_inv_swap_job [OF inv jobs]) simp
qed

text \<open>The end of a registration and of a key change, which only touch the accounts, and of a new order.\<close>

lemma relay_inv_accounts:
  assumes inv: "relay_inv L cfg s" and jobs: "rl_jobs s = js @ j # ks"
    and db: "orders db' = orders (rl_db s)" "authorizations db' = authorizations (rl_db s)"
      "certificates db' = certificates (rl_db s)"
  shows "relay_inv L cfg (s\<lparr>rl_db := db', rl_jobs := js @ ks\<rparr>)"
  using db by (intro relay_inv_drop_job [OF inv jobs]) (auto intro: quiet_same)

lemma relay_inv_order_close:
  assumes inv: "relay_inv L cfg s" and jobs: "rl_jobs s = js @ OrderOpen D acct ids # ks"
    and c: "new_order_commit cfg D acct ids (rl_db s) = (r, db')"
  shows "relay_inv L cfg (s\<lparr>rl_db := db', rl_jobs := js @ ks\<rparr>)"
proof -
  obtain i where i: "ids = [i]" using relay_inv_job [OF inv jobs] by (auto simp: job_ok_def)
  from new_order_commit_db [OF c [unfolded i]] show ?thesis
  proof (elim disjE conjE)
    assume "db' = rl_db s"
    then show ?thesis by (intro relay_inv_accounts [OF inv jobs]) simp_all
  next
    assume n: "uuid4 D 0 \<notin> set (map o_id (orders (rl_db s)))" "uuid4 D 1 \<notin> set (map z_id (authorizations (rl_db s)))"
      "db' = with_order D acct i (rl_db s)"
    show ?thesis unfolding n(3) by (rule relay_inv_new_order [OF inv refl refl refl n(1,2)]) (auto simp: jobs)
  qed
qed

lemma relay_inv_finalize_close:
  assumes inv: "relay_inv L cfg s" and jobs: "rl_jobs s = js @ FinalizeOpen plan # ks"
    and c: "finalize_commit cfg plan (rl_db s) = (Inr (res, ts), db')"
  shows "relay_inv L cfg \<lparr>rl_db = db', rl_jobs = js @ ks @ map Task ts, rl_log = rl_log s @ dispatched ts\<rparr>"
proof -
  have c': "db' = snd (claim_order (fp_order_id plan) (rl_db s))"
    "ts = [ProcessFinalize (fp_order_id plan) (fp_domain plan) (fp_csr_der plan)]"
    using c by (auto simp: finalize_commit_Inr)
  have auth: "authorized L cfg (rl_log s @ dispatched ts) (skeleton (rl_db s)) (fp_order_id plan) (fp_domain plan)"
    using relay_inv_job [OF inv jobs] authorized_mono [of "rl_log s" "rl_log s @ dispatched ts", OF _ skel_le_refl]
    by (simp add: job_ok_def)
  have q: "quiet (rl_db s) db'" by (simp add: c' quiet_claim)
  show ?thesis
    by (rule relay_inv_quietI [OF inv q refl])
       (use jobs auth in \<open>auto simp: c' claim_order_db job_ok_def task_ok_def dispatched_def event_ok_def\<close>)
qed

lemma relay_inv_challenge_start:
  assumes inv: "relay_inv L cfg s" and jobs: "rl_jobs s = js @ Task (RunChallenge i j) # ks"
    and b: "rc_begin L i j (rl_db s) = (Inr (Some plan), db')" "get_order_row j (rl_db s) = Some ord"
      "get_account (o_account_id ord) (rl_db s) = Some a"
  shows "relay_inv L cfg \<lparr>rl_db = db', rl_jobs = js @ ks @ [Validating plan],
      rl_log = rl_log s @ [Begun plan (a_id a) (a_public_key a)]\<rparr>"
proof -
  have db: "db' = rl_db s" using b(1) by (rule rc_begin_plan)
  note job = rc_begin_job [OF inv relay_inv_job [OF inv jobs] b]
  show ?thesis
    by (rule relay_inv_quietI [OF inv _ refl])
       (use jobs db job in \<open>auto simp: event_ok_def intro: quiet_same\<close>)
qed

lemma relay_inv_challenge_failed:
  assumes inv: "relay_inv L cfg s" and jobs: "rl_jobs s = js @ Validating plan # ks"
  shows "relay_inv L cfg (s\<lparr>rl_db := rc_finish (rp_authz_id plan) (rp_order_id plan) (Inl e) (rl_db s),
      rl_jobs := js @ ks\<rparr>)"
proof -
  have "quiet (rl_db s) (rc_finish (rp_authz_id plan) (rp_order_id plan) (Inl e) (rl_db s))"
    by (auto simp: rc_finish_def intro: quiet_fail quiet_same split: option.splits)
  then show ?thesis by (intro relay_inv_drop_job [OF inv jobs]) simp_all
qed

lemma relay_inv_issue_return:
  assumes inv: "relay_inv L cfg s" and jobs: "rl_jobs s = js @ Issuing i d c # ks"
    and es: "es = (case outcome of Inr pem \<Rightarrow> [Issued i d pem] | Inl _ \<Rightarrow> [])"
  shows "relay_inv L cfg \<lparr>rl_db = rl_db s, rl_jobs = js @ ks @ [Returned i outcome], rl_log = rl_log s @ es\<rparr>"
proof -
  have auth: "authorized L cfg (rl_log s @ es) (skeleton (rl_db s)) i d"
    using relay_inv_job [OF inv jobs] authorized_mono [of "rl_log s" "rl_log s @ es", OF _ skel_le_refl]
    by (simp add: job_ok_def)
  show ?thesis
    by (rule relay_inv_quietI [OF inv quiet_same [OF refl refl] refl])
       (use jobs auth es in \<open>auto simp: event_ok_def job_ok_def split: sum.splits\<close>)
qed

text \<open>A certificate is stored only after it arrived.\<close>

lemma relay_inv_store:
  assumes inv: "relay_inv L cfg s" and jobs: "rl_jobs s = js @ Returned i outcome # ks" and q: "quiet (rl_db s) db'"
    and certs: "\<And>k. k \<in> set (certificates db') \<Longrightarrow> k \<in> set (certificates (rl_db s)) \<or>
      (\<exists>pem. outcome = Inr pem \<and> c_order_id k = i \<and> c_pem_chain k = pem)"
    and new: "\<forall>j \<in> set new. job_ok L cfg (rl_log s) (skeleton (rl_db s)) j"
  shows "relay_inv L cfg (s\<lparr>rl_db := db', rl_jobs := js @ ks @ new\<rparr>)"
proof -
  have "job_ok L cfg (rl_log s) (skeleton (rl_db s)) (Returned i outcome)" by (rule relay_inv_job [OF inv jobs])
  then have "\<forall>k \<in> set (certificates db'). k \<in> set (certificates (rl_db s)) \<or>
      (\<exists>d. Issued (c_order_id k) d (c_pem_chain k) \<in> set (rl_log s @ []))"
    using certs by (fastforce simp: job_ok_def)
  then have "relay_inv L cfg \<lparr>rl_db = db', rl_jobs = js @ ks @ new, rl_log = rl_log s @ []\<rparr>"
    by (intro relay_inv_quietI [OF inv q refl]) (use jobs new in auto)
  then show ?thesis by (cases s) simp
qed

lemma pf_store_db:
  assumes "pf_store L D i pem db = (r, db')"
  shows "(db' = db \<and> (\<forall>k. r \<noteq> Inr (Some k))) \<or> (r = Inr (Some (uuid4 D 0)) \<and> uuid4 D 0 \<notin> set (map c_id (certificates db)) \<and>
    db' = db\<lparr>certificates := certificates db @
      [new_cert_row L (uuid4 D 0) (clock D 1) i pem (cert_expiry_from_pem L (clock D 0) pem)]\<rparr>)"
  using assms by (auto simp: pf_store_def Let_def store_cert_def tinsert_def new_cert_row_def bindM_apply
      split: option.splits if_splits)

lemma quiet_pf_done: "quiet db (pf_done i k db)"
  unfolding pf_done_def by (rule quiet_update_order) simp_all

lemma relay_step_inv:
  assumes "relay_step L cfg ver bases s t" "relay_inv L cfg s"
  shows "relay_inv L cfg t"
  using assms
proof (induction rule: relay_step.induct)
  case (plain_request ep D lr req s rep db')
  then show ?case by (simp add: relay_inv_plain_request)
next
  case (issue_nonce v now s r db')
  then have "quiet (rl_db s) db'" "certificates db' = certificates (rl_db s)"
    using generate_nonce_frame [of cfg v now "rl_db s"] by (auto intro: quiet_same)
  with issue_nonce show ?case by (intro relay_inv_frame_only)
next
  case (prune now s r db')
  then have "quiet (rl_db s) db'" "certificates db' = certificates (rl_db s)"
    by (auto simp: prune_round_def prune_nonces_def intro: quiet_same)
  with prune show ?case by (intro relay_inv_frame_only)
next
  case (nonce_open s)
  then show ?case using relay_inv_quiet_db [OF nonce_open(2) quiet_same [OF refl refl] refl, of "rl_jobs s @ [NonceOpen]"]
    by (cases s) (auto simp: job_ok_def)
next
  case (nonce_close s js ks v now r db')
  then show ?case by (intro relay_inv_accounts) (auto dest: insert_nonce_frame)
next
  case (auth_open req s p key acct)
  then show ?case using relay_inv_quiet_db [OF auth_open(2) quiet_same [OF refl refl] refl, of "rl_jobs s @ [Authed p acct]"]
    by (cases s) (auto simp: job_ok_def)
next
  case (auth_close s js p acct ks now u db' payload)
  note fr = consume_nonce_value_frame [OF auth_close(2)]
  show ?case
    by (rule relay_inv_quiet_db [OF auth_close(4) quiet_same]) (use auth_close fr in \<open>auto simp: job_ok_def\<close>)
next
  case (auth_lost s js p acct ks now r db')
  then show ?case by (intro relay_inv_accounts) (auto dest: consume_nonce_value_frame)
next
  case (answered s js payload acct ks)
  with relay_inv_swap_job [OF answered(2,1), of "[]"] show ?case by simp
next
  case (account_open s js payload acct ks D req aplan)
  then show ?case by (intro relay_inv_swap_job) (auto simp: job_ok_def)
next
  case (account_close s js aplan ks r db')
  then show ?case by (intro relay_inv_accounts) (auto dest!: new_account_commit_db)
next
  case (order_open s js payload acct ks D ids)
  then show ?case by (intro relay_inv_swap_job) (auto simp: job_ok_def elim: new_order_prepare_Inr)
next
  case (order_close s js D acct ids ks r db')
  then show ?case by (intro relay_inv_order_close)
next
  case (key_open s js payload acct ks req a k)
  then show ?case by (intro relay_inv_swap_job) (auto simp: job_ok_def)
next
  case (key_close s js acct a k ks r db')
  then show ?case by (intro relay_inv_accounts) (auto dest!: key_change_commit_db)
next
  case (ack_open s js payload acct ks i plan)
  then show ?case by (intro relay_inv_swap_job) (auto intro: ack_prepare_job)
next
  case (finalize_open s js payload acct ks i plan)
  then show ?case by (intro relay_inv_finalize_open)
next
  case (finalize_close s js plan ks res ts db')
  with relay_inv_finalize_close [of L cfg s js plan ks res ts db'] show ?case by (cases s) simp
next
  case (finalize_lost s js plan ks e db')
  then show ?case by (auto dest!: finalize_commit_Inl intro: relay_inv_drop_job quiet_same)
next
  case (challenge_start s js i j ks plan db' ord a)
  with relay_inv_challenge_start [of L cfg s js i j ks plan db' ord a] show ?case by (cases s) simp
next
  case (challenge_stop s js i j ks r db')
  then have "certificates db' = certificates (rl_db s)" by (auto dest!: rc_begin_db)
  with challenge_stop show ?case by (auto intro: relay_inv_drop_job quiet_rc_begin)
next
  case (challenge_finish s js plan ks nets outcome)
  then show ?case
    using relay_inv_validated [of L cfg s js plan ks nets] relay_inv_challenge_failed [of L cfg s js plan ks]
    by (cases s; cases outcome) simp_all
next
  case (issue_start s js i d c ks)
  from relay_inv_job [OF issue_start(2,1)] issue_start show ?case
    by (intro relay_inv_swap_job) (auto simp: job_ok_def task_ok_def)
next
  case (issue_lock s js i d c ks)
  from relay_inv_job [OF issue_lock(3,1)] issue_lock show ?case
    by (intro relay_inv_swap_job) (auto simp: job_ok_def)
next
  case (issue_return s js i d c ks outcome)
  with relay_inv_issue_return [of L cfg s js i d c ks] show ?case by (cases s) simp
next
  case (issue_finish s js i outcome ks D r db')
  with relay_inv_store [OF issue_finish(3,1) quiet_pf_finish [OF issue_finish(2)], of "[]"]
  show ?case by (auto dest: pf_finish_certs)
next
  case (issue_store s js i pem ks D k db')
  from pf_store_db [OF issue_store(2)] have "quiet (rl_db s) db'"
    "\<And>c. c \<in> set (certificates db') \<Longrightarrow> c \<in> set (certificates (rl_db s)) \<or> (c_order_id c = i \<and> c_pem_chain c = pem)"
    by (auto simp: new_cert_row_def intro: quiet_same)
  then show ?case by (intro relay_inv_store [OF issue_store(3,1)]) (auto simp: job_ok_def)
next
  case (issue_done s js i k ks)
  then show ?case by (intro relay_inv_drop_job quiet_pf_done) (auto simp: pf_done_def)
next
  case (restart s db')
  then have "db' = reset_processing_orders (rl_db s)" by (auto simp: lifespan_start_def split: if_splits)
  then have "quiet (rl_db s) db'" "certificates db' = certificates (rl_db s)"
    using quiet_reset by (simp_all add: reset_processing_orders_def)
  with restart show ?case by (intro relay_inv_quiet_db) auto
qed (auto intro: relay_inv_ack_close)

lemma relay_inv_reachable: "reachable L cfg ver bases s \<Longrightarrow> relay_inv L cfg s"
  by (rule reachable_invariant [where I = "relay_inv L cfg"]) (auto intro: relay_inv_init relay_step_inv)

end
