(* ===== verification/RelayTables.thy ===== *)
theory RelayTables
  imports RelaySafety
begin

text \<open>
  Integrity of the tables in every reachable state: primary keys are unique, orders and
  authorizations only take the statuses of the protocol, and an order that is \<open>valid\<close> points at a
  stored certificate of its own.  Issuance for one domain is exclusive.
\<close>

section \<open>The invariant of the tables\<close>

definition order_states :: "string set" where
  "order_states = {''pending'', ''processing'', ''ready'', ''valid'', ''invalid''}"

definition authz_states :: "string set" where
  "authz_states = {''pending'', ''processing'', ''valid'', ''invalid''}"

definition has_cert :: "cert_row list \<Rightarrow> order_row \<Rightarrow> bool" where
  "has_cert cs r \<longleftrightarrow> (\<exists>c \<in> set cs. o_cert_id r = Some (c_id c) \<and> c_order_id c = o_id r)"

text \<open>
  The types of the columns: an error column holds a problem document, a contact column a list of
  addresses, a key column a canonical key.
\<close>

definition problem_text :: "string option \<Rightarrow> bool" where
  "problem_text e \<longleftrightarrow> e = None \<or> (\<exists>ty d. e = Some (json_dumps (problem ty d)))"

definition order_typed :: "order_row \<Rightarrow> bool" where
  "order_typed r \<longleftrightarrow> o_status r \<in> order_states \<and> problem_text (o_error r) \<and> o_expires_at r \<noteq> None"

definition authz_typed :: "authz_row \<Rightarrow> bool" where
  "authz_typed z \<longleftrightarrow> z_status z \<in> authz_states \<and> problem_text (z_error z) \<and> z_challenge_token z \<noteq> None"

definition account_typed :: "account_row \<Rightarrow> bool" where
  "account_typed a \<longleftrightarrow> a_status a = ''valid'' \<and> (\<exists>c. a_contact a = dump_contact c) \<and>
     (\<exists>jwk. a_public_key a = canonical_jwk jwk)"

definition core_ok :: "database \<Rightarrow> bool" where
  "core_ok db \<longleftrightarrow>
     distinct (map o_id (orders db)) \<and> distinct (map z_id (authorizations db)) \<and>
     distinct (map c_id (certificates db)) \<and>
     (\<forall>r \<in> set (orders db). order_typed r \<and>
        (o_status r = ''valid'' \<longrightarrow> has_cert (certificates db) r)) \<and>
     (\<forall>z \<in> set (authorizations db). authz_typed z)"

definition accounts_ok :: "account_row list \<Rightarrow> bool" where
  "accounts_ok as \<longleftrightarrow> distinct (map a_id as) \<and> (\<forall>a \<in> set as. account_typed a)"

definition tables_ok :: "database \<Rightarrow> bool" where
  "tables_ok db \<longleftrightarrow> core_ok db \<and> nonce_keys_ok db \<and> accounts_ok (accounts db)"

lemma problem_textI [simp, intro]: "problem_text None" "problem_text (Some (json_dumps (problem ty d)))"
  "problem_text (Some (json_dumps (validation_problem e)))" "problem_text (Some (json_dumps (acme_problem bases e)))"
  "problem_text (Some interrupted_order_error)"
  unfolding problem_text_def interrupted_order_error_def
  using validation_problem_form [of e] acme_problem_form [of bases e] by metis+

lemma load_problem_text:
  assumes "problem_text e"
  shows "load_error e = Inr None \<or> (\<exists>ty d. load_error e = Inr (Some (problem ty d)))"
proof (cases e)
  case (Some s)
  with assms obtain ty d where s: "s = json_dumps (problem ty d)" by (auto simp: problem_text_def)
  then have "json_loads s = Some (problem ty d)" "s \<noteq> []" using json_dumps_nonempty [of "problem ty d"] by auto
  with Some show ?thesis by (auto simp: load_error_def problem_def)
qed (simp add: load_error_def)

lemma core_ok_cong:
  "orders db' = orders db \<Longrightarrow> authorizations db' = authorizations db \<Longrightarrow>
   certificates db' = certificates db \<Longrightarrow> core_ok db' = core_ok db"
  by (simp add: core_ok_def)

lemma core_ok_orders:
  assumes "core_ok db" "orders db' = tupdate P f (orders db)" "authorizations db' = authorizations db"
    "certificates db' = certificates db"
    "\<And>r. o_id (f r) = o_id r" "\<And>r. order_typed r \<Longrightarrow> order_typed (f r) \<and> o_status (f r) \<noteq> ''valid''"
  shows "core_ok db'"
proof -
  have "map o_id (orders db') = map o_id (orders db)" using assms(2,5) by (simp add: map_tupdate)
  moreover have "order_typed r \<and> (o_status r = ''valid'' \<longrightarrow> has_cert (certificates db) r)"
    if "r \<in> set (orders db')" for r
    using that assms(1,2,6) by (auto simp: set_tupdate core_ok_def split: if_splits)
  ultimately show ?thesis using assms(1,3,4) by (simp add: core_ok_def)
qed

lemma core_ok_authzs:
  assumes "core_ok db" "authorizations db' = tupdate P f (authorizations db)" "orders db' = orders db"
    "certificates db' = certificates db"
    "\<And>r. z_id (f r) = z_id r" "\<And>r. authz_typed r \<Longrightarrow> authz_typed (f r)"
  shows "core_ok db'"
proof -
  have "map z_id (authorizations db') = map z_id (authorizations db)" using assms(2,5) by (simp add: map_tupdate)
  moreover have "authz_typed z" if "z \<in> set (authorizations db')" for z
    using that assms(1,2,6) by (auto simp: set_tupdate core_ok_def split: if_splits)
  ultimately show ?thesis using assms(1,3,4) by (simp add: core_ok_def)
qed

lemma core_update_order:
  assumes "core_ok db" "\<And>r. o_id (f r) = o_id r" "\<And>r. order_typed r \<Longrightarrow> order_typed (f r) \<and> o_status (f r) \<noteq> ''valid''"
  shows "core_ok (update_order i f db)"
  by (rule core_ok_orders [OF assms(1), where P = "\<lambda>r. o_id r = i" and f = f]) (simp_all add: assms(2,3))

lemma core_update_authz:
  assumes "core_ok db" "\<And>r. z_id (f r) = z_id r" "\<And>r. authz_typed r \<Longrightarrow> authz_typed (f r)"
  shows "core_ok (update_authz i f db)"
  by (rule core_ok_authzs [OF assms(1), where P = "\<lambda>r. z_id r = i" and f = f]) (simp_all add: assms(2,3))

lemmas state_defs = order_states_def authz_states_def order_typed_def authz_typed_def

section \<open>Effects on the tables\<close>

lemma core_ack: "core_ok db \<Longrightarrow> core_ok (ack_update plan db)"
  unfolding ack_update_def Let_def
  by (auto intro!: core_update_order core_update_authz simp: state_defs)

lemma core_claim: "core_ok db \<Longrightarrow> core_ok (snd (claim_order i db))"
  by (rule core_ok_orders [where P = "\<lambda>r. o_id r = i \<and> o_status r = ''ready''"
        and f = "\<lambda>r. r\<lparr>o_status := ''processing''\<rparr>"]) (simp_all add: claim_order_db state_defs)

lemma core_fail: "core_ok db \<Longrightarrow> core_ok (fail_authz i j (problem ty d) db)"
  unfolding fail_authz_def by (intro core_update_order core_update_authz) (simp_all add: state_defs)

lemma core_rc_begin: "core_ok db \<Longrightarrow> rc_begin L i j db = (r, db') \<Longrightarrow> core_ok db'"
  by (auto dest!: rc_begin_db intro: core_fail)

lemma core_rc_finish: "core_ok db \<Longrightarrow> core_ok (rc_finish i j outcome db)"
proof (cases outcome)
  case (Inl e)
  assume "core_ok db"
  moreover obtain ty d where "validation_problem e = problem ty d" using validation_problem_form by blast
  ultimately show ?thesis using Inl by (auto simp: rc_finish_def intro: core_fail split: option.splits)
qed (auto simp: rc_finish_def Let_def state_defs intro!: core_update_order core_update_authz split: option.splits)

lemma core_reset:
  assumes "core_ok db"
  shows "core_ok (reset_processing_orders db)"
proof -
  let ?mid = "db\<lparr>orders := orders (reset_processing_orders db)\<rparr>"
  have "core_ok ?mid"
    by (rule core_ok_orders [OF assms, where P = "\<lambda>r. o_status r = ''processing''"
          and f = "\<lambda>r. r\<lparr>o_status := ''invalid'', o_error := Some interrupted_order_error\<rparr>"])
       (simp_all add: reset_processing_orders_def state_defs)
  then show ?thesis
    by (rule core_ok_authzs [where P = "\<lambda>r. z_status r = ''processing''"
          and f = "\<lambda>r. r\<lparr>z_status := ''invalid''\<rparr>"])
       (simp_all add: reset_processing_orders_def state_defs)
qed

text \<open>Only the end of a finalize task makes an order valid, and it stores the certificate first.\<close>

lemma core_issue:
  assumes "core_ok db" "k \<notin> set (map c_id (certificates db))" "c_id c = k" "c_order_id c = i"
  shows "core_ok (update_order i (\<lambda>r. r\<lparr>o_cert_id := Some k, o_status := ''valid''\<rparr>)
     (db\<lparr>certificates := certificates db @ [c]\<rparr>))" (is "core_ok ?db'")
proof -
  have "map o_id (orders ?db') = map o_id (orders db)" by (simp add: map_tupdate)
  moreover have "order_typed r \<and> (o_status r = ''valid'' \<longrightarrow> has_cert (certificates ?db') r)"
    if "r \<in> set (orders ?db')" for r
    using that assms by (auto simp: set_tupdate core_ok_def has_cert_def state_defs split: if_splits)
  ultimately show ?thesis using assms by (simp add: core_ok_def)
qed

lemma core_pf_finish:
  assumes "core_ok db" "pf_finish L bases D i outcome db = (r, db')"
  shows "core_ok db'"
  using pf_finish_db [OF assms(2)]
proof (elim disjE exE conjE)
  fix e assume "db' = update_order i
      (\<lambda>r. r\<lparr>o_status := ''invalid'', o_error := Some (json_dumps (acme_problem bases e))\<rparr>) db"
  then show ?thesis using assms(1) by (auto intro!: core_update_order simp: state_defs)
next
  fix pem
  assume "uuid4 D 0 \<notin> set (map c_id (certificates db))"
    "db' = update_order i (\<lambda>r. r\<lparr>o_cert_id := Some (uuid4 D 0), o_status := ''valid''\<rparr>)
       (db\<lparr>certificates := certificates db @
          [new_cert_row L (uuid4 D 0) (clock D 1) i pem (cert_expiry_from_pem L (clock D 0) pem)]\<rparr>)"
  then show ?thesis using core_issue [OF assms(1)] by (simp add: new_cert_row_def)
qed (use assms(1) in simp)

lemma core_with_order:
  assumes "core_ok db" "uuid4 D 0 \<notin> set (map o_id (orders db))" "uuid4 D 1 \<notin> set (map z_id (authorizations db))"
  shows "core_ok (with_order D acct i db)"
  using assms by (auto simp: core_ok_def with_order_def state_defs)

lemma core_pf_store: "core_ok db \<Longrightarrow> pf_store L D i pem db = (r, db') \<Longrightarrow> core_ok db'"
  by (auto dest!: pf_store_db simp: core_ok_def has_cert_def new_cert_row_def)

lemma core_pf_done:
  assumes "core_ok db" "\<exists>c \<in> set (certificates db). c_id c = k \<and> c_order_id c = i"
  shows "core_ok (pf_done i k db)"
proof -
  have "map o_id (orders (pf_done i k db)) = map o_id (orders db)" by (simp add: pf_done_def map_tupdate)
  moreover have "order_typed r \<and> (o_status r = ''valid'' \<longrightarrow> has_cert (certificates db) r)"
    if "r \<in> set (orders (pf_done i k db))" for r
    using that assms by (auto simp: pf_done_def set_tupdate core_ok_def has_cert_def state_defs split: if_splits)
  ultimately show ?thesis using assms by (simp add: core_ok_def pf_done_def)
qed

section \<open>Accounts and nonces\<close>

lemma accounts_ok_insert:
  "accounts_ok as \<Longrightarrow> uuid4 D 0 \<notin> set (map a_id as) \<Longrightarrow> accounts_ok (as @ [new_account_row D (canonical_jwk jwk) c])"
  by (auto simp: accounts_ok_def account_typed_def new_account_row_def)

lemma accounts_ok_key:
  "accounts_ok as \<Longrightarrow> accounts_ok (tupdate P (\<lambda>a. a\<lparr>a_public_key := canonical_jwk jwk\<rparr>) as)"
  by (auto simp: accounts_ok_def account_typed_def set_tupdate account_key.keys_tupdate)

lemma route_accounts_ok:
  assumes "accounts_ok (accounts db)"
  shows "accounts_ok (accounts (snd (route L cfg ver D lr ep req db)))"
proof -
  have step: "accounts_ok (accounts (snd (bindM (verify_jws L cfg t req) body db)))"
    if "\<And>pa d. accounts_ok (accounts d) \<Longrightarrow> accounts_ok (accounts (snd (body pa d)))"
    for t and body :: "json \<times> string \<Rightarrow> 'z dbm"
  proof (cases "verify_jws L cfg t req db")
    case (Pair r db1)
    have "accounts_ok (accounts db1)" using assms verify_jws_frameD [OF Pair] by simp
    with Pair that show ?thesis by (cases r) auto
  qed
  have na: "accounts_ok (accounts (snd (new_account_body L cfg D req pa d)))"
    if "accounts_ok (accounts d)" for pa d
  proof -
    obtain r d' where e: "new_account_body L cfg D req pa d = (r, d')" by fastforce
    from new_account_body_db [OF e] that show ?thesis by (auto simp: e accounts_ok_insert)
  qed
  have kc: "accounts_ok (accounts (snd (key_change_body L cfg req pa d)))"
    if "accounts_ok (accounts d)" for pa d
  proof -
    obtain payload acct where pa: "pa = (payload, acct)" by (cases pa)
    obtain r d' where e: "key_change_body L cfg req (payload, acct) d = (r, d')" by fastforce
    from key_change_body_db [OF e] that show ?thesis
      by (auto simp: e pa intro: accounts_ok_key elim!: key_change_check_Inr)
  qed
  have no: "accounts (snd (new_order_body L cfg D req pa d)) = accounts d" for pa d
  proof -
    obtain payload acct where pa: "pa = (payload, acct)" by (cases pa)
    obtain r d' where e: "new_order_body L cfg D req (payload, acct) d = (r, d')" by fastforce
    from new_order_body_db [OF e] show ?thesis by (auto simp: e pa with_order_def)
  qed
  have fin: "accounts (snd (finalize_order_body L cfg i req pa d)) = accounts d" for i pa d
  proof -
    obtain payload acct where pa: "pa = (payload, acct)" by (cases pa)
    obtain r d' where e: "finalize_order_body L cfg i req (payload, acct) d = (r, d')" by fastforce
    from finalize_order_body_db [OF e] show ?thesis by (auto simp: e pa claim_order_db)
  qed
  have ack: "accounts (snd (acknowledge_challenge_body cfg i req pa d)) = accounts d" for i pa d
    by (cases pa) (simp add: acknowledge_challenge_body_cases split: sum.splits)
  note pures = get_order_body_pure [unfolded pure_comp_def] get_authz_body_pure [unfolded pure_comp_def]
    download_cert_body_pure [unfolded pure_comp_def] revoke_cert_body_pure [unfolded pure_comp_def]
  show ?thesis
    using assms by (cases ep) (auto simp: route_def plain_snd route_defs na kc no fin ack pures intro!: step)
qed

section \<open>Preservation\<close>

lemma tables_frame:
  assumes "tables_ok db" "orders db' = orders db" "authorizations db' = authorizations db"
    "certificates db' = certificates db" "accounts_ok (accounts db')" "nonce_keys_ok db'"
  shows "tables_ok db'"
  using assms core_ok_cong [OF assms(2-4)] by (simp add: tables_ok_def)

lemma tables_consume:
  assumes "tables_ok db" "consume_nonce_value cfg now v db = (r, db')"
  shows "tables_ok db'"
  using assms(1) consume_nonce_value_frame [OF assms(2)] by (intro tables_frame [OF assms(1)]) (simp_all add: tables_ok_def)

lemma tables_insert_nonce:
  assumes "tables_ok db" "insert_nonce v now db = (r, db')"
  shows "tables_ok db'"
  using assms(1) insert_nonce_frame [OF assms(2)] by (intro tables_frame [OF assms(1)]) (simp_all add: tables_ok_def)

lemma tables_new_account:
  assumes "tables_ok db" "account_typed (np_row plan)" "new_account_commit cfg plan db = (r, db')"
  shows "tables_ok db'"
  using assms(1,2) new_account_commit_db [OF assms(3)]
  by (intro tables_frame [OF assms(1)]) (auto simp: tables_ok_def nonce_keys_ok_def accounts_ok_def)

lemma tables_key_change:
  assumes "tables_ok db" "key_change_commit cfg acct a (canonical_jwk jwk) db = (r, db')"
  shows "tables_ok db'"
  using assms(1) unfolding key_change_commit_db [OF assms(2)]
  by (intro tables_frame [OF assms(1)]) (simp_all add: tables_ok_def nonce_keys_ok_def accounts_ok_key)

lemma tables_order_commit:
  assumes "tables_ok db" "new_order_commit cfg D acct [i] db = (r, db')"
  shows "tables_ok db'"
  using new_order_commit_db [OF assms(2)] assms(1) core_with_order [of db D acct i]
  by (auto simp: tables_ok_def nonce_keys_ok_def with_order_def)

lemma tables_pf_store:
  assumes "tables_ok db" "pf_store L D i pem db = (r, db')"
  shows "tables_ok db'"
proof -
  have "nonces db' = nonces db" "accounts db' = accounts db" using pf_store_db [OF assms(2)] by auto
  with assms core_pf_store show ?thesis by (auto simp: tables_ok_def nonce_keys_ok_def)
qed

lemma tables_verify:
  assumes "tables_ok db" "verify_jws L cfg now req db = (r, db')"
  shows "tables_ok db'"
  using assms verify_jws_frameD [OF assms(2)] verify_jws_keys [of L cfg now req db] core_ok_cong [of db' db]
  by (simp add: tables_ok_def)

lemma tables_core:
  assumes "tables_ok db" "core_ok db'" "nonces db' = nonces db" "accounts db' = accounts db"
  shows "tables_ok db'"
  using assms by (simp add: tables_ok_def nonce_keys_ok_def)

lemma tables_plain_request:
  assumes "tables_ok db" "\<not> splits_up ep" "route L cfg ver D lr ep req db = (rep, db')"
  shows "tables_ok db'"
proof -
  have "core_ok db'"
    using route_plain_db [OF assms(2,3)]
  proof (elim disjE exE conjE)
    assume "orders db' = orders db" "authorizations db' = authorizations db" "certificates db' = certificates db"
    then show ?thesis using assms(1) core_ok_cong [of db' db] by (simp add: tables_ok_def)
  next
    fix payload acct i db1
    assume a: "orders db1 = orders db" "authorizations db1 = authorizations db"
      "certificates db1 = certificates db" "order_accepted L cfg D payload acct db1 i" "db' = with_order D acct i db1"
    have "core_ok db1" using assms(1) core_ok_cong [OF a(1-3)] by (simp add: tables_ok_def)
    then show ?thesis unfolding a(5) using a(4) by (intro core_with_order) (auto simp: order_accepted_def)
  qed
  with assms(1,3) route_keys_all [of L cfg ver D lr ep req db] route_accounts_ok [of db L cfg ver D lr ep req]
  show ?thesis by (simp add: tables_ok_def)
qed

lemma tables_generate:
  assumes "tables_ok db" "generate_nonce cfg v now db = (r, db')"
  shows "tables_ok db'"
proof -
  have fr: "orders db' = orders db" "authorizations db' = authorizations db" "certificates db' = certificates db"
    "accounts db' = accounts db"
    using generate_nonce_frame [of cfg v now db] assms(2) by simp_all
  with assms nonce_keys_generate [of db cfg v now] core_ok_cong [OF fr(1-3)] show ?thesis
    by (simp add: tables_ok_def)
qed

lemma tables_prune:
  assumes "tables_ok db" "prune_round cfg now db = (r, db')"
  shows "tables_ok db'"
proof -
  have fr: "orders db' = orders db" "authorizations db' = authorizations db" "certificates db' = certificates db"
    "accounts db' = accounts db"
    using assms(2) by (auto simp: prune_round_def prune_nonces_def)
  with assms nonce_keys_prune [of db cfg now] core_ok_cong [OF fr(1-3)] show ?thesis
    by (simp add: tables_ok_def prune_round_def)
qed

lemma tables_pf_finish:
  assumes "tables_ok db" "pf_finish L bases D i outcome db = (r, db')"
  shows "tables_ok db'"
proof -
  have "nonces db' = nonces db" "accounts db' = accounts db" using pf_finish_db [OF assms(2)] by auto
  then show ?thesis using assms core_pf_finish by (auto simp: tables_ok_def nonce_keys_ok_def)
qed

text \<open>
  Certificates are only ever added, and what an open job is about to write has the type of its column;
  in particular a task between its two commits has stored the certificate it will point its order at.
\<close>

lemma certificates_step:
  assumes "relay_step L cfg ver bases s t" "relay_inv L cfg s"
  shows "set (certificates (rl_db s)) \<subseteq> set (certificates (rl_db t))"
  using assms
proof (induction rule: relay_step.induct)
  case (plain_request ep D lr req s rep db')
  then show ?case by (auto dest!: route_plain_db simp: with_order_def)
next
  case (issue_nonce v now s r db')
  then show ?case using generate_nonce_frame(4) [of cfg v now "rl_db s"] by simp
next
  case (order_close s js D acct ids ks r db')
  obtain i where "ids = [i]" using relay_inv_job [OF order_close(3,1)] by (auto simp: job_ok_def)
  with order_close(2) show ?case by (auto dest!: new_order_commit_db simp: with_order_def)
qed (auto simp: prune_round_def prune_nonces_def ack_commit_Inr finalize_commit_Inr claim_order_db pf_done_def
    reset_processing_orders_def lifespan_start_def ack_update_def Let_def
    dest: insert_nonce_frame consume_nonce_value_frame
    dest!: new_account_commit_db key_change_commit_db finalize_commit_Inl rc_begin_db pf_finish_db pf_store_db
    split: if_splits)

lemma order_identifiers:
  assumes "relay_inv L cfg s" "r \<in> set (orders (rl_db s))"
  obtains d where "o_identifiers r = dump_identifiers [d]"
    "load_identifiers (o_identifiers r) = Inr [identifier_json d]"
proof -
  have "skel_wf (skeleton (rl_db s))" using assms(1) by (simp add: relay_inv_def)
  moreover have "ostat r \<in> set (fst (skeleton (rl_db s)))" using assms(2) by (simp add: skeleton_def)
  ultimately obtain d where "o_identifiers r = dump_identifiers [d]" unfolding skel_wf_def ostat_def by fastforce
  with that load_dump_identifiers [of "[d]"] show ?thesis by simp
qed

definition job_typed :: "database \<Rightarrow> job \<Rightarrow> bool" where
  "job_typed db j = (case j of
     AccountOpen plan \<Rightarrow> account_typed (np_row plan)
   | KeyOpen acct a k \<Rightarrow> account_typed a \<and> (\<exists>jwk. k = canonical_jwk jwk)
   | FinalizeOpen plan \<Rightarrow> \<exists>d. fp_identifiers plan = [identifier_json d]
   | Stored i k \<Rightarrow> \<exists>c \<in> set (certificates db). c_id c = k \<and> c_order_id c = i
   | _ \<Rightarrow> True)"

lemma job_typed_simps [simp]:
  "job_typed db (AccountOpen plan) = account_typed (np_row plan)"
  "job_typed db (KeyOpen acct a k) = (account_typed a \<and> (\<exists>jwk. k = canonical_jwk jwk))"
  "job_typed db (Stored i c) = (\<exists>r \<in> set (certificates db). c_id r = c \<and> c_order_id r = i)"
  "job_typed db (FinalizeOpen fp) = (\<exists>d. fp_identifiers fp = [identifier_json d])"
  "job_typed db (Authed jp acct)" "job_typed db (Verified pl acct)" "job_typed db (OrderOpen D acct ids)"
  "job_typed db NonceOpen" "job_typed db (AckOpen ap)" "job_typed db (Task t)"
  "job_typed db (Validating rp)" "job_typed db (Waiting i d csr)" "job_typed db (Issuing i d csr)"
  "job_typed db (Returned i out)"
  by (simp_all add: job_typed_def)

lemma job_typed_mono:
  "set (certificates db) \<subseteq> set (certificates db') \<Longrightarrow> job_typed db j \<Longrightarrow> job_typed db' j"
  by (cases j) auto

definition jobs_typed :: "relay \<Rightarrow> bool" where
  "jobs_typed s \<longleftrightarrow> (\<forall>j \<in> set (rl_jobs s). job_typed (rl_db s) j)"

lemma new_jobs_typed:
  assumes "relay_step L cfg ver bases s t" "relay_inv L cfg s" "tables_ok (rl_db s)" "j \<in> set (rl_jobs t)"
  shows "j \<in> set (rl_jobs s) \<or> job_typed (rl_db t) j"
  using assms
proof (induction rule: relay_step.induct)
  case (finalize_open s js payload acct ks i plan)
  obtain ord where "get_order_row i (rl_db s) = Some ord" "load_identifiers (o_identifiers ord) = Inr (fp_identifiers plan)"
    using finalize_open(2) by (rule finalize_prepare_Inr)
  moreover from this have "ord \<in> set (orders (rl_db s))" using get_order_static by blast
  then obtain d where "load_identifiers (o_identifiers ord) = Inr [identifier_json d]"
    using order_identifiers [OF finalize_open(3)] by blast
  ultimately have "fp_identifiers plan = [identifier_json d]" by simp
  then have "job_typed (rl_db s) (FinalizeOpen plan)" unfolding job_typed_simps by (rule exI)
  with finalize_open(1,5) show ?case by auto
next
  case (issue_store s js i pem ks D k db')
  then show ?case using pf_store_db [OF issue_store(2)] by (auto simp: new_cert_row_def)
next
  case (account_open s js payload acct ks D req aplan)
  obtain jwk where "np_row aplan = new_account_row D (canonical_jwk jwk) (np_contact aplan)"
    using account_open(2) by (rule new_account_prepare_Inr)
  with account_open show ?case by (auto simp: account_typed_def new_account_row_def)
next
  case (key_open s js payload acct ks req a k)
  obtain jwk where "a \<in> set (accounts (rl_db s))" "k = canonical_jwk jwk"
    using key_open(2) by (rule key_change_check_Inr)
  with key_open show ?case by (auto simp: tables_ok_def accounts_ok_def)
qed (auto split: if_splits)

lemma jobs_typed_step:
  assumes "relay_step L cfg ver bases s t" "relay_inv L cfg s" "tables_ok (rl_db s)" "jobs_typed s"
  shows "jobs_typed t"
  using new_jobs_typed [OF assms(1-3)] job_typed_mono [OF certificates_step [OF assms(1,2)]] assms(4)
  unfolding jobs_typed_def by blast

definition tables_inv :: "'k libs \<Rightarrow> settings \<Rightarrow> relay \<Rightarrow> bool" where
  "tables_inv L cfg s \<longleftrightarrow> relay_inv L cfg s \<and> jobs_typed s \<and> tables_ok (rl_db s)"

lemma tables_inv_job: "tables_inv L cfg s \<Longrightarrow> rl_jobs s = js @ j # ks \<Longrightarrow> job_typed (rl_db s) j"
  by (simp add: tables_inv_def jobs_typed_def)

lemma tables_step:
  assumes "relay_step L cfg ver bases s t" "tables_inv L cfg s"
  shows "tables_ok (rl_db t)"
  using assms
proof (induction rule: relay_step.induct)
  case (ack_close s js plan ks res ts db')
  then have "db' = ack_update plan (rl_db s)" by (auto simp: ack_commit_Inr)
  with ack_close core_ack [of "rl_db s" plan] show ?case by (auto simp: tables_inv_def tables_ok_def nonce_keys_ok_def)
next
  case (finalize_close s js plan ks res ts db')
  then have "db' = snd (claim_order (fp_order_id plan) (rl_db s))" by (auto simp: finalize_commit_Inr)
  with finalize_close core_claim [of "rl_db s" "fp_order_id plan"] show ?case
    by (auto simp: tables_inv_def tables_ok_def nonce_keys_ok_def claim_order_db)
next
  case (finalize_lost s js plan ks e db')
  then show ?case by (auto simp: tables_inv_def dest!: finalize_commit_Inl)
next
  case (challenge_start s js i j ks plan db' ord a)
  have "db' = rl_db s" using challenge_start(2) by (rule rc_begin_plan)
  with challenge_start show ?case by (simp add: tables_inv_def)
next
  case (challenge_stop s js i j ks r db')
  then have "core_ok db'" "nonces db' = nonces (rl_db s)" "accounts db' = accounts (rl_db s)"
    by (auto simp: tables_inv_def tables_ok_def intro: core_fail dest!: rc_begin_db)
  with challenge_stop show ?case by (auto simp: tables_inv_def tables_ok_def nonce_keys_ok_def)
next
  case (challenge_finish s js plan ks nets outcome)
  then show ?case by (simp add: tables_inv_def tables_ok_def nonce_keys_ok_def core_rc_finish)
next
  case (order_close s js D acct ids ks r db')
  have inv: "relay_inv L cfg s" using order_close(3) by (simp add: tables_inv_def)
  obtain i where "ids = [i]" using relay_inv_job [OF inv order_close(1)] by (auto simp: job_ok_def)
  with order_close show ?case by (auto simp: tables_inv_def intro: tables_order_commit)
next
  case (account_close s js aplan ks r db')
  with tables_inv_job [OF account_close(3,1)] show ?case by (auto simp: tables_inv_def intro: tables_new_account)
next
  case (key_close s js acct a k ks r db')
  with tables_inv_job [OF key_close(3,1)] show ?case by (auto simp: tables_inv_def intro: tables_key_change)
next
  case (issue_done s js i k ks)
  with tables_inv_job [OF issue_done(2,1)] core_pf_done [of "rl_db s" k i] show ?case
    by (auto simp: tables_inv_def tables_ok_def nonce_keys_ok_def pf_done_def)
next
  case (restart s db')
  then have "db' = reset_processing_orders (rl_db s)" by (auto simp: lifespan_start_def split: if_splits)
  with restart core_reset [of "rl_db s"] show ?case
    by (auto simp: tables_inv_def tables_ok_def nonce_keys_ok_def) (simp_all add: reset_processing_orders_def)
qed (auto simp: tables_inv_def intro: tables_plain_request tables_generate tables_prune tables_pf_finish
    tables_consume tables_insert_nonce tables_pf_store)

lemma tables_inv_reachable: "reachable L cfg ver bases s \<Longrightarrow> tables_inv L cfg s"
proof (erule reachable_invariant)
  show "tables_inv L cfg relay_init"
    using relay_inv_init by (simp add: tables_inv_def jobs_typed_def)
      (simp add: relay_init_def empty_db_def tables_ok_def core_ok_def nonce_keys_ok_def accounts_ok_def)
next
  fix s t
  assume "tables_inv L cfg s" "relay_step L cfg ver bases s t"
  then show "tables_inv L cfg t"
    using tables_step [of L cfg ver bases s t] jobs_typed_step [of L cfg ver bases s t]
      relay_step_inv [of L cfg ver bases s t] by (simp add: tables_inv_def)
qed

lemma tables_reachable: "reachable L cfg ver bases s \<Longrightarrow> tables_ok (rl_db s)"
  using tables_inv_reachable [of L cfg ver bases s] by (simp add: tables_inv_def)

section \<open>One issuance per domain\<close>

lemma issuing_domains_append [simp]: "issuing_domains (xs @ ys) = issuing_domains xs @ issuing_domains ys"
  by (simp add: issuing_domains_def)

lemma issuing_domains_single [simp]:
  "issuing_domains [] = []" "issuing_domains (AckOpen p # js) = issuing_domains js"
  "issuing_domains (FinalizeOpen q # js) = issuing_domains js" "issuing_domains (Task t # js) = issuing_domains js"
  "issuing_domains (Validating v # js) = issuing_domains js" "issuing_domains (Waiting i d c # js) = issuing_domains js"
  "issuing_domains (Issuing i d c # js) = d # issuing_domains js" "issuing_domains (Authed jp acct # js) = issuing_domains js"
  "issuing_domains (Verified pl acct # js) = issuing_domains js" "issuing_domains (AccountOpen ap # js) = issuing_domains js"
  "issuing_domains (OrderOpen D acct ids # js) = issuing_domains js" "issuing_domains (KeyOpen acct r k # js) = issuing_domains js"
  "issuing_domains (NonceOpen # js) = issuing_domains js" "issuing_domains (Returned i out # js) = issuing_domains js"
  "issuing_domains (Stored i k # js) = issuing_domains js" "issuing_domains (map Task ts) = []"
  by (simp_all add: issuing_domains_def)

lemma issuing_distinct_step:
  assumes "relay_step L cfg ver bases s t" "distinct (issuing_domains (rl_jobs s))"
  shows "distinct (issuing_domains (rl_jobs t))"
  using assms by (induction rule: relay_step.induct) auto

lemma issuing_distinct_reachable:
  "reachable L cfg ver bases s \<Longrightarrow> distinct (issuing_domains (rl_jobs s))"
  by (rule reachable_invariant [where I = "\<lambda>s. distinct (issuing_domains (rl_jobs s))"])
     (auto simp: relay_init_def intro: issuing_distinct_step)

end
