(* ===== verification/EndToEnd.thy ===== *)
theory EndToEnd
  imports Worker
begin

text \<open>
  The way of one certificate through the components: the routes and the background tasks they
  dispatch, stage by stage, from the creation of the order to the download of the chain.
\<close>

section \<open>The composition\<close>

text \<open>What a dispatched task does, with the network and the upstream authority as arguments.\<close>

definition run_task ::
  "'k libs \<Rightarrow> settings \<Rightarrow> (string \<Rightarrow> string list) \<Rightarrow> (nat \<Rightarrow> network) \<Rightarrow> (string \<Rightarrow> string \<Rightarrow> exc + string) \<Rightarrow>
   draws \<Rightarrow> task \<Rightarrow> unit dbm" where
  "run_task L cfg bases nets issue D t = (case t of
     RunChallenge authz_id order_id \<Rightarrow> run_challenge L cfg nets authz_id order_id
   | ProcessFinalize order_id domain csr_der \<Rightarrow> process_finalize L bases issue D order_id domain csr_der)"

fun run_tasks :: "(task \<Rightarrow> unit dbm) \<Rightarrow> task list \<Rightarrow> unit dbm" where
  "run_tasks run [] = returnM ()"
| "run_tasks run (t # ts) = bindM (run t) (\<lambda>_. run_tasks run ts)"

text \<open>The order as its owner sees it at the end.\<close>

definition finished_order :: "settings \<Rightarrow> draws \<Rightarrow> acme_identifier \<Rightarrow> string \<Rightarrow> order_response" where
  "finished_order cfg D i cert_id =
     \<lparr>or_status = ''valid'', or_identifiers = [i], or_authorizations = [authz_url cfg (uuid4 D 1)],
      or_finalize = order_url cfg (uuid4 D 0) @ ''/finalize'',
      or_certificate = Some (relay_base_url cfg @ ''/acme/cert/'' @ cert_id),
      or_expires = isoformat_utc (Some (clock D 2 + days 1)), or_error = None\<rparr>"

section \<open>The stages of the tables\<close>

definition stage :: "draws \<Rightarrow> string \<Rightarrow> acme_identifier \<Rightarrow> string \<Rightarrow> string \<Rightarrow> database \<Rightarrow> database" where
  "stage D acct i so sz db =
     db\<lparr>orders := orders db @ [(new_order_row D acct [i])\<lparr>o_status := so\<rparr>],
        authorizations := authorizations db @ [(new_authz_row D 0 i)\<lparr>z_status := sz\<rparr>]\<rparr>"

definition finished :: "draws \<Rightarrow> string \<Rightarrow> acme_identifier \<Rightarrow> cert_row \<Rightarrow> database \<Rightarrow> database" where
  "finished D acct i c db =
     update_order (uuid4 D 0) (\<lambda>r. r\<lparr>o_cert_id := Some (c_id c), o_status := ''valid''\<rparr>)
       ((stage D acct i ''processing'' ''valid'' db)\<lparr>certificates := certificates db @ [c]\<rparr>)"

definition unused_keys :: "draws \<Rightarrow> database \<Rightarrow> bool" where
  "unused_keys D db \<longleftrightarrow> uuid4 D 0 \<notin> set (map o_id (orders db)) \<and> uuid4 D 1 \<notin> set (map z_id (authorizations db)) \<and>
     uuid4 D 0 \<notin> set (map z_order_id (authorizations db))"

lemma stage_start: "with_order D acct i db = stage D acct i ''pending'' ''pending'' db"
  by (simp add: with_order_def stage_def new_order_row_def new_authz_row_def)

lemma stage_get:
  assumes "unused_keys D db"
  shows "get_order_row (uuid4 D 0) (stage D acct i so sz db) = Some ((new_order_row D acct [i])\<lparr>o_status := so\<rparr>)"
    and "get_authz_row (uuid4 D 1) (stage D acct i so sz db) = Some ((new_authz_row D 0 i)\<lparr>z_status := sz\<rparr>)"
proof -
  have "tget o_id (uuid4 D 0) (orders db) = None" "tget z_id (uuid4 D 1) (authorizations db) = None"
    using assms by (simp_all add: unused_keys_def tget_None_iff)
  then show "get_order_row (uuid4 D 0) (stage D acct i so sz db) = Some ((new_order_row D acct [i])\<lparr>o_status := so\<rparr>)"
    "get_authz_row (uuid4 D 1) (stage D acct i so sz db) = Some ((new_authz_row D 0 i)\<lparr>z_status := sz\<rparr>)"
    by (simp_all add: get_order_row_def get_authz_row_def stage_def tget_append tget_Cons)
qed

lemma stage_update:
  assumes "unused_keys D db"
  shows "update_order (uuid4 D 0) (\<lambda>r. r\<lparr>o_status := so'\<rparr>) (stage D acct i so sz db) = stage D acct i so' sz db"
    and "update_authz (uuid4 D 1) (\<lambda>r. r\<lparr>z_status := sz'\<rparr>) (stage D acct i so sz db) = stage D acct i so sz' db"
proof -
  have "tupdate (\<lambda>r. o_id r = uuid4 D 0) (\<lambda>r. r\<lparr>o_status := so'\<rparr>) (orders db) = orders db"
    using assms by (intro order_status.tupdate_key_absent) (simp add: unused_keys_def)
  then show "update_order (uuid4 D 0) (\<lambda>r. r\<lparr>o_status := so'\<rparr>) (stage D acct i so sz db) = stage D acct i so' sz db"
    by (simp add: update_order_def stage_def tupdate_def)
  have "tupdate (\<lambda>r. z_id r = uuid4 D 1) (\<lambda>r. r\<lparr>z_status := sz'\<rparr>) (authorizations db) = authorizations db"
    using assms by (intro authz_status.tupdate_key_absent) (simp add: unused_keys_def)
  then show "update_authz (uuid4 D 1) (\<lambda>r. r\<lparr>z_status := sz'\<rparr>) (stage D acct i so sz db) = stage D acct i so sz' db"
    by (simp add: update_authz_def stage_def tupdate_def)
qed

section \<open>Stage by stage\<close>

lemma stage_ack:
  assumes "unused_keys D db"
  shows "\<exists>r. acknowledge_challenge_body cfg (uuid4 D 1) req (p, acct) (stage D acct i ''pending'' ''pending'' db) =
    (Inr (Inr r, [RunChallenge (uuid4 D 1) (uuid4 D 0)]), stage D acct i ''processing'' ''processing'' db)"
  using stage_get [OF assms] stage_update [OF assms]
  by (simp add: acknowledge_challenge_body_cases ack_prepare_def require_authz_owner_def ack_update_def Let_def)

lemma stage_validated:
  assumes "unused_keys D db" "get_account acct db = Some a" "key_authorization L (token D 0) (a_public_key a) = Inr expected"
    "validate_http01 cfg nets (id_value i) (token D 0) expected = Inr ()"
  shows "run_challenge L cfg nets (uuid4 D 1) (uuid4 D 0) (stage D acct i ''processing'' ''processing'' db) =
    (Inr (), stage D acct i ''ready'' ''valid'' db)"
proof -
  let ?db = "stage D acct i ''processing'' ''processing'' db"
  note g = stage_get [OF assms(1), of acct i "''processing''" "''processing''"]
  have acc: "get_account acct ?db = Some a" using assms(2) by (simp add: get_account_def stage_def)
  have b: "rc_begin L (uuid4 D 1) (uuid4 D 0) ?db = (Inr (Some \<lparr>rp_authz_id = uuid4 D 1, rp_order_id = uuid4 D 0,
      rp_domain = id_value i, rp_token = token D 0, rp_expected = expected\<rparr>), ?db)"
    using g acc assms(3) by (simp add: rc_begin_def)
  have "rc_finish (uuid4 D 1) (uuid4 D 0) (Inr ()) ?db = stage D acct i ''ready'' ''valid'' db"
  proof (subst rc_finish_success_eq [OF g(2,1)])
    show "\<forall>y \<in> set (authorizations ?db). z_order_id y = uuid4 D 0 \<longrightarrow> z_id y \<noteq> uuid4 D 1 \<longrightarrow> z_status y = ''valid''"
      using assms(1) by (force simp: stage_def unused_keys_def)
  qed (simp only: stage_update [OF assms(1)])
  with b assms(4) show ?thesis by (simp add: run_challenge_def bindM_apply)
qed

lemma stage_finalize:
  assumes "unused_keys D db" "validate_finalize L payload = Some csr" "b64url_decode csr = Some der"
  shows "\<exists>r. finalize_order_body L cfg (uuid4 D 0) req (payload, acct) (stage D acct i ''ready'' ''valid'' db) =
    (Inr (Inr r, [ProcessFinalize (uuid4 D 0) (id_value i) der]), stage D acct i ''processing'' ''valid'' db)"
proof -
  let ?db = "stage D acct i ''ready'' ''valid'' db"
  note g = stage_get(1) [OF assms(1), of acct i "''ready''" "''valid''"]
  have idj: "first_domain [identifier_json i] = Inr (id_value i)" by (simp add: first_domain_def identifier_json_def)
  obtain plan where p: "finalize_prepare L (uuid4 D 0) payload acct ?db = Inr plan"
    "fp_order_id plan = uuid4 D 0" "fp_domain plan = id_value i" "fp_csr_der plan = der" "fp_identifiers plan = map identifier_json [i]"
    using g assms(2,3) idj by (simp add: finalize_prepare_def require_order_owner_def b64_of_json_def)
  have "\<exists>r \<in> set (orders ?db). o_id r = uuid4 D 0 \<and> o_status r = ''ready''" by (simp add: stage_def)
  moreover have "snd (claim_order (uuid4 D 0) ?db) = stage D acct i ''processing'' ''valid'' db"
  proof -
    have "tupdate (\<lambda>r. o_id r = uuid4 D 0 \<and> o_status r = ''ready'') (\<lambda>r. r\<lparr>o_status := ''processing''\<rparr>) (orders db) = orders db"
      using assms(1) by (intro tupdate_none) (force simp: unused_keys_def tcount_def filter_empty_conv)
    then show ?thesis by (simp add: claim_order_db stage_def tupdate_def)
  qed
  moreover have "\<exists>r. Inr r = finalize_response cfg plan (stage D acct i ''processing'' ''valid'' db)"
    using p(5) load_identifier_objects_json [of "[i]"] by (simp add: finalize_response_def)
  ultimately show ?thesis
    unfolding finalize_order_body_Inr using p by (auto simp: finalize_commit_Inr)
qed

definition issued_row :: "'k libs \<Rightarrow> draws \<Rightarrow> string \<Rightarrow> string \<Rightarrow> cert_row" where
  "issued_row L D' order_id pem =
     new_cert_row L (uuid4 D' 0) (clock D' 1) order_id pem (cert_expiry_from_pem L (clock D' 0) pem)"

lemma issued_row_sel [simp]:
  "c_id (issued_row L D' i pem) = uuid4 D' 0" "c_order_id (issued_row L D' i pem) = i" "c_pem_chain (issued_row L D' i pem) = pem"
  by (simp_all add: issued_row_def new_cert_row_def)

lemma stage_issued:
  assumes "unused_keys D db" "issue (id_value i) der = Inr pem" "uuid4 D' 0 \<notin> set (map c_id (certificates db))"
  shows "process_finalize L bases issue D' (uuid4 D 0) (id_value i) der (stage D acct i ''processing'' ''valid'' db) =
      (Inr (), finished D acct i (issued_row L D' (uuid4 D 0) pem) db)"
proof -
  let ?db = "stage D acct i ''processing'' ''valid'' db"
  note g = stage_get(1) [OF assms(1), of acct i "''processing''" "''valid''"]
  have certs: "certificates ?db = certificates db" by (simp add: stage_def)
  have "pf_finish L bases D' (uuid4 D 0) (Inr pem) ?db = (Inr (), finished D acct i (issued_row L D' (uuid4 D 0) pem) db)"
    using pf_finish_Inr_valid [OF g, of D' L bases pem] assms(3)
    by (simp add: certs issued_row_def finished_def new_cert_row_def)
  then show ?thesis
    using assms(2) g by (simp add: process_finalize_def pf_begin_def bindM_apply)
qed

text \<open>Reading on the way: the authorization with its challenge, and the order.\<close>

lemma stage_authz:
  assumes "unused_keys D db"
  shows "get_authz_body cfg (uuid4 D 1) req (p, acct) (stage D acct i so ''pending'' db) =
    (Inr (json_response (authz_json \<lparr>zr_status = ''pending'', zr_identifier = \<lparr>id_type = ''dns'', id_value = id_value i\<rparr>,
         zr_challenges = [\<lparr>ch_type = ''http-01'', ch_url = challenge_url cfg (uuid4 D 1), ch_status = ''pending'',
           ch_token = token D 0, ch_error = None\<rparr>]\<rparr>) 200 [(''Link'', up_link (order_url cfg (uuid4 D 0)))]),
     stage D acct i so ''pending'' db)"
  using stage_get [OF assms, of acct i so "''pending''"]
  by (auto simp: get_authz_body_Inr authz_resource_def load_error_def new_authz_row_def)

lemma stage_order:
  assumes "unused_keys D db"
  shows "\<exists>or. get_order_body cfg (uuid4 D 0) req (p, acct) (stage D acct i so sz db) =
      (Inr (json_response (order_json or) 200 []), stage D acct i so sz db) \<and>
    or_status or = so \<and> or_finalize or = order_url cfg (uuid4 D 0) @ ''/finalize''"
proof -
  have "\<exists>or. order_resource cfg (uuid4 D 0) ((new_order_row D acct [i])\<lparr>o_status := so\<rparr>) (stage D acct i so sz db) = Inr or \<and>
      or_status or = so \<and> or_finalize or = order_url cfg (uuid4 D 0) @ ''/finalize''"
    by (simp add: order_resource_def load_error_def)
  with stage_get(1) [OF assms, of acct i so sz] show ?thesis unfolding get_order_body_Inr by force
qed

text \<open>The tables other than the nonces do not depend on the nonces.\<close>

lemma unused_keys_nonces [simp]: "unused_keys D (db\<lparr>nonces := ns\<rparr>) = unused_keys D db"
  by (simp add: unused_keys_def)

lemma stage_nonces [simp]: "stage D acct i so sz (db\<lparr>nonces := ns\<rparr>) = (stage D acct i so sz db)\<lparr>nonces := ns\<rparr>"
  by (simp add: stage_def)

lemma finished_nonces [simp]: "finished D acct i c (db\<lparr>nonces := ns\<rparr>) = (finished D acct i c db)\<lparr>nonces := ns\<rparr>"
  by (simp add: finished_def update_order_def)

lemma finished_row:
  assumes "unused_keys D db"
  shows "get_order_row (uuid4 D 0) (finished D acct i c db) =
    Some ((new_order_row D acct [i])\<lparr>o_cert_id := Some (c_id c), o_status := ''valid''\<rparr>)"
proof -
  have "get_order_row (uuid4 D 0) ((stage D acct i ''processing'' ''valid'' db)\<lparr>certificates := certificates db @ [c]\<rparr>) =
      Some ((new_order_row D acct [i])\<lparr>o_status := ''processing''\<rparr>)"
    using stage_get(1) [OF assms] by (simp add: get_order_row_def)
  then show ?thesis by (simp add: finished_def get_order_row_def order_cert.tget_tupdate_key)
qed

text \<open>The owner is shown where the certificate is.\<close>

lemma finished_shown:
  assumes "unused_keys D db" "c_id c \<noteq> ''''"
  shows "get_order_body cfg (uuid4 D 0) req (p, acct) (finished D acct i c db) =
    (Inr (json_response (order_json (finished_order cfg D i (c_id c))) 200 []), finished D acct i c db)"
proof -
  have "filter (\<lambda>z. z_order_id z = uuid4 D 0) (authorizations db) = []"
    using assms(1) by (force simp: unused_keys_def filter_empty_conv)
  then have az: "map z_id (order_authzs (uuid4 D 0) (finished D acct i c db)) = [uuid4 D 1]"
    by (simp add: order_authzs_def finished_def stage_def)
  have "order_resource cfg (uuid4 D 0) ((new_order_row D acct [i])\<lparr>o_cert_id := Some (c_id c), o_status := ''valid''\<rparr>)
      (finished D acct i c db) = Inr (finished_order cfg D i (c_id c))"
    using arg_cong [OF az, of "map (authz_url cfg)"] assms(2)
    by (simp add: order_resource_def load_error_def finished_order_def comp_def)
  with finished_row [OF assms(1), of acct i c] show ?thesis
    unfolding get_order_body_Inr by auto
qed

text \<open>The owner downloads what was issued.\<close>

lemma finished_download:
  assumes "unused_keys D db" "cert_keys_ok db" "c_id c \<notin> set (map c_id (certificates db))" "c_order_id c = uuid4 D 0"
  shows "download_cert_body (c_id c) req (p, acct) (finished D acct i c db) =
    (Inr \<lparr>rs_status = 200, rs_content = RawBody ''application/pem-certificate-chain'' (c_pem_chain c), rs_headers = []\<rparr>,
     finished D acct i c db)"
proof -
  have k: "cert_keys_ok (finished D acct i c db)" using assms(2,3) by (simp add: cert_keys_ok_def finished_def)
  have "tget c_id (c_id c) (certificates db) = None" using assms(3) by (simp add: tget_None_iff)
  then have "get_cert_row (c_id c) (finished D acct i c db) = Some c"
    by (simp add: get_cert_row_def finished_def tget_append tget_Cons)
  with finished_row [OF assms(1), of acct i c] assms(4) show ?thesis
    unfolding download_cert_body_Inr [OF k] by auto
qed

end
