(* ===== verification/Routing.thy ===== *)
theory Routing
  imports App
begin

text \<open>
  Which handler a request reaches: the path decorators of \<^verbatim>\<open>routes/\<close>, the order in which \<^verbatim>\<open>main.py\<close>
  includes the routers, and the application as a function of the whole request.  Matching one path
  template against one path is the framework's: an argument, of which \<open>documented_match\<close> states the
  documented behaviour.  The lemmas follow the URLs the relay hands out back to their handlers.
\<close>

section \<open>The routers\<close>

text \<open>A handler without path parameters, or with the one parameter it names.\<close>

datatype handler = Fixed endpoint | ById string "string \<Rightarrow> endpoint"

type_synonym router = "(string \<times> string \<times> handler) list"

definition health_router :: router where
  "health_router = [(''GET'', ''/healthz'', Fixed Healthz), (''GET'', ''/version'', Fixed Version)]"

definition directory_router :: router where
  "directory_router = [(''GET'', ''/directory'', Fixed Directory)]"

definition nonce_router :: router where
  "nonce_router = [(''HEAD'', ''/acme/new-nonce'', Fixed NonceHead), (''POST'', ''/acme/new-nonce'', Fixed NoncePost)]"

definition account_router :: router where
  "account_router = [(''POST'', ''/acme/new-account'', Fixed NewAccount)]"

definition order_router :: router where
  "order_router =
     [(''POST'', ''/acme/new-order'', Fixed NewOrder), (''POST'', ''/acme/order/{order_id}'', ById ''order_id'' GetOrder),
      (''POST'', ''/acme/order/{order_id}/finalize'', ById ''order_id'' FinalizeOrder)]"

definition authz_router :: router where
  "authz_router = [(''POST'', ''/acme/authz/{authz_id}'', ById ''authz_id'' GetAuthz)]"

definition challenge_router :: router where
  "challenge_router = [(''POST'', ''/acme/challenge/{authz_id}'', ById ''authz_id'' AckChallenge)]"

definition cert_router :: router where
  "cert_router = [(''POST'', ''/acme/cert/{cert_id}'', ById ''cert_id'' DownloadCert)]"

definition revoke_router :: router where
  "revoke_router = [(''POST'', ''/acme/revoke-cert'', Fixed RevokeCert)]"

definition key_change_router :: router where
  "key_change_router = [(''POST'', ''/acme/key-change'', Fixed KeyChange)]"

definition terms_router :: router where
  "terms_router = [(''GET'', ''/acme/terms'', Fixed Terms)]"

text \<open>\<open>app.include_router\<close>, in the order of the calls.\<close>

definition app_routes :: router where
  "app_routes = concat [health_router, directory_router, nonce_router, account_router, order_router, authz_router,
     challenge_router, cert_router, revoke_router, key_change_router, terms_router]"

section \<open>Resolution\<close>

text \<open>
  The documented order of the framework: the first route that matches path and method is called.
  Otherwise the framework answers itself: \<open>NoMethod\<close> when only the path matches some route, else
  \<open>NoRoute\<close>.  Its own page \<open>/openapi.json\<close> is not part of the table.
\<close>

datatype resolution = Found endpoint | NoMethod | NoRoute

type_synonym matcher = "string \<Rightarrow> string \<Rightarrow> (string \<times> string) list option"

definition call_handler :: "handler \<Rightarrow> (string \<times> string) list \<Rightarrow> endpoint option" where
  "call_handler h params = (case h of Fixed ep \<Rightarrow> Some ep | ById p f \<Rightarrow> map_option f (map_of params p))"

fun resolve_in :: "matcher \<Rightarrow> router \<Rightarrow> string \<Rightarrow> string \<Rightarrow> bool \<Rightarrow> resolution" where
  "resolve_in mt [] method path seen = (if seen then NoMethod else NoRoute)"
| "resolve_in mt ((m, template, h) # rs) method path seen =
     (case mt template path of
        None \<Rightarrow> resolve_in mt rs method path seen
      | Some params \<Rightarrow>
          if m \<noteq> method then resolve_in mt rs method path True
          else (case call_handler h params of Some ep \<Rightarrow> Found ep | None \<Rightarrow> NoRoute))"

definition resolve :: "matcher \<Rightarrow> string \<Rightarrow> string \<Rightarrow> resolution" where
  "resolve mt method path = resolve_in mt app_routes method path False"

text \<open>\<open>request.url.path\<close> of an absolute URL.\<close>

definition url_path :: "string \<Rightarrow> string" where
  "url_path url = dropWhile (\<lambda>c. c \<noteq> CHR ''/'')
     (if startswith url ''https://'' then drop 8 url else if startswith url ''http://'' then drop 7 url else url)"

text \<open>
  The application: the router inside the middleware, which also handles what the framework answers
  itself (\<open>fallback\<close>).
\<close>

definition app_request ::
  "matcher \<Rightarrow> (resolution \<Rightarrow> response) \<Rightarrow> (int \<Rightarrow> json \<Rightarrow> response) \<Rightarrow> 'k libs \<Rightarrow> settings \<Rightarrow> string \<Rightarrow> draws \<Rightarrow>
   (json \<Rightarrow> json \<Rightarrow> exc + unit) \<Rightarrow> string \<Rightarrow> datetime \<Rightarrow> request \<Rightarrow> database \<Rightarrow> (exc + response) \<times> task list \<times> database" where
  "app_request mt fallback render L cfg ver D le_revoke fresh now req db =
     (case resolve mt (rq_method req) (url_path (rq_url req)) of
        Found ep \<Rightarrow> handle_request render L cfg ver D le_revoke fresh now ep req db
      | missed \<Rightarrow> let (r, db') = dispatch cfg fresh now req (fallback missed) db in (r, [], db'))"

section \<open>Templates\<close>

text \<open>
  The documented matching: a parameter in braces stands for one non-empty segment, everything else
  for itself.
\<close>

definition param_name :: "string \<Rightarrow> string option" where
  "param_name t = (if 2 \<le> length t \<and> hd t = CHR ''{'' \<and> last t = CHR ''}'' then Some (butlast (tl t)) else None)"

fun match_segments :: "string list \<Rightarrow> string list \<Rightarrow> (string \<times> string) list option" where
  "match_segments [] [] = Some []"
| "match_segments (t # ts) (p # ps) = (case param_name t of
     None \<Rightarrow> if t = p then match_segments ts ps else None
   | Some x \<Rightarrow> if p = [] then None else map_option (\<lambda>m. (x, p) # m) (match_segments ts ps))"
| "match_segments _ _ = None"

definition match_template :: matcher where
  "match_template template path = match_segments (split_on CHR ''/'' template) (split_on CHR ''/'' path)"

definition documented_match :: "matcher \<Rightarrow> bool" where
  "documented_match mt \<longleftrightarrow> (\<forall>template path. CHR 0x0A \<notin> set path \<longrightarrow> mt template path = match_template template path)"

lemmas router_defs = app_routes_def health_router_def directory_router_def nonce_router_def account_router_def
  order_router_def authz_router_def challenge_router_def cert_router_def revoke_router_def key_change_router_def
  terms_router_def

lemma match_template_app:
  "match_template ''/healthz'' p = match_segments ['''', ''healthz''] (split_on CHR ''/'' p)"
  "match_template ''/version'' p = match_segments ['''', ''version''] (split_on CHR ''/'' p)"
  "match_template ''/directory'' p = match_segments ['''', ''directory''] (split_on CHR ''/'' p)"
  "match_template ''/acme/new-nonce'' p = match_segments ['''', ''acme'', ''new-nonce''] (split_on CHR ''/'' p)"
  "match_template ''/acme/new-account'' p = match_segments ['''', ''acme'', ''new-account''] (split_on CHR ''/'' p)"
  "match_template ''/acme/new-order'' p = match_segments ['''', ''acme'', ''new-order''] (split_on CHR ''/'' p)"
  "match_template ''/acme/order/{order_id}'' p = match_segments ['''', ''acme'', ''order'', ''{order_id}''] (split_on CHR ''/'' p)"
  "match_template ''/acme/order/{order_id}/finalize'' p =
     match_segments ['''', ''acme'', ''order'', ''{order_id}'', ''finalize''] (split_on CHR ''/'' p)"
  "match_template ''/acme/authz/{authz_id}'' p = match_segments ['''', ''acme'', ''authz'', ''{authz_id}''] (split_on CHR ''/'' p)"
  "match_template ''/acme/challenge/{authz_id}'' p = match_segments ['''', ''acme'', ''challenge'', ''{authz_id}''] (split_on CHR ''/'' p)"
  "match_template ''/acme/cert/{cert_id}'' p = match_segments ['''', ''acme'', ''cert'', ''{cert_id}''] (split_on CHR ''/'' p)"
  "match_template ''/acme/revoke-cert'' p = match_segments ['''', ''acme'', ''revoke-cert''] (split_on CHR ''/'' p)"
  "match_template ''/acme/key-change'' p = match_segments ['''', ''acme'', ''key-change''] (split_on CHR ''/'' p)"
  "match_template ''/acme/terms'' p = match_segments ['''', ''acme'', ''terms''] (split_on CHR ''/'' p)"
  by (simp_all add: match_template_def)

lemma param_name_app [simp]:
  "param_name '''' = None" "param_name ''acme'' = None" "param_name ''healthz'' = None" "param_name ''version'' = None"
  "param_name ''directory'' = None" "param_name ''new-nonce'' = None" "param_name ''new-account'' = None"
  "param_name ''new-order'' = None" "param_name ''order'' = None" "param_name ''authz'' = None" "param_name ''challenge'' = None"
  "param_name ''cert'' = None" "param_name ''revoke-cert'' = None" "param_name ''key-change'' = None" "param_name ''terms'' = None"
  "param_name ''finalize'' = None" "param_name ''{order_id}'' = Some ''order_id''"
  "param_name ''{authz_id}'' = Some ''authz_id''" "param_name ''{cert_id}'' = Some ''cert_id''"
  by (simp_all add: param_name_def)

lemma resolve_documented:
  assumes "documented_match mt" "CHR 0x0A \<notin> set path"
  shows "resolve mt method path = resolve match_template method path"
proof -
  have "resolve_in mt rs method path seen = resolve_in match_template rs method path seen" for rs seen
    using assms unfolding documented_match_def
    by (induction rs arbitrary: seen) (auto split: option.splits)
  then show ?thesis by (simp add: resolve_def)
qed

section \<open>The URLs of the relay\<close>

text \<open>Identifiers that are one segment, as UUIDs are, and a base URL without a path of its own.\<close>

definition segment_ok :: "string \<Rightarrow> bool" where
  "segment_ok i \<longleftrightarrow> i \<noteq> [] \<and> CHR ''/'' \<notin> set i \<and> CHR 0x0A \<notin> set i"

definition plain_base :: "settings \<Rightarrow> bool" where
  "plain_base cfg \<longleftrightarrow> (\<exists>host. CHR ''/'' \<notin> set host \<and>
     (relay_base_url cfg = ''https://'' @ host \<or> relay_base_url cfg = ''http://'' @ host))"

lemma plain_base_domain: "CHR ''/'' \<notin> set (relay_domain cfg) \<Longrightarrow> plain_base cfg"
  by (auto simp: plain_base_def relay_base_url_def startswith_iff)

lemma url_path_base:
  assumes "plain_base cfg"
  shows "url_path (relay_base_url cfg @ CHR ''/'' # t) = CHR ''/'' # t"
proof -
  obtain host where h: "CHR ''/'' \<notin> set host"
    "relay_base_url cfg = ''https://'' @ host \<or> relay_base_url cfg = ''http://'' @ host"
    using assms by (auto simp: plain_base_def)
  have "dropWhile (\<lambda>c. c \<noteq> CHR ''/'') (host @ CHR ''/'' # t) = CHR ''/'' # t"
    using h(1) by (induction host) auto
  with h(2) show ?thesis by (auto simp: url_path_def startswith_def)
qed

lemma resolve_static:
  "resolve match_template ''GET'' ''/directory'' = Found Directory"
  "resolve match_template ''HEAD'' ''/acme/new-nonce'' = Found NonceHead"
  "resolve match_template ''POST'' ''/acme/new-nonce'' = Found NoncePost"
  "resolve match_template ''POST'' ''/acme/new-account'' = Found NewAccount"
  "resolve match_template ''POST'' ''/acme/new-order'' = Found NewOrder"
  "resolve match_template ''POST'' ''/acme/revoke-cert'' = Found RevokeCert"
  "resolve match_template ''POST'' ''/acme/key-change'' = Found KeyChange"
  "resolve match_template ''GET'' ''/acme/terms'' = Found Terms"
  "resolve match_template ''GET'' ''/acme/new-nonce'' = NoMethod"
  by (simp_all add: resolve_def router_defs match_template_app call_handler_def)

lemma resolve_by_id:
  assumes "segment_ok i"
  shows "resolve match_template ''POST'' (''/acme/order/'' @ i) = Found (GetOrder i)"
    "resolve match_template ''POST'' (''/acme/order/'' @ i @ ''/finalize'') = Found (FinalizeOrder i)"
    "resolve match_template ''POST'' (''/acme/authz/'' @ i) = Found (GetAuthz i)"
    "resolve match_template ''POST'' (''/acme/challenge/'' @ i) = Found (AckChallenge i)"
    "resolve match_template ''POST'' (''/acme/cert/'' @ i) = Found (DownloadCert i)"
    "resolve match_template method (''/acme/account/'' @ i) = NoRoute"
    "resolve match_template method (''/acme/account/'' @ i @ ''/orders'') = NoRoute"
proof -
  have i: "i \<noteq> []" "split_on CHR ''/'' i = [i]" "\<And>t. split_on CHR ''/'' (i @ CHR ''/'' # t) = i # split_on CHR ''/'' t"
    using assms by (simp_all add: segment_ok_def split_on_free split_on_append_sep)
  show "resolve match_template ''POST'' (''/acme/order/'' @ i) = Found (GetOrder i)"
    "resolve match_template ''POST'' (''/acme/order/'' @ i @ ''/finalize'') = Found (FinalizeOrder i)"
    "resolve match_template ''POST'' (''/acme/authz/'' @ i) = Found (GetAuthz i)"
    "resolve match_template ''POST'' (''/acme/challenge/'' @ i) = Found (AckChallenge i)"
    "resolve match_template ''POST'' (''/acme/cert/'' @ i) = Found (DownloadCert i)"
    "resolve match_template method (''/acme/account/'' @ i) = NoRoute"
    "resolve match_template method (''/acme/account/'' @ i @ ''/orders'') = NoRoute"
    by (simp_all add: resolve_def router_defs match_template_app call_handler_def i)
qed

text \<open>The same for the complete URLs and the matcher of the framework.\<close>

lemma resolve_url:
  assumes "documented_match mt" "plain_base cfg" "CHR 0x0A \<notin> set t"
  shows "resolve mt method (url_path (relay_base_url cfg @ CHR ''/'' # t)) = resolve match_template method (CHR ''/'' # t)"
  using assms(3) by (simp add: url_path_base [OF assms(2)] resolve_documented [OF assms(1)])

lemma resolve_handed_out:
  assumes "documented_match mt" "plain_base cfg" "segment_ok i"
  shows "resolve mt ''POST'' (url_path (order_url cfg i)) = Found (GetOrder i)"
    "resolve mt ''POST'' (url_path (order_url cfg i @ ''/finalize'')) = Found (FinalizeOrder i)"
    "resolve mt ''POST'' (url_path (authz_url cfg i)) = Found (GetAuthz i)"
    "resolve mt ''POST'' (url_path (challenge_url cfg i)) = Found (AckChallenge i)"
    "resolve mt ''POST'' (url_path (relay_base_url cfg @ ''/acme/cert/'' @ i)) = Found (DownloadCert i)"
    "resolve mt method (url_path (account_url cfg i)) = NoRoute"
    "resolve mt method (url_path (account_url cfg i @ ''/orders'')) = NoRoute"
  using resolve_by_id [OF assms(3)] assms(3)
  by (simp_all add: order_url_def authz_url_def challenge_url_def account_url_def resolve_url [OF assms(1,2)] segment_ok_def)

text \<open>A handler that authenticates is reached by POST only.\<close>

lemma resolve_in_authenticated:
  assumes "resolve_in mt rs verb path seen = Found ep" "authenticated ep"
    "\<forall>(m, template, h) \<in> set rs. m = ''POST'' \<or> (\<exists>e. h = Fixed e \<and> \<not> authenticated e)"
  shows "verb = ''POST''"
  using assms
  by (induction mt rs verb path seen rule: resolve_in.induct)
     (fastforce simp: call_handler_def split: option.splits if_splits handler.splits)+

lemma resolve_authenticated:
  assumes "resolve mt method path = Found ep" "authenticated ep"
  shows "method = ''POST''"
  using assms unfolding resolve_def
  by (rule resolve_in_authenticated) (simp add: router_defs authenticated_def)

end
