(* ===== verification/Session.thy ===== *)
theory Session
  imports Client EndToEnd Routing
begin

text \<open>
  A client of the relay, over HTTP.  The client knows the base URL, its key and what it wants; every
  other URL and every nonce it takes from the responses.  Its requests go through the router and the
  middleware, the tasks they start run to their end before the next request.  The theory composes
  the routes, the nonce store, the verification of requests, the tasks and the routing into one
  session, from the directory to the downloaded chain.
\<close>

section \<open>The server\<close>

text \<open>
  The framework, the libraries, the settings and the outside world of the tasks; \<open>se_draws k\<close>,
  \<open>se_fresh k\<close> and \<open>se_now k\<close> are what the server draws and reads while it answers request \<open>k\<close>.
\<close>

record 'k server_env =
  se_match :: matcher
  se_fallback :: "resolution \<Rightarrow> response"
  se_render :: "int \<Rightarrow> json \<Rightarrow> response"
  se_libs :: "'k libs"
  se_cfg :: settings
  se_version :: string
  se_draws :: "nat \<Rightarrow> draws"
  se_fresh :: "nat \<Rightarrow> string"
  se_now :: "nat \<Rightarrow> datetime"
  se_revoke :: "json \<Rightarrow> json \<Rightarrow> exc + unit"
  se_bases :: "string \<Rightarrow> string list"
  se_nets :: "nat \<Rightarrow> network"
  se_issue :: "string \<Rightarrow> string \<Rightarrow> exc + string"
  se_task_draws :: draws

definition tasks_of :: "'k server_env \<Rightarrow> task list \<Rightarrow> unit dbm" where
  "tasks_of E = run_tasks (run_task (se_libs E) (se_cfg E) (se_bases E) (se_nets E) (se_issue E) (se_task_draws E))"

definition serve_request :: "'k server_env \<Rightarrow> nat \<Rightarrow> request \<Rightarrow> database \<Rightarrow> (exc + response) \<times> database" where
  "serve_request E k req db =
     (case app_request (se_match E) (se_fallback E) (se_render E) (se_libs E) (se_cfg E) (se_version E) (se_draws E k)
        (se_revoke E) (se_fresh E k) (se_now E k) req db of
        (r, ts, db1) \<Rightarrow> (r, snd (tasks_of E ts db1)))"

section \<open>The client\<close>

record client =
  ac_alg :: string
  ac_jwk :: json
  ac_sign :: "string \<Rightarrow> string"

record session =
  ss_db :: database
  ss_nonce :: string
  ss_sent :: nat

definition exchange :: "'k server_env \<Rightarrow> request \<Rightarrow> (exc, session, response) comp" where
  "exchange E req = (\<lambda>s. case serve_request E (ss_sent s) req (ss_db s) of
     (Inl e, db) \<Rightarrow> (Inl e, s\<lparr>ss_db := db, ss_sent := Suc (ss_sent s)\<rparr>)
   | (Inr r, db) \<Rightarrow> (Inr r, s\<lparr>ss_db := db, ss_sent := Suc (ss_sent s),
       ss_nonce := (case map_of (rs_headers r) ''Replay-Nonce'' of Some n \<Rightarrow> n | None \<Rightarrow> ss_nonce s)\<rparr>))"

definition fetch :: "'k server_env \<Rightarrow> string \<Rightarrow> string \<Rightarrow> (exc, session, response) comp" where
  "fetch E method url = exchange E \<lparr>rq_method = method, rq_url = url, rq_content_type = None, rq_body = ''''\<rparr>"

definition client_header :: "client \<Rightarrow> string \<times> json \<Rightarrow> string \<Rightarrow> string \<Rightarrow> (string \<times> json) list" where
  "client_header C who url n = [(''alg'', JStr (ac_alg C)), (''nonce'', JStr n), (''url'', JStr url), who]"

definition signed :: "client \<Rightarrow> string \<times> json \<Rightarrow> string \<Rightarrow> json \<Rightarrow> string \<Rightarrow> request" where
  "signed C who url payload n = make_request url (client_header C who url n) payload
     (ac_sign C (signing_input (client_header C who url n) payload))"

definition post :: "'k server_env \<Rightarrow> client \<Rightarrow> string \<times> json \<Rightarrow> string \<Rightarrow> json \<Rightarrow> (exc, session, response) comp" where
  "post E C who url payload = bindM (readM ss_nonce) (\<lambda>n. exchange E (signed C who url payload n))"

text \<open>What the client reads from a response.\<close>

definition json_member :: "string \<Rightarrow> content \<Rightarrow> exc + json" where
  "json_member key c = (case c of
     JSONBody (JObj kvs) \<Rightarrow> of_option (PyError ''KeyError'') (map_of kvs key)
   | _ \<Rightarrow> Inl (PyError ''TypeError''))"

definition text_of :: "json \<Rightarrow> exc + string" where
  "text_of j = (case j of JStr s \<Rightarrow> Inr s | _ \<Rightarrow> Inl (PyError ''TypeError''))"

definition first_of :: "json \<Rightarrow> exc + json" where
  "first_of j = (case j of JArr (x # _) \<Rightarrow> Inr x | _ \<Rightarrow> Inl (PyError ''IndexError''))"

definition url_in :: "string \<Rightarrow> content \<Rightarrow> exc + string" where
  "url_in key c = bindE (json_member key c) text_of"

definition location :: "response \<Rightarrow> exc + string" where
  "location r = of_option (PyError ''KeyError'') (map_of (rs_headers r) ''Location'')"

definition challenge_in :: "content \<Rightarrow> exc + string" where
  "challenge_in c = bindE (json_member ''challenges'' c) (\<lambda>js. bindE (first_of js) (\<lambda>ch. case ch of
     JObj kvs \<Rightarrow> bindE (of_option (PyError ''KeyError'') (map_of kvs ''url'')) text_of
   | _ \<Rightarrow> Inl (PyError ''TypeError'')))"

definition raw_body :: "content \<Rightarrow> exc + string" where
  "raw_body c = (case c of RawBody _ t \<Rightarrow> Inr t | _ \<Rightarrow> Inl (PyError ''TypeError''))"

definition first_authz :: "content \<Rightarrow> exc + string" where
  "first_authz c = bindE (json_member ''authorizations'' c) (\<lambda>js. bindE (first_of js) text_of)"

text \<open>A registered client from the order to the chain.\<close>

definition order_session ::
  "'k server_env \<Rightarrow> client \<Rightarrow> string \<Rightarrow> string \<Rightarrow> json \<Rightarrow> json \<Rightarrow> (exc, session, string) comp" where
  "order_session E C new_order_url kid order_payload csr_payload =
     (let send = post E C (''kid'', JStr kid) in
      bindM (send new_order_url order_payload) (\<lambda>created.
      bindM (liftM (location created)) (\<lambda>order_uri.
      bindM (liftM (first_authz (rs_content created))) (\<lambda>authz_uri.
      bindM (send authz_uri (JObj [])) (\<lambda>authz.
      bindM (liftM (challenge_in (rs_content authz))) (\<lambda>challenge_uri.
      bindM (send challenge_uri (JObj [])) (\<lambda>_.
      bindM (send order_uri (JObj [])) (\<lambda>ready.
      bindM (liftM (url_in ''finalize'' (rs_content ready))) (\<lambda>finalize_uri.
      bindM (send finalize_uri csr_payload) (\<lambda>_.
      bindM (send order_uri (JObj [])) (\<lambda>shown.
      bindM (liftM (url_in ''certificate'' (rs_content shown))) (\<lambda>cert_uri.
      bindM (send cert_uri (JObj [])) (\<lambda>chain. liftM (raw_body (rs_content chain)))))))))))))))"

text \<open>The whole session: directory, nonce, registration, order.\<close>

definition acme_session ::
  "'k server_env \<Rightarrow> client \<Rightarrow> json \<Rightarrow> json \<Rightarrow> json \<Rightarrow> (exc, session, string) comp" where
  "acme_session E C account_payload order_payload csr_payload =
     bindM (fetch E ''GET'' (relay_base_url (se_cfg E) @ ''/directory'')) (\<lambda>dir.
     bindM (liftM (url_in ''newNonce'' (rs_content dir))) (\<lambda>nonce_url.
     bindM (fetch E ''HEAD'' nonce_url) (\<lambda>_.
     bindM (liftM (url_in ''newAccount'' (rs_content dir))) (\<lambda>new_account_url.
     bindM (post E C (''jwk'', ac_jwk C) new_account_url account_payload) (\<lambda>registered.
     bindM (liftM (location registered)) (\<lambda>kid.
     bindM (liftM (url_in ''newOrder'' (rs_content dir))) (\<lambda>new_order_url.
       order_session E C new_order_url kid order_payload csr_payload)))))))"

section \<open>One request\<close>

definition route_body ::
  "'k libs \<Rightarrow> settings \<Rightarrow> draws \<Rightarrow> (json \<Rightarrow> json \<Rightarrow> exc + unit) \<Rightarrow> endpoint \<Rightarrow> request \<Rightarrow> json \<times> string \<Rightarrow> reply dbm" where
  "route_body L cfg D lr ep req pa = (case ep of
     NewAccount \<Rightarrow> plain (new_account_body L cfg D req pa)
   | NewOrder \<Rightarrow> plain (new_order_body L cfg D req pa)
   | GetOrder i \<Rightarrow> plain (get_order_body cfg i req pa)
   | FinalizeOrder i \<Rightarrow> finalize_order_body L cfg i req pa
   | GetAuthz i \<Rightarrow> plain (get_authz_body cfg i req pa)
   | AckChallenge i \<Rightarrow> acknowledge_challenge_body cfg i req pa
   | DownloadCert i \<Rightarrow> plain (download_cert_body i req pa)
   | RevokeCert \<Rightarrow> plain (revoke_cert_body L lr req pa)
   | KeyChange \<Rightarrow> plain (key_change_body L cfg req pa)
   | _ \<Rightarrow> throwM (PyError ''''))"

lemma plain_bindM: "plain (bindM m f) = bindM m (\<lambda>x. plain (f x))"
  by (rule ext) (simp add: plain_def bindM_apply split: prod.splits sum.splits)

lemma route_authenticated:
  assumes "authenticated ep"
  shows "route L cfg ver D lr ep req = bindM (verify_jws L cfg (clock D 0) req) (route_body L cfg D lr ep req)"
  using assms by (cases ep) (auto simp: route_def authenticated_def route_defs plain_bindM route_body_def [abs_def])

text \<open>The middleware keeps everything of a response but the two headers it sets.\<close>

lemma dispatch_fresh:
  assumes "rq_method req = ''POST'' \<or> rq_method req = ''HEAD''" "\<not> nonce_cap_reached cfg db" "fresh \<notin> set (map n_value (nonces db))"
  shows "\<exists>r'. dispatch cfg fresh now req r db =
      (Inr r', db\<lparr>nonces := nonces db @ [\<lparr>n_value = fresh, n_used = False, n_created_at = now\<rparr>]\<rparr>) \<and>
    rs_content r' = rs_content r \<and> rs_status r' = rs_status r \<and> map_of (rs_headers r') ''Replay-Nonce'' = Some fresh \<and>
    (\<forall>h. h \<notin> {''Link'', ''Replay-Nonce''} \<longrightarrow> map_of (rs_headers r') h = map_of (rs_headers r) h)"
  using assms
  by (auto simp: dispatch_def Let_def bindM_apply generate_nonce_def insert_nonce_def tinsert_def add_nonce_def add_link_def
      map_of_dict_set)

section \<open>The nonces of a session\<close>

text \<open>
  What the server draws is new, the store has room, and the client is fast enough.  \<open>V\<close> are the values
  in the store at the beginning; the session sends ten requests, of which nine return a nonce.
\<close>

definition env_ok :: "'k server_env \<Rightarrow> string list \<Rightarrow> bool" where
  "env_ok E V \<longleftrightarrow> documented_match (se_match E) \<and> plain_base (se_cfg E) \<and> distinct (V @ map (se_fresh E) [1..<10]) \<and>
     (nonce_max (se_cfg E) \<le> 0 \<or> int (length V) + 9 \<le> nonce_max (se_cfg E)) \<and>
     (\<forall>k. se_now E k \<le> clock (se_draws E (Suc k)) 0 \<and>
       clock (se_draws E (Suc k)) 0 \<le> se_now E k + seconds (nonce_ttl (se_cfg E)))"

definition live_session :: "'k server_env \<Rightarrow> string list \<Rightarrow> database \<Rightarrow> nat \<Rightarrow> session \<Rightarrow> bool" where
  "live_session E V db k s \<longleftrightarrow> (\<exists>ns. s = \<lparr>ss_db = db\<lparr>nonces := ns\<rparr>, ss_nonce = se_fresh E k, ss_sent = Suc k\<rparr> \<and>
     map n_value ns = V @ map (se_fresh E) [1..<Suc k] \<and>
     \<lparr>n_value = se_fresh E k, n_used = False, n_created_at = se_now E k\<rparr> \<in> set ns)"

lemma env_ok_room:
  assumes "env_ok E V" "map n_value ns = V @ map (se_fresh E) [1..<Suc k]" "Suc k < 10" "nonces db = ns"
  shows "\<not> nonce_cap_reached (se_cfg E) db" "se_fresh E (Suc k) \<notin> set (map n_value ns)"
proof -
  have "length ns = length V + k" using arg_cong [OF assms(2), of length] by simp
  with assms show "\<not> nonce_cap_reached (se_cfg E) db" by (auto simp: env_ok_def nonce_cap_reached_def)
  have inj: "inj_on (se_fresh E) {1..<10}" and dis: "set V \<inter> se_fresh E ` {1..<10} = {}"
    using assms(1) by (simp_all add: env_ok_def distinct_map)
  have k: "Suc k \<in> {1..<10}" "{1..<Suc k} \<subseteq> {1..<10}" "Suc k \<notin> {1..<Suc k}" using assms(3) by auto
  have "se_fresh E (Suc k) \<notin> se_fresh E ` {1..<Suc k}"
    using inj_on_image_mem_iff [OF inj k(1,2)] k(3) by simp
  moreover have "se_fresh E (Suc k) \<notin> set V" using dis k(1) by blast
  ultimately show "se_fresh E (Suc k) \<notin> set (map n_value ns)"
    unfolding assms(2) by (simp only: set_append set_map set_upt Un_iff simp_thms)
qed

lemma live_session_nonce:
  assumes "env_ok E V" "live_session E V db k s"
  obtains ns where "s = \<lparr>ss_db = db\<lparr>nonces := ns\<rparr>, ss_nonce = se_fresh E k, ss_sent = Suc k\<rparr>"
    "map n_value ns = V @ map (se_fresh E) [1..<Suc k]"
    "nonce_live (se_cfg E) (clock (se_draws E (Suc k)) 0) (db\<lparr>nonces := ns\<rparr>) (se_fresh E k)"
proof -
  let ?row = "\<lparr>n_value = se_fresh E k, n_used = False, n_created_at = se_now E k\<rparr>"
  obtain ns where ns: "s = \<lparr>ss_db = db\<lparr>nonces := ns\<rparr>, ss_nonce = se_fresh E k, ss_sent = Suc k\<rparr>"
    "map n_value ns = V @ map (se_fresh E) [1..<Suc k]" "?row \<in> set ns"
    using assms(2) unfolding live_session_def by blast
  have "clock (se_draws E (Suc k)) 0 \<le> se_now E k + seconds (nonce_ttl (se_cfg E))" using assms(1) by (simp add: env_ok_def)
  then have "nonce_live (se_cfg E) (clock (se_draws E (Suc k)) 0) (db\<lparr>nonces := ns\<rparr>) (se_fresh E k)"
    unfolding nonce_live_def by (intro bexI [of _ ?row]) (use ns(3) in \<open>simp_all add: nonce_match_def nonce_cutoff_def\<close>)
  with ns(1,2) that show ?thesis by blast
qed

text \<open>
  The next request of a live session: verification accepts it, the body runs, the nonce of the response
  continues the session, and the tasks run.  Body and tasks are given by their effect on the tables
  other than the nonces.
\<close>

lemma session_serve:
  assumes env: "env_ok E V" "live_session E V db k s" "Suc k < 10"
    and req: "rq_method req = ''POST''" "resolve (se_match E) ''POST'' (url_path (rq_url req)) = Found ep" "authenticated ep"
    and ver: "\<And>ns. nonce_live (se_cfg E) (clock (se_draws E (Suc k)) 0) (db\<lparr>nonces := ns\<rparr>) (se_fresh E k) \<Longrightarrow>
        verify_jws (se_libs E) (se_cfg E) (clock (se_draws E (Suc k)) 0) req (db\<lparr>nonces := ns\<rparr>) =
          (Inr pa, snd (consume_nonce (se_cfg E) (clock (se_draws E (Suc k)) 0) (se_fresh E k) (db\<lparr>nonces := ns\<rparr>)))"
    and body: "\<And>ns. \<exists>r. route_body (se_libs E) (se_cfg E) (se_draws E (Suc k)) (se_revoke E) ep req pa (db\<lparr>nonces := ns\<rparr>) =
        (Inr (Inr r, ts), db'\<lparr>nonces := ns\<rparr>) \<and> P (rs_content r) (map_of (rs_headers r) ''Location'')"
    and tasks: "\<And>ns. snd (tasks_of E ts (db'\<lparr>nonces := ns\<rparr>)) = db''\<lparr>nonces := ns\<rparr>"
  shows "\<exists>r' s'. exchange E req s = (Inr r', s') \<and> live_session E V db'' (Suc k) s' \<and>
    P (rs_content r') (map_of (rs_headers r') ''Location'')"
proof -
  let ?t = "clock (se_draws E (Suc k)) 0" and ?cfg = "se_cfg E"
  obtain ns where s: "s = \<lparr>ss_db = db\<lparr>nonces := ns\<rparr>, ss_nonce = se_fresh E k, ss_sent = Suc k\<rparr>"
    and vals: "map n_value ns = V @ map (se_fresh E) [1..<Suc k]" and live: "nonce_live ?cfg ?t (db\<lparr>nonces := ns\<rparr>) (se_fresh E k)"
    by (rule live_session_nonce [OF env(1,2)])
  define ns1 where "ns1 = tupdate (nonce_match (se_fresh E k) (nonce_cutoff ?cfg ?t)) (\<lambda>r. r\<lparr>n_used := True\<rparr>) ns"
  let ?new = "\<lparr>n_value = se_fresh E (Suc k), n_used = False, n_created_at = se_now E (Suc k)\<rparr>"
  from live have v: "verify_jws (se_libs E) ?cfg ?t req (db\<lparr>nonces := ns\<rparr>) = (Inr pa, db\<lparr>nonces := ns1\<rparr>)"
    by (simp add: ver consume_nonce_db ns1_def)
  have vals1: "map n_value ns1 = V @ map (se_fresh E) [1..<Suc k]" using vals by (simp add: ns1_def)
  obtain r where b: "route_body (se_libs E) ?cfg (se_draws E (Suc k)) (se_revoke E) ep req pa (db\<lparr>nonces := ns1\<rparr>) =
      (Inr (Inr r, ts), db'\<lparr>nonces := ns1\<rparr>)" "P (rs_content r) (map_of (rs_headers r) ''Location'')" using body by blast
  have rt: "route (se_libs E) ?cfg (se_version E) (se_draws E (Suc k)) (se_revoke E) ep req (db\<lparr>nonces := ns\<rparr>) =
      (Inr (Inr r, ts), db'\<lparr>nonces := ns1\<rparr>)"
    unfolding route_authenticated [OF req(3)] by (simp add: bindM_apply v b(1))
  obtain r' where d: "dispatch ?cfg (se_fresh E (Suc k)) (se_now E (Suc k)) req r (db'\<lparr>nonces := ns1\<rparr>) =
      (Inr r', db'\<lparr>nonces := ns1 @ [?new]\<rparr>)" and r': "rs_content r' = rs_content r"
      "map_of (rs_headers r') ''Replay-Nonce'' = Some (se_fresh E (Suc k))"
      "\<forall>h. h \<notin> {''Link'', ''Replay-Nonce''} \<longrightarrow> map_of (rs_headers r') h = map_of (rs_headers r) h"
    using dispatch_fresh [of req ?cfg "db'\<lparr>nonces := ns1\<rparr>" "se_fresh E (Suc k)" "se_now E (Suc k)" r] req(1)
      env_ok_room [OF env(1) vals1 env(3), of "db'\<lparr>nonces := ns1\<rparr>"] by auto
  have "serve_request E (Suc k) req (db\<lparr>nonces := ns\<rparr>) = (Inr r', db''\<lparr>nonces := ns1 @ [?new]\<rparr>)"
    by (simp add: serve_request_def app_request_def handle_request_def req(1,2) rt d tasks)
  then have "exchange E req s = (Inr r', \<lparr>ss_db = db''\<lparr>nonces := ns1 @ [?new]\<rparr>, ss_nonce = se_fresh E (Suc k), ss_sent = Suc (Suc k)\<rparr>)"
    by (simp add: exchange_def s r'(2))
  moreover have "live_session E V db'' (Suc k) \<lparr>ss_db = db''\<lparr>nonces := ns1 @ [?new]\<rparr>, ss_nonce = se_fresh E (Suc k), ss_sent = Suc (Suc k)\<rparr>"
    using vals1 unfolding live_session_def by (intro exI [of _ "ns1 @ [?new]"]) simp
  moreover have "map_of (rs_headers r') ''Location'' = map_of (rs_headers r) ''Location''" using r'(3) by simp
  then have "P (rs_content r') (map_of (rs_headers r') ''Location'')" using r'(1) b(2) by simp
  ultimately show ?thesis by blast
qed

section \<open>An honest client\<close>

definition client_ok :: "'k server_env \<Rightarrow> client \<Rightarrow> 'k \<Rightarrow> bool" where
  "client_ok E C key \<longleftrightarrow> ac_alg C \<in> set allowed_algs \<and>
     (\<forall>inp. ac_sign C inp \<noteq> [] \<and> jwa_verify (se_libs E) (ac_alg C) key inp (ac_sign C inp) = Some True)"

lemma client_header_ok:
  assumes "client_ok E C key" "fst who \<in> {''jwk'', ''kid''}" "wf_json (snd who)"
  shows "well_formed_header url (client_header C who url n) (ac_alg C) n"
  using assms by (cases who) (auto simp: well_formed_header_def client_header_def dict_get_def client_ok_def)

lemma resolve_key_nonces [simp]:
  "resolve_key_and_account L cfg header (db\<lparr>nonces := ns\<rparr>) = resolve_key_and_account L cfg header db"
  by (simp add: resolve_key_and_account_def kid_account_def Let_def cong: if_cong json.case_cong)

text \<open>
  What a request of a live session leads to: a response whose body and location satisfy \<open>P\<close>, and tables
  that are those of \<open>db'\<close> apart from the nonces.
\<close>

type_synonym expectation = "content \<Rightarrow> string option \<Rightarrow> bool"

definition answers ::
  "'k server_env \<Rightarrow> string list \<Rightarrow> nat \<Rightarrow> (exc, session, response) comp \<Rightarrow> database \<Rightarrow> expectation \<Rightarrow> database \<Rightarrow> bool" where
  "answers E V k m db P db' \<longleftrightarrow> (\<forall>s. live_session E V db k s \<longrightarrow>
     (\<exists>r s'. m s = (Inr r, s') \<and> live_session E V db' (Suc k) s' \<and> P (rs_content r) (map_of (rs_headers r) ''Location'')))"

lemma post_answers:
  assumes env: "env_ok E V" "Suc k < 10" and client: "client_ok E C key" "fst who \<in> {''jwk'', ''kid''}" "wf_json (snd who)"
    and req: "resolve (se_match E) ''POST'' (url_path url) = Found ep" "authenticated ep" "wf_json payload"
      "resolve_key_and_account (se_libs E) (se_cfg E) (client_header C who url (se_fresh E k)) db = Inr (key, acct)"
    and body: "\<And>ns. \<exists>r. route_body (se_libs E) (se_cfg E) (se_draws E (Suc k)) (se_revoke E) ep
        (signed C who url payload (se_fresh E k)) (payload, acct) (db\<lparr>nonces := ns\<rparr>) = (Inr (Inr r, ts), db'\<lparr>nonces := ns\<rparr>) \<and>
        P (rs_content r) (map_of (rs_headers r) ''Location'')"
    and tasks: "\<And>ns. snd (tasks_of E ts (db'\<lparr>nonces := ns\<rparr>)) = db''\<lparr>nonces := ns\<rparr>"
  shows "answers E V k (post E C who url payload) db P db''"
  unfolding answers_def
proof (intro allI impI)
  fix s assume s: "live_session E V db k s"
  let ?req = "signed C who url payload (se_fresh E k)"
  have n: "ss_nonce s = se_fresh E k" using s by (auto simp: live_session_def)
  have sg: "jwa_verify (se_libs E) (ac_alg C) key inp (ac_sign C inp) = Some True" "ac_sign C inp \<noteq> []" for inp
    using client(1) unfolding client_ok_def by blast+
  have "verify_jws (se_libs E) (se_cfg E) t ?req (db\<lparr>nonces := ns\<rparr>) =
      (Inr (payload, acct), snd (consume_nonce (se_cfg E) t (se_fresh E k) (db\<lparr>nonces := ns\<rparr>)))"
    if "nonce_live (se_cfg E) t (db\<lparr>nonces := ns\<rparr>) (se_fresh E k)" for t ns
    unfolding signed_def
    by (rule verify_make_request [OF client_header_ok [OF client] sg(2) req(3) _ sg(1) that]) (simp add: req(4))
  moreover have "rq_method ?req = ''POST''" "rq_url ?req = url" by (simp_all add: signed_def make_request_def)
  ultimately obtain r s' where "exchange E ?req s = (Inr r, s')" "live_session E V db'' (Suc k) s'"
      "P (rs_content r) (map_of (rs_headers r) ''Location'')"
    using session_serve [OF env(1) s env(2), of ?req ep "(payload, acct)" ts db' P db''] req(1,2) body tasks by auto
  then show "\<exists>r s'. post E C who url payload s = (Inr r, s') \<and> live_session E V db'' (Suc k) s' \<and>
      P (rs_content r) (map_of (rs_headers r) ''Location'')"
    by (simp add: post_def bindM_apply n)
qed

section \<open>Sequences of requests\<close>

definition yields :: "'k server_env \<Rightarrow> string list \<Rightarrow> nat \<Rightarrow> database \<Rightarrow> (exc, session, 'a) comp \<Rightarrow> 'a \<Rightarrow> bool" where
  "yields E V k db m y \<longleftrightarrow> (\<forall>s. live_session E V db k s \<longrightarrow> fst (m s) = Inr y)"

lemma yields_request:
  assumes "answers E V k m db P db'"
    "\<And>r. P (rs_content r) (map_of (rs_headers r) ''Location'') \<Longrightarrow> yields E V (Suc k) db' (f r) y"
  shows "yields E V k db (bindM m f) y"
  using assms unfolding yields_def answers_def by (fastforce simp: bindM_apply)

lemma yields_read: "x = Inr v \<Longrightarrow> yields E V k db (f v) y \<Longrightarrow> yields E V k db (bindM (liftM x) f) y"
  by (simp add: yields_def bindM_apply)

lemma yields_end: "x = Inr y \<Longrightarrow> yields E V k db (liftM x) y"
  by (simp add: yields_def)

section \<open>A registered client\<close>

abbreviation by_kid :: "'k server_env \<Rightarrow> client \<Rightarrow> string \<Rightarrow> string \<Rightarrow> json \<Rightarrow> (exc, session, response) comp" where
  "by_kid E C acct \<equiv> post E C (''kid'', JStr (account_url (se_cfg E) acct))"

lemma kid_resolves:
  assumes "segment_ok acct" "kid_account L db acct = Inr (key, acct)"
  shows "resolve_key_and_account L cfg (client_header C (''kid'', JStr (account_url cfg acct)) url n) db = Inr (key, acct)"
proof -
  have "account_url cfg acct = account_url_prefix cfg @ acct" by (simp add: account_url_def account_url_prefix_def)
  moreover have "rstrip_if (\<lambda>c. c = CHR ''/'') acct = acct"
    using assms(1) by (intro rstrip_if_append) (auto simp: segment_ok_def dest: last_in_set)
  ultimately show ?thesis
    using assms by (simp add: resolve_key_and_account_def client_header_def dict_get_def Let_def segment_ok_def)
qed

definition registered :: "'k server_env \<Rightarrow> string list \<Rightarrow> client \<Rightarrow> 'k \<Rightarrow> string \<Rightarrow> database \<Rightarrow> bool" where
  "registered E V C key acct db \<longleftrightarrow> env_ok E V \<and> client_ok E C key \<and> segment_ok acct \<and>
     kid_account (se_libs E) db acct = Inr (key, acct)"

lemma kid_answers:
  assumes "registered E V C key acct db" "Suc k < 10"
    "resolve (se_match E) ''POST'' (url_path url) = Found ep" "authenticated ep" "wf_json payload"
    "\<And>ns. \<exists>r. route_body (se_libs E) (se_cfg E) (se_draws E (Suc k)) (se_revoke E) ep
        (signed C (''kid'', JStr (account_url (se_cfg E) acct)) url payload (se_fresh E k)) (payload, acct) (db\<lparr>nonces := ns\<rparr>) =
          (Inr (Inr r, ts), db'\<lparr>nonces := ns\<rparr>) \<and> P (rs_content r) (map_of (rs_headers r) ''Location'')"
    "\<And>ns. snd (tasks_of E ts (db'\<lparr>nonces := ns\<rparr>)) = db''\<lparr>nonces := ns\<rparr>"
  shows "answers E V k (by_kid E C acct url payload) db P db''"
  using assms(1) unfolding registered_def
  by (intro post_answers [OF _ assms(2) _ _ _ assms(3-5) kid_resolves assms(6,7)]) auto

lemma registered_later [simp]:
  "registered E V C key a (stage D acct i so sz db) = registered E V C key a db"
  "registered E V C key a (finished D acct i c db) = registered E V C key a db"
  by (simp_all add: registered_def kid_account_def stage_def finished_def)

lemma registered_env: "registered E V C key acct db \<Longrightarrow> documented_match (se_match E) \<and> plain_base (se_cfg E)"
  by (simp add: registered_def env_ok_def)

lemma plain_InrI: "m db = (Inr r, db') \<Longrightarrow> plain m db = (Inr (Inr r, []), db')"
  by (simp add: plain_Inr)

lemma tasks_of_Nil [simp]: "snd (tasks_of E [] db) = db"
  by (simp add: tasks_of_def)

lemma tasks_of_single:
  "snd (tasks_of E [t] db) =
     snd (run_task (se_libs E) (se_cfg E) (se_bases E) (se_nets E) (se_issue E) (se_task_draws E) t db)"
  by (simp add: tasks_of_def bindM_apply split: prod.splits sum.splits)

lemma order_accepted_nonces [simp]: "order_accepted L cfg D payload acct (db\<lparr>nonces := ns\<rparr>) i = order_accepted L cfg D payload acct db i"
  by (simp add: order_accepted_def)

lemma with_order_nonces: "with_order D acct i (db\<lparr>nonces := ns\<rparr>) = (stage D acct i ''pending'' ''pending'' db)\<lparr>nonces := ns\<rparr>"
  by (simp add: stage_start)

text \<open>The seven requests of an order, each with what the client reads from the response.\<close>

lemma created_answers:
  assumes "registered E V C key acct db" "Suc k < 10"
    "wf_json payload" "order_accepted (se_libs E) (se_cfg E) (se_draws E (Suc k)) payload acct db i"
  shows "answers E V k (by_kid E C acct (relay_base_url (se_cfg E) @ ''/acme/new-order'') payload) db
    (\<lambda>c l. c = rs_content (new_order_response (se_cfg E) (se_draws E (Suc k)) i) \<and>
       l = Some (order_url (se_cfg E) (uuid4 (se_draws E (Suc k)) 0)))
    (stage (se_draws E (Suc k)) acct i ''pending'' ''pending'' db)"
proof (rule kid_answers [OF assms(1,2)])
  show "resolve (se_match E) ''POST'' (url_path (relay_base_url (se_cfg E) @ ''/acme/new-order'')) = Found NewOrder"
    using resolve_url [of "se_match E" "se_cfg E" "''acme/new-order''"] registered_env [OF assms(1)] resolve_static(5) by simp
  show "\<exists>r. route_body (se_libs E) (se_cfg E) (se_draws E (Suc k)) (se_revoke E) NewOrder
      (signed C (''kid'', JStr (account_url (se_cfg E) acct)) (relay_base_url (se_cfg E) @ ''/acme/new-order'') payload (se_fresh E k))
      (payload, acct) (db\<lparr>nonces := ns\<rparr>) =
        (Inr (Inr r, []), (stage (se_draws E (Suc k)) acct i ''pending'' ''pending'' db)\<lparr>nonces := ns\<rparr>) \<and>
      rs_content r = rs_content (new_order_response (se_cfg E) (se_draws E (Suc k)) i) \<and>
      map_of (rs_headers r) ''Location'' = Some (order_url (se_cfg E) (uuid4 (se_draws E (Suc k)) 0))" for ns
    unfolding route_body_def using assms(4)
    by (intro exI [of _ "new_order_response (se_cfg E) (se_draws E (Suc k)) i"] conjI)
       (auto simp: new_order_response_def json_response_def new_order_body_Inr with_order_nonces intro!: plain_InrI)
qed (simp_all add: assms(3) authenticated_def)

lemma authz_answers:
  assumes "registered E V C key acct db" "Suc k < 10"
    "unused_keys D db" "segment_ok (uuid4 D 1)"
  shows "answers E V k (by_kid E C acct (authz_url (se_cfg E) (uuid4 D 1)) (JObj []))
    (stage D acct i ''pending'' ''pending'' db)
    (\<lambda>c l. challenge_in c = Inr (challenge_url (se_cfg E) (uuid4 D 1)))
    (stage D acct i ''pending'' ''pending'' db)"
proof (rule kid_answers)
  show "resolve (se_match E) ''POST'' (url_path (authz_url (se_cfg E) (uuid4 D 1))) = Found (GetAuthz (uuid4 D 1))"
    using registered_env [OF assms(1)] assms(4) resolve_handed_out(3) by simp
  show "\<exists>r. route_body (se_libs E) (se_cfg E) (se_draws E (Suc k)) (se_revoke E) (GetAuthz (uuid4 D 1))
      (signed C (''kid'', JStr (account_url (se_cfg E) acct)) (authz_url (se_cfg E) (uuid4 D 1)) (JObj []) (se_fresh E k))
      (JObj [], acct) ((stage D acct i ''pending'' ''pending'' db)\<lparr>nonces := ns\<rparr>) =
        (Inr (Inr r, []), (stage D acct i ''pending'' ''pending'' db)\<lparr>nonces := ns\<rparr>) \<and>
      challenge_in (rs_content r) = Inr (challenge_url (se_cfg E) (uuid4 D 1))" for ns
    unfolding route_body_def using stage_authz [of D "db\<lparr>nonces := ns\<rparr>"] assms(3)
    by (auto intro!: exI plain_InrI simp: challenge_in_def json_member_def json_response_def authz_json_def first_of_def
        challenge_json_def text_of_def)
qed (use assms(1,2) in \<open>simp_all add: authenticated_def\<close>)

lemma challenge_answers:
  assumes "registered E V C key acct db" "Suc k < 10"
    "unused_keys D db" "segment_ok (uuid4 D 1)" "get_account acct db = Some a"
    "key_authorization (se_libs E) (token D 0) (a_public_key a) = Inr expected"
    "validate_http01 (se_cfg E) (se_nets E) (id_value i) (token D 0) expected = Inr ()"
  shows "answers E V k (by_kid E C acct (challenge_url (se_cfg E) (uuid4 D 1)) (JObj []))
    (stage D acct i ''pending'' ''pending'' db) (\<lambda>_ _. True) (stage D acct i ''ready'' ''valid'' db)"
proof (rule kid_answers)
  show "resolve (se_match E) ''POST'' (url_path (challenge_url (se_cfg E) (uuid4 D 1))) = Found (AckChallenge (uuid4 D 1))"
    using registered_env [OF assms(1)] assms(4) resolve_handed_out(4) by simp
  show "\<exists>r. route_body (se_libs E) (se_cfg E) (se_draws E (Suc k)) (se_revoke E) (AckChallenge (uuid4 D 1))
      (signed C (''kid'', JStr (account_url (se_cfg E) acct)) (challenge_url (se_cfg E) (uuid4 D 1)) (JObj []) (se_fresh E k))
      (JObj [], acct) ((stage D acct i ''pending'' ''pending'' db)\<lparr>nonces := ns\<rparr>) =
        (Inr (Inr r, [RunChallenge (uuid4 D 1) (uuid4 D 0)]), (stage D acct i ''processing'' ''processing'' db)\<lparr>nonces := ns\<rparr>) \<and> True" for ns
    unfolding route_body_def using stage_ack [of D "db\<lparr>nonces := ns\<rparr>"] assms(3) by simp
  show "snd (tasks_of E [RunChallenge (uuid4 D 1) (uuid4 D 0)] ((stage D acct i ''processing'' ''processing'' db)\<lparr>nonces := ns\<rparr>)) =
      (stage D acct i ''ready'' ''valid'' db)\<lparr>nonces := ns\<rparr>" for ns
    using stage_validated [of D "db\<lparr>nonces := ns\<rparr>" acct a "se_libs E" expected "se_cfg E" "se_nets E" i] assms(3,5-7)
    by (simp add: tasks_of_single run_task_def get_account_def)
qed (use assms(1,2) in \<open>simp_all add: authenticated_def\<close>)

lemma ready_answers:
  assumes "registered E V C key acct db" "Suc k < 10"
    "unused_keys D db" "segment_ok (uuid4 D 0)"
  shows "answers E V k (by_kid E C acct (order_url (se_cfg E) (uuid4 D 0)) (JObj [])) (stage D acct i so sz db)
    (\<lambda>c l. url_in ''finalize'' c = Inr (order_url (se_cfg E) (uuid4 D 0) @ ''/finalize''))
    (stage D acct i so sz db)"
proof (rule kid_answers)
  show "resolve (se_match E) ''POST'' (url_path (order_url (se_cfg E) (uuid4 D 0))) = Found (GetOrder (uuid4 D 0))"
    using registered_env [OF assms(1)] assms(4) resolve_handed_out(1) by simp
  show "\<exists>r. route_body (se_libs E) (se_cfg E) (se_draws E (Suc k)) (se_revoke E) (GetOrder (uuid4 D 0))
      (signed C (''kid'', JStr (account_url (se_cfg E) acct)) (order_url (se_cfg E) (uuid4 D 0)) (JObj []) (se_fresh E k))
      (JObj [], acct) ((stage D acct i so sz db)\<lparr>nonces := ns\<rparr>) = (Inr (Inr r, []), (stage D acct i so sz db)\<lparr>nonces := ns\<rparr>) \<and>
      url_in ''finalize'' (rs_content r) =
        Inr (order_url (se_cfg E) (uuid4 D 0) @ ''/finalize'')" for ns
  proof -
    obtain or where "get_order_body (se_cfg E) (uuid4 D 0)
        (signed C (''kid'', JStr (account_url (se_cfg E) acct)) (order_url (se_cfg E) (uuid4 D 0)) (JObj []) (se_fresh E k))
        (JObj [], acct) ((stage D acct i so sz db)\<lparr>nonces := ns\<rparr>) =
          (Inr (json_response (order_json or) 200 []), (stage D acct i so sz db)\<lparr>nonces := ns\<rparr>)"
      "or_finalize or = order_url (se_cfg E) (uuid4 D 0) @ ''/finalize''"
      using stage_order [of D "db\<lparr>nonces := ns\<rparr>"] assms(3) by fastforce
    then show ?thesis
      unfolding route_body_def
      by (auto intro!: exI plain_InrI simp: url_in_def json_member_def json_response_def order_json_def text_of_def)
  qed
qed (use assms(1,2) in \<open>simp_all add: authenticated_def\<close>)

lemma finalize_answers:
  assumes "registered E V C key acct db" "Suc k < 10" "unused_keys D db" "segment_ok (uuid4 D 0)" "wf_json payload"
    "validate_finalize (se_libs E) payload = Some csr" "b64url_decode csr = Some der"
    "se_issue E (id_value i) der = Inr pem" "uuid4 (se_task_draws E) 0 \<notin> set (map c_id (certificates db))"
  shows "answers E V k (by_kid E C acct (order_url (se_cfg E) (uuid4 D 0) @ ''/finalize'') payload)
    (stage D acct i ''ready'' ''valid'' db) (\<lambda>_ _. True)
    (finished D acct i (issued_row (se_libs E) (se_task_draws E) (uuid4 D 0) pem) db)"
proof (rule kid_answers)
  show "resolve (se_match E) ''POST'' (url_path (order_url (se_cfg E) (uuid4 D 0) @ ''/finalize'')) = Found (FinalizeOrder (uuid4 D 0))"
    using registered_env [OF assms(1)] assms(4) resolve_handed_out(2) by simp
  show "\<exists>r. route_body (se_libs E) (se_cfg E) (se_draws E (Suc k)) (se_revoke E) (FinalizeOrder (uuid4 D 0))
      (signed C (''kid'', JStr (account_url (se_cfg E) acct)) (order_url (se_cfg E) (uuid4 D 0) @ ''/finalize'') payload (se_fresh E k))
      (payload, acct) ((stage D acct i ''ready'' ''valid'' db)\<lparr>nonces := ns\<rparr>) =
        (Inr (Inr r, [ProcessFinalize (uuid4 D 0) (id_value i) der]), (stage D acct i ''processing'' ''valid'' db)\<lparr>nonces := ns\<rparr>) \<and> True" for ns
    unfolding route_body_def using stage_finalize [of D "db\<lparr>nonces := ns\<rparr>" "se_libs E" payload csr der] assms(3,6,7) by simp
  show "snd (tasks_of E [ProcessFinalize (uuid4 D 0) (id_value i) der] ((stage D acct i ''processing'' ''valid'' db)\<lparr>nonces := ns\<rparr>)) =
      (finished D acct i (issued_row (se_libs E) (se_task_draws E) (uuid4 D 0) pem) db)\<lparr>nonces := ns\<rparr>" for ns
    using stage_issued [of D "db\<lparr>nonces := ns\<rparr>" "se_issue E" i der pem "se_task_draws E" "se_libs E"] assms(3,8,9)
    by (simp add: tasks_of_single run_task_def)
qed (use assms(1,2,5) in \<open>simp_all add: authenticated_def\<close>)

lemma shown_answers:
  assumes "registered E V C key acct db" "Suc k < 10" "unused_keys D db" "segment_ok (uuid4 D 0)" "c_id c \<noteq> ''''"
  shows "answers E V k (by_kid E C acct (order_url (se_cfg E) (uuid4 D 0)) (JObj [])) (finished D acct i c db)
    (\<lambda>b l. url_in ''certificate'' b = Inr (relay_base_url (se_cfg E) @ ''/acme/cert/'' @ c_id c)) (finished D acct i c db)"
proof (rule kid_answers)
  show "resolve (se_match E) ''POST'' (url_path (order_url (se_cfg E) (uuid4 D 0))) = Found (GetOrder (uuid4 D 0))"
    using registered_env [OF assms(1)] assms(4) resolve_handed_out(1) by simp
  show "\<exists>r. route_body (se_libs E) (se_cfg E) (se_draws E (Suc k)) (se_revoke E) (GetOrder (uuid4 D 0))
      (signed C (''kid'', JStr (account_url (se_cfg E) acct)) (order_url (se_cfg E) (uuid4 D 0)) (JObj []) (se_fresh E k))
      (JObj [], acct) ((finished D acct i c db)\<lparr>nonces := ns\<rparr>) = (Inr (Inr r, []), (finished D acct i c db)\<lparr>nonces := ns\<rparr>) \<and>
      url_in ''certificate'' (rs_content r) = Inr (relay_base_url (se_cfg E) @ ''/acme/cert/'' @ c_id c)" for ns
    unfolding route_body_def using finished_shown [of D "db\<lparr>nonces := ns\<rparr>" c] assms(3,5)
    by (auto intro!: exI plain_InrI simp: url_in_def json_member_def json_response_def order_json_def finished_order_def
        opt_field_def text_of_def)
qed (use assms(1,2) in \<open>simp_all add: authenticated_def\<close>)

lemma chain_answers:
  assumes "registered E V C key acct db" "Suc k < 10" "unused_keys D db" "cert_keys_ok db"
    "c_id c \<notin> set (map c_id (certificates db))" "c_order_id c = uuid4 D 0" "segment_ok (c_id c)"
  shows "answers E V k (by_kid E C acct (relay_base_url (se_cfg E) @ ''/acme/cert/'' @ c_id c) (JObj [])) (finished D acct i c db)
    (\<lambda>b l. raw_body b = Inr (c_pem_chain c)) (finished D acct i c db)"
proof (rule kid_answers)
  show "resolve (se_match E) ''POST'' (url_path (relay_base_url (se_cfg E) @ ''/acme/cert/'' @ c_id c)) = Found (DownloadCert (c_id c))"
    using registered_env [OF assms(1)] assms(7) resolve_handed_out(5) by simp
  show "\<exists>r. route_body (se_libs E) (se_cfg E) (se_draws E (Suc k)) (se_revoke E) (DownloadCert (c_id c))
      (signed C (''kid'', JStr (account_url (se_cfg E) acct)) (relay_base_url (se_cfg E) @ ''/acme/cert/'' @ c_id c) (JObj []) (se_fresh E k))
      (JObj [], acct) ((finished D acct i c db)\<lparr>nonces := ns\<rparr>) = (Inr (Inr r, []), (finished D acct i c db)\<lparr>nonces := ns\<rparr>) \<and>
      raw_body (rs_content r) = Inr (c_pem_chain c)" for ns
    unfolding route_body_def using finished_download [of D "db\<lparr>nonces := ns\<rparr>" c] assms(3-6)
    by (auto intro!: exI plain_InrI simp: raw_body_def cert_keys_ok_def)
qed (use assms(1,2) in \<open>simp_all add: authenticated_def\<close>)

text \<open>All seven together.\<close>

lemma order_session_yields:
  fixes E :: "'k server_env"
  defines "cfg \<equiv> se_cfg E"
  assumes reg: "registered E V C key acct db" "k + 7 < 10" and D: "D = se_draws E (Suc k)"
    and acc: "order_accepted (se_libs E) cfg D order_payload acct db i" "uuid4 D 0 \<notin> set (map z_order_id (authorizations db))"
      "segment_ok (uuid4 D 0)" "segment_ok (uuid4 D 1)" "wf_json order_payload"
    and val: "get_account acct db = Some a" "key_authorization (se_libs E) (token D 0) (a_public_key a) = Inr expected"
      "validate_http01 cfg (se_nets E) (id_value i) (token D 0) expected = Inr ()"
    and csr: "validate_finalize (se_libs E) csr_payload = Some csr" "b64url_decode csr = Some der" "wf_json csr_payload"
    and iss: "se_issue E (id_value i) der = Inr pem" "uuid4 (se_task_draws E) 0 \<notin> set (map c_id (certificates db))" "cert_keys_ok db"
      "segment_ok (uuid4 (se_task_draws E) 0)"
  shows "yields E V k db
    (order_session E C (relay_base_url cfg @ ''/acme/new-order'') (account_url cfg acct) order_payload csr_payload) pem"
proof -
  have u: "unused_keys D db" using acc by (simp add: unused_keys_def order_accepted_def)
  let ?c = "issued_row (se_libs E) (se_task_draws E) (uuid4 D 0) pem"
  have c: "c_id ?c = uuid4 (se_task_draws E) 0" "c_id ?c \<noteq> ''''" using iss(4) by (simp_all add: segment_ok_def)
  have less: "Suc k < 10" "Suc (Suc k) < 10" "Suc (Suc (Suc k)) < 10" "Suc (Suc (Suc (Suc k))) < 10"
    "Suc (Suc (Suc (Suc (Suc k)))) < 10" "Suc (Suc (Suc (Suc (Suc (Suc k))))) < 10" "Suc (Suc (Suc (Suc (Suc (Suc (Suc k)))))) < 10"
    using reg(2) by simp_all
  note requests = created_answers [of E V C key acct db k order_payload i, OF reg(1) less(1) acc(5) acc(1) [unfolded D cfg_def], folded D]
    authz_answers [OF reg(1) less(2) u acc(4), of i]
    challenge_answers [OF reg(1) less(3) u acc(4) val(1,2) val(3) [unfolded cfg_def]]
    ready_answers [OF reg(1) less(4) u acc(3), of i "''ready''" "''valid''"]
    finalize_answers [where i = i, OF reg(1) less(5) u acc(3) csr(3,1,2) iss(1,2)]
    shown_answers [OF reg(1) less(6) u acc(3) c(2), of i]
    chain_answers [OF reg(1) less(7) u iss(3), of ?c i, unfolded c(1), OF iss(2) _ iss(4)]
  have first: "first_authz (rs_content (new_order_response (se_cfg E) D i)) = Inr (authz_url (se_cfg E) (uuid4 D 1))"
    by (simp add: first_authz_def new_order_response_def json_response_def json_member_def order_json_def first_of_def text_of_def)
  show ?thesis
    unfolding order_session_def Let_def cfg_def
    by (rule requests(1) [THEN yields_request], erule conjE, rule yields_read, simp only: location_def of_option_simps,
        rule yields_read, simp only: first, rule requests(2) [THEN yields_request], rule yields_read, assumption,
        rule requests(3) [THEN yields_request], rule requests(4) [THEN yields_request], rule yields_read, assumption,
        rule requests(5) [THEN yields_request], rule requests(6) [THEN yields_request], rule yields_read, assumption, unfold c(1),
        rule requests(7) [THEN yields_request], simp, rule yields_end, simp)
qed

section \<open>Registration\<close>

definition with_account :: "settings \<Rightarrow> draws \<Rightarrow> json \<Rightarrow> string list option \<Rightarrow> database \<Rightarrow> database" where
  "with_account cfg D jwk contact db = db\<lparr>accounts := accounts db @ [new_account_row D (canonical_jwk jwk) contact]\<rparr>"

lemma registered_answers:
  assumes env: "env_ok E V" "Suc k < 10" and client: "client_ok E C key" "wf_json (ac_jwk C)" "ac_jwk C \<noteq> JNull"
      "jwk_from_json (se_libs E) (ac_jwk C) = Some key"
    and req: "wf_json payload" "validate_new_account (se_libs E) payload = Some ar" "\<not> only_return_existing ar"
    and new: "account_keys_ok db" "canonical_jwk (ac_jwk C) \<notin> set (map a_public_key (accounts db))"
      "uuid4 (se_draws E (Suc k)) 0 \<notin> set (map a_id (accounts db))"
  shows "answers E V k (post E C (''jwk'', ac_jwk C) (relay_base_url (se_cfg E) @ ''/acme/new-account'') payload) db
    (\<lambda>c l. l = Some (account_url (se_cfg E) (uuid4 (se_draws E (Suc k)) 0)))
    (with_account (se_cfg E) (se_draws E (Suc k)) (ac_jwk C) (na_contact ar) db)"
proof (rule post_answers [OF env client(1)])
  let ?url = "relay_base_url (se_cfg E) @ ''/acme/new-account''"
  let ?req = "signed C (''jwk'', ac_jwk C) ?url payload (se_fresh E k)"
  show "resolve (se_match E) ''POST'' (url_path ?url) = Found NewAccount"
    using resolve_url [of "se_match E" "se_cfg E" "''acme/new-account''"] env(1) resolve_static(4) by (simp add: env_ok_def)
  show "resolve_key_and_account (se_libs E) (se_cfg E) (client_header C (''jwk'', ac_jwk C) ?url (se_fresh E k)) db = Inr (key, '''')"
    using client(3,4) by (simp add: resolve_key_and_account_def client_header_def dict_get_def)
  have x: "bindE (request_dict ?req) extract_jwk = Inr (ac_jwk C)"
    unfolding signed_def using client(2)
    by (intro extract_jwk_make) (simp_all add: client_header_def)
  have none: "tget a_public_key (canonical_jwk (ac_jwk C)) (accounts db) = None" using new(2) by (simp add: tget_None_iff)
  show "\<exists>r. route_body (se_libs E) (se_cfg E) (se_draws E (Suc k)) (se_revoke E) NewAccount ?req (payload, '''') (db\<lparr>nonces := ns\<rparr>) =
      (Inr (Inr r, []), (with_account (se_cfg E) (se_draws E (Suc k)) (ac_jwk C) (na_contact ar) db)\<lparr>nonces := ns\<rparr>) \<and>
      map_of (rs_headers r) ''Location'' = Some (account_url (se_cfg E) (uuid4 (se_draws E (Suc k)) 0))" for ns
    unfolding route_body_def
    using register_account_fresh [of "db\<lparr>nonces := ns\<rparr>" "canonical_jwk (ac_jwk C)" ar "se_draws E (Suc k)" "se_cfg E"] req(2,3) new(1,3) none x
    by (auto intro!: exI plain_InrI simp: new_account_body_def bindM_apply with_account_def account_reply_def json_response_def account_keys_ok_def)
qed (use req(1) client(2) in \<open>simp_all add: authenticated_def\<close>)

text \<open>The account that was registered is the one its URL names.\<close>

lemma with_account_registered:
  assumes "env_ok E V" "client_ok E C key" "wf_json (ac_jwk C)" "jwk_from_json (se_libs E) (sort_json (ac_jwk C)) = Some key"
    "uuid4 D 0 \<notin> set (map a_id (accounts db))" "segment_ok (uuid4 D 0)"
  shows "registered E V C key (uuid4 D 0) (with_account cfg D (ac_jwk C) contact db)"
    "get_account (uuid4 D 0) (with_account cfg D (ac_jwk C) contact db) = Some (new_account_row D (canonical_jwk (ac_jwk C)) contact)"
proof -
  have "filter (\<lambda>a. a_id a = uuid4 D 0) (accounts db) = []" using assms(5) by (force simp: filter_empty_conv)
  then show "registered E V C key (uuid4 D 0) (with_account cfg D (ac_jwk C) contact db)"
    using assms canonical_jwk_loads [OF assms(3)]
    by (simp add: registered_def with_account_def kid_account_def new_account_row_def scalar_one_or_none_def)
  have "tget a_id (uuid4 D 0) (accounts db) = None" using assms(5) by (simp add: tget_None_iff)
  then show "get_account (uuid4 D 0) (with_account cfg D (ac_jwk C) contact db) = Some (new_account_row D (canonical_jwk (ac_jwk C)) contact)"
    by (simp add: get_account_def with_account_def tget_append tget_Cons new_account_row_def)
qed

section \<open>The whole session\<close>

lemma directory_urls:
  "url_in ''newNonce'' (rs_content (get_directory cfg)) = Inr (relay_base_url cfg @ ''/acme/new-nonce'')"
  "url_in ''newAccount'' (rs_content (get_directory cfg)) = Inr (relay_base_url cfg @ ''/acme/new-account'')"
  "url_in ''newOrder'' (rs_content (get_directory cfg)) = Inr (relay_base_url cfg @ ''/acme/new-order'')"
  "url_in ''revokeCert'' (rs_content (get_directory cfg)) = Inr (relay_base_url cfg @ ''/acme/revoke-cert'')"
  "url_in ''keyChange'' (rs_content (get_directory cfg)) = Inr (relay_base_url cfg @ ''/acme/key-change'')"
  by (simp_all add: get_directory_def Let_def json_response_def directory_json_def url_in_def json_member_def text_of_def)

lemma directory_resolves:
  assumes "documented_match mt" "plain_base cfg"
  shows "\<exists>url. url_in ''newNonce'' (rs_content (get_directory cfg)) = Inr url \<and> resolve mt ''HEAD'' (url_path url) = Found NonceHead"
    "\<exists>url. url_in ''newAccount'' (rs_content (get_directory cfg)) = Inr url \<and> resolve mt ''POST'' (url_path url) = Found NewAccount"
    "\<exists>url. url_in ''newOrder'' (rs_content (get_directory cfg)) = Inr url \<and> resolve mt ''POST'' (url_path url) = Found NewOrder"
    "\<exists>url. url_in ''revokeCert'' (rs_content (get_directory cfg)) = Inr url \<and> resolve mt ''POST'' (url_path url) = Found RevokeCert"
    "\<exists>url. url_in ''keyChange'' (rs_content (get_directory cfg)) = Inr url \<and> resolve mt ''POST'' (url_path url) = Found KeyChange"
  by (simp_all add: directory_urls resolve_url [OF assms] resolve_static)

lemma directory_fetched:
  assumes "env_ok E V"
  shows "\<exists>r. fetch E ''GET'' (relay_base_url (se_cfg E) @ ''/directory'') \<lparr>ss_db = db, ss_nonce = n, ss_sent = 0\<rparr> =
      (Inr r, \<lparr>ss_db = db, ss_nonce = n, ss_sent = 1\<rparr>) \<and> rs_content r = rs_content (get_directory (se_cfg E))"
proof -
  have "resolve (se_match E) ''GET'' (url_path (relay_base_url (se_cfg E) @ ''/directory'')) = Found Directory"
    using resolve_url [of "se_match E" "se_cfg E" "''directory''"] assms resolve_static(1) by (simp add: env_ok_def)
  then show ?thesis
    by (simp add: fetch_def exchange_def serve_request_def app_request_def handle_request_def route_def plain_def bindM_apply dispatch_def
        add_link_def get_directory_def json_response_def dict_set_def Let_def)
qed

lemma nonce_fetched:
  assumes "env_ok E (map n_value (nonces db))"
  shows "\<exists>r s. fetch E ''HEAD'' (relay_base_url (se_cfg E) @ ''/acme/new-nonce'') \<lparr>ss_db = db, ss_nonce = n, ss_sent = 1\<rparr> = (Inr r, s) \<and>
    live_session E (map n_value (nonces db)) db 1 s"
proof -
  let ?req = "\<lparr>rq_method = ''HEAD'', rq_url = relay_base_url (se_cfg E) @ ''/acme/new-nonce'', rq_content_type = None, rq_body = ''''\<rparr>"
  have "resolve (se_match E) ''HEAD'' (url_path (relay_base_url (se_cfg E) @ ''/acme/new-nonce'')) = Found NonceHead"
    using resolve_url [of "se_match E" "se_cfg E" "''acme/new-nonce''"] assms resolve_static(2) by (simp add: env_ok_def)
  moreover obtain r where "dispatch (se_cfg E) (se_fresh E 1) (se_now E 1) ?req new_nonce_head db =
      (Inr r, db\<lparr>nonces := nonces db @ [\<lparr>n_value = se_fresh E 1, n_used = False, n_created_at = se_now E 1\<rparr>]\<rparr>)"
    "map_of (rs_headers r) ''Replay-Nonce'' = Some (se_fresh E 1)"
    using dispatch_fresh [of ?req "se_cfg E" db "se_fresh E 1" "se_now E 1" new_nonce_head]
      env_ok_room [OF assms, of "nonces db" 0 db] by auto
  ultimately show ?thesis
    by (simp add: fetch_def exchange_def serve_request_def app_request_def handle_request_def route_def plain_def bindM_apply live_session_def)
       (rule exI, rule conjI, rule refl, simp)
qed

text \<open>Everything the server draws and the outside world answers, for the session to succeed.\<close>

definition world_ok :: "'k server_env \<Rightarrow> json \<Rightarrow> acme_identifier \<Rightarrow> string \<Rightarrow> string \<Rightarrow> database \<Rightarrow> bool" where
  "world_ok E jwk i der pem db \<longleftrightarrow>
     uuid4 (se_draws E 2) 0 \<notin> set (map a_id (accounts db)) \<and> segment_ok (uuid4 (se_draws E 2) 0) \<and>
     uuid4 (se_draws E 3) 0 \<notin> set (map z_order_id (authorizations db)) \<and>
     segment_ok (uuid4 (se_draws E 3) 0) \<and> segment_ok (uuid4 (se_draws E 3) 1) \<and>
     (\<exists>expected. key_authorization (se_libs E) (token (se_draws E 3) 0) (canonical_jwk jwk) = Inr expected \<and>
        validate_http01 (se_cfg E) (se_nets E) (id_value i) (token (se_draws E 3) 0) expected = Inr ()) \<and>
     se_issue E (id_value i) der = Inr pem \<and> uuid4 (se_task_draws E) 0 \<notin> set (map c_id (certificates db)) \<and>
     segment_ok (uuid4 (se_task_draws E) 0)"

lemma order_accepted_with_account [simp]:
  "order_accepted L cfg D payload acct (with_account cfg' D' jwk contact db) i = order_accepted L cfg D payload acct db i"
  by (simp add: order_accepted_def with_account_def)

lemma acme_session_succeeds:
  assumes env: "env_ok E (map n_value (nonces db))"
    and client: "client_ok E C key" "wf_json (ac_jwk C)" "ac_jwk C \<noteq> JNull" "jwk_from_json (se_libs E) (ac_jwk C) = Some key"
      "jwk_from_json (se_libs E) (sort_json (ac_jwk C)) = Some key"
    and acct: "validate_new_account (se_libs E) account_payload = Some ar" "\<not> only_return_existing ar" "wf_json account_payload"
      "account_keys_ok db" "canonical_jwk (ac_jwk C) \<notin> set (map a_public_key (accounts db))"
    and ord: "order_accepted (se_libs E) (se_cfg E) (se_draws E 3) order_payload (uuid4 (se_draws E 2) 0) db i" "wf_json order_payload"
    and csr: "validate_finalize (se_libs E) csr_payload = Some csr" "b64url_decode csr = Some der" "wf_json csr_payload"
    and world: "world_ok E (ac_jwk C) i der pem db" "cert_keys_ok db"
  shows "fst (acme_session E C account_payload order_payload csr_payload \<lparr>ss_db = db, ss_nonce = '''', ss_sent = 0\<rparr>) = Inr pem"
proof -
  let ?V = "map n_value (nonces db)" and ?D = "se_draws E 3" and ?cfg = "se_cfg E"
  let ?acct = "uuid4 (se_draws E 2) 0" and ?db = "with_account (se_cfg E) (se_draws E 2) (ac_jwk C) (na_contact ar) db"
  note w = world(1) [unfolded world_ok_def]
  have two: "Suc 1 = 2" "Suc 2 = 3" by simp_all
  have reg: "registered E ?V C key ?acct ?db" "get_account ?acct ?db = Some (new_account_row (se_draws E 2) (canonical_jwk (ac_jwk C)) (na_contact ar))"
    using with_account_registered [OF env client(1,2,5), of "se_draws E 2" db] w by auto
  obtain expected where x: "key_authorization (se_libs E) (token ?D 0) (canonical_jwk (ac_jwk C)) = Inr expected"
    "validate_http01 ?cfg (se_nets E) (id_value i) (token ?D 0) expected = Inr ()" using w by blast
  have "uuid4 (se_draws E (Suc 1)) 0 \<notin> set (map a_id (accounts db))" unfolding two using w by blast
  note a = registered_answers [OF env _ client(1-4) acct(3,1,2,4,5) this, unfolded two]
  have o: "yields E ?V 2 ?db (order_session E C (relay_base_url ?cfg @ ''/acme/new-order'') (account_url ?cfg ?acct) order_payload csr_payload) pem"
    by (rule order_session_yields [OF reg(1) _ refl, unfolded two, where i = i and csr = csr and der = der and expected = expected, OF _ _ _ _ _ _ reg(2)])
       (use w x ord csr world(2) in \<open>simp_all add: with_account_def new_account_row_def cert_keys_ok_def order_accepted_def\<close>)
  obtain dir where d: "fetch E ''GET'' (relay_base_url ?cfg @ ''/directory'') \<lparr>ss_db = db, ss_nonce = '''', ss_sent = 0\<rparr> =
      (Inr dir, \<lparr>ss_db = db, ss_nonce = '''', ss_sent = 1\<rparr>)" "rs_content dir = rs_content (get_directory ?cfg)"
    using directory_fetched [OF env] by blast
  obtain r s where n: "fetch E ''HEAD'' (relay_base_url ?cfg @ ''/acme/new-nonce'') \<lparr>ss_db = db, ss_nonce = '''', ss_sent = 1\<rparr> = (Inr r, s)"
    "live_session E ?V db 1 s" using nonce_fetched [OF env] by blast
  note urls = directory_urls [of ?cfg, folded d(2)]
  have y: "yields E ?V 1 db (bindM (post E C (''jwk'', ac_jwk C) (relay_base_url ?cfg @ ''/acme/new-account'') account_payload) (\<lambda>registered.
      bindM (liftM (location registered)) (\<lambda>kid.
      bindM (liftM (url_in ''newOrder'' (rs_content dir))) (\<lambda>url. order_session E C url kid order_payload csr_payload)))) pem"
    by (rule yields_request [OF a, unfolded two], simp, rule yields_read, simp only: location_def of_option_simps,
        rule yields_read, rule urls(3), rule o)
  show ?thesis
    using y n(2) unfolding acme_session_def yields_def
    by (simp add: bindM_apply d(1) urls(1,2) n(1) del: One_nat_def)
qed

end
