(* ===== verification/RelayCert.thy ===== *)
theory RelayCert
  imports Schemas
begin

text \<open>
  The relay's own TLS certificate (\<^verbatim>\<open>services/relay_cert.py\<close>): writing the pair of files, reading
  back how long it is valid, issuing and renewing.  The files are a map from paths to contents and
  modes; writing is a sequence of single operations, so that a crash after any of them, or in the
  middle of writing a file, is a state of the model.  Key generation and the CSR are the argument
  \<open>K\<close>, the upstream issuance is \<open>order\<close>, loading a pair into the TLS context is \<open>load\<close>.
\<close>

section \<open>Files\<close>

record fentry =
  f_text :: string
  f_mode :: nat

type_synonym files = "string \<Rightarrow> fentry option"

datatype fs_op = WriteText string string | Chmod string nat | Replace string string

text \<open>A file that is created gets the mode the umask leaves, 0o644.\<close>

definition default_mode :: nat where
  "default_mode = 420"

definition write_text :: "string \<Rightarrow> string \<Rightarrow> files \<Rightarrow> files" where
  "write_text p t fs = fs(p \<mapsto> \<lparr>f_text = t, f_mode = (case fs p of None \<Rightarrow> default_mode | Some f \<Rightarrow> f_mode f)\<rparr>)"

fun run_op :: "fs_op \<Rightarrow> files \<Rightarrow> files" where
  "run_op (WriteText p t) fs = write_text p t fs"
| "run_op (Chmod p m) fs = fs(p := map_option (\<lambda>f. f\<lparr>f_mode := m\<rparr>) (fs p))"
| "run_op (Replace src dst) fs = (fs(dst := fs src))(src := None)"

definition run_ops :: "fs_op list \<Rightarrow> files \<Rightarrow> files" where
  "run_ops ops fs = fold run_op ops fs"

definition cert_filename :: string where
  "cert_filename = ''fullchain.pem''"

definition key_filename :: string where
  "key_filename = ''privkey.pem''"

definition in_dir :: "string \<Rightarrow> string \<Rightarrow> string" where
  "in_dir dir name = dir @ ''/'' @ name"

definition tmp_name :: "string \<Rightarrow> string" where
  "tmp_name p = p @ ''.tmp''"

definition write_relay_cert_ops :: "string \<Rightarrow> string \<Rightarrow> string \<Rightarrow> string \<Rightarrow> fs_op list" where
  "write_relay_cert_ops cert_path key_path pem_chain key_pem =
     [WriteText (tmp_name cert_path) pem_chain, WriteText (tmp_name key_path) key_pem, Chmod (tmp_name key_path) 384,
      Replace (tmp_name key_path) key_path, Replace (tmp_name cert_path) cert_path]"

definition write_relay_cert :: "string \<Rightarrow> string \<Rightarrow> string \<Rightarrow> string \<Rightarrow> files \<Rightarrow> files" where
  "write_relay_cert cert_path key_path pem_chain key_pem =
     run_ops (write_relay_cert_ops cert_path key_path pem_chain key_pem)"

section \<open>Reading\<close>

definition cert_path :: "settings \<Rightarrow> string" where
  "cert_path cfg = in_dir (ssl_dir cfg) cert_filename"

definition key_path :: "settings \<Rightarrow> string" where
  "key_path cfg = in_dir (ssl_dir cfg) key_filename"

definition relay_cert_exists :: "'k libs \<Rightarrow> settings \<Rightarrow> files \<Rightarrow> bool" where
  "relay_cert_exists L cfg fs = (case (fs (cert_path cfg), fs (key_path cfg)) of
     (Some c, Some k) \<Rightarrow> pem_leaf L (f_text c) \<noteq> None
   | _ \<Rightarrow> False)"

text \<open>The remaining time in microseconds; the source divides it to days for the comparison.\<close>

definition relay_cert_remaining :: "'k libs \<Rightarrow> settings \<Rightarrow> datetime \<Rightarrow> files \<Rightarrow> int option" where
  "relay_cert_remaining L cfg now fs = (case fs (cert_path cfg) of
     None \<Rightarrow> None
   | Some c \<Rightarrow> map_option (\<lambda>(_, not_after). not_after - now) (pem_leaf L (f_text c)))"

definition renew_threshold :: int where
  "renew_threshold = days 30"

section \<open>Issuing and renewing\<close>

record 'p keygen =
  kg_csr :: "'p \<Rightarrow> string \<Rightarrow> string"
  kg_pem :: "'p \<Rightarrow> string"

definition issue_relay_cert ::
  "'p keygen \<Rightarrow> (string \<Rightarrow> string \<Rightarrow> exc + string) \<Rightarrow> settings \<Rightarrow> 'p \<Rightarrow> (exc, files, unit) comp" where
  "issue_relay_cert K order cfg priv =
     bindM (liftM (order (relay_domain cfg) (kg_csr K priv (relay_domain cfg)))) (\<lambda>pem_chain.
       writeM (write_relay_cert (cert_path cfg) (key_path cfg) pem_chain (kg_pem K priv)))"

text \<open>
  The state of the renewal loop: the files and the pair the live TLS context presents, if there is
  a context.
\<close>

record tls_state =
  tl_files :: files
  tl_live :: "(string \<times> string) option"

definition reload_context ::
  "(string \<Rightarrow> string \<Rightarrow> exc + unit) \<Rightarrow> settings \<Rightarrow> (exc, tls_state, unit) comp" where
  "reload_context load cfg = (\<lambda>s. case (tl_live s, tl_files s (cert_path cfg), tl_files s (key_path cfg)) of
     (None, _, _) \<Rightarrow> (Inr (), s)
   | (Some _, Some c, Some k) \<Rightarrow>
       (case load (f_text c) (f_text k) of
          Inl e \<Rightarrow> (Inl e, s)
        | Inr _ \<Rightarrow> (Inr (), s\<lparr>tl_live := Some (f_text c, f_text k)\<rparr>))
   | _ \<Rightarrow> (Inl (PyError ''FileNotFoundError''), s))"

text \<open>One round of the loop, after the daily sleep.  A failed issuance is logged and ends the round.\<close>

definition renewal_round ::
  "'k libs \<Rightarrow> 'p keygen \<Rightarrow> (string \<Rightarrow> string \<Rightarrow> exc + string) \<Rightarrow> (string \<Rightarrow> string \<Rightarrow> exc + unit) \<Rightarrow>
   settings \<Rightarrow> datetime \<Rightarrow> 'p \<Rightarrow> (exc, tls_state, unit) comp" where
  "renewal_round L K order load cfg now priv = (\<lambda>s.
     case relay_cert_remaining L cfg now (tl_files s) of
       None \<Rightarrow> (Inr (), s)
     | Some remaining \<Rightarrow>
         if remaining \<ge> renew_threshold then (Inr (), s)
         else (case issue_relay_cert K order cfg priv (tl_files s) of
                 (Inl e, fs) \<Rightarrow> (Inr (), s\<lparr>tl_files := fs\<rparr>)
               | (Inr _, fs) \<Rightarrow> reload_context load cfg (s\<lparr>tl_files := fs\<rparr>)))"

section \<open>Facts on the files\<close>

lemma paths_distinct [simp]:
  "in_dir d cert_filename \<noteq> in_dir d key_filename" "in_dir d key_filename \<noteq> in_dir d cert_filename"
  "tmp_name (in_dir d n) \<noteq> in_dir d n" "in_dir d n \<noteq> tmp_name (in_dir d n)"
  "tmp_name (in_dir d cert_filename) \<noteq> in_dir d key_filename" "in_dir d key_filename \<noteq> tmp_name (in_dir d cert_filename)"
  "tmp_name (in_dir d key_filename) \<noteq> in_dir d cert_filename" "in_dir d cert_filename \<noteq> tmp_name (in_dir d key_filename)"
  "tmp_name (in_dir d cert_filename) \<noteq> tmp_name (in_dir d key_filename)"
  "tmp_name (in_dir d key_filename) \<noteq> tmp_name (in_dir d cert_filename)"
  by (simp_all add: in_dir_def cert_filename_def key_filename_def tmp_name_def)

lemma write_relay_cert_result:
  fixes cfg pem key fs
  defines "fs' \<equiv> write_relay_cert (cert_path cfg) (key_path cfg) pem key fs"
  shows "map_option f_text (fs' (cert_path cfg)) = Some pem"
    "fs' (key_path cfg) = Some \<lparr>f_text = key, f_mode = 384\<rparr>"
    "fs' (tmp_name (cert_path cfg)) = None" "fs' (tmp_name (key_path cfg)) = None"
    "p \<notin> {cert_path cfg, key_path cfg, tmp_name (cert_path cfg), tmp_name (key_path cfg)} \<Longrightarrow> fs' p = fs p"
  by (auto simp: fs'_def write_relay_cert_def write_relay_cert_ops_def run_ops_def write_text_def
      cert_path_def key_path_def split: option.splits)

text \<open>The states a crash can leave: some operations are complete, and a write may be cut short.\<close>

inductive crash :: "fs_op list \<Rightarrow> files \<Rightarrow> files \<Rightarrow> bool" where
  stop: "crash ops fs fs"
| torn: "crash (WriteText p t # ops) fs (write_text p (take n t) fs)"
| step: "crash ops (run_op x fs) fs' \<Longrightarrow> crash (x # ops) fs fs'"

inductive_cases crash_NilE: "crash [] fs fs'"
inductive_cases crash_ConsE: "crash (x # ops) fs fs'"

definition text_at :: "files \<Rightarrow> string \<Rightarrow> string option" where
  "text_at fs p = map_option f_text (fs p)"

text \<open>An operation that leaves both final paths alone, torn or not.\<close>

lemma text_at_write [simp]: "text_at (write_text q t fs) p = (if p = q then Some t else text_at fs p)"
  by (simp add: text_at_def write_text_def)

lemma text_at_chmod [simp]: "text_at (run_op (Chmod q m) fs) p = text_at fs p"
  by (simp add: text_at_def option.map_comp o_def)

lemma text_at_replace [simp]:
  "text_at (run_op (Replace src dst) fs) p = (if p = src then None else if p = dst then text_at fs src else text_at fs p)"
  by (simp add: text_at_def)

lemma crash_pairs:
  assumes "crash (write_relay_cert_ops (cert_path cfg) (key_path cfg) pem key) fs fs'"
  shows "(text_at fs' (cert_path cfg), text_at fs' (key_path cfg)) \<in>
    {(text_at fs (cert_path cfg), text_at fs (key_path cfg)),
     (text_at fs (cert_path cfg), Some key), (Some pem, Some key)}"
  using assms unfolding write_relay_cert_ops_def cert_path_def key_path_def
  by (auto elim!: crash_ConsE crash_NilE simp del: run_op.simps(2,3))

text \<open>The key file is private whenever the new key is there.\<close>

lemma crash_key_private:
  assumes "crash (write_relay_cert_ops (cert_path cfg) (key_path cfg) pem key) fs fs'"
  shows "fs' (key_path cfg) = fs (key_path cfg) \<or> fs' (key_path cfg) = Some \<lparr>f_text = key, f_mode = 384\<rparr>"
  using assms unfolding write_relay_cert_ops_def cert_path_def key_path_def
  by (auto elim!: crash_ConsE crash_NilE simp: write_text_def split: option.splits)

lemma crash_take: "crash ops fs (run_ops (take n ops) fs)"
  by (induction ops arbitrary: fs n) (auto simp: run_ops_def take_Cons' intro: crash.intros)

text \<open>No other file is touched.\<close>

definition relay_paths :: "settings \<Rightarrow> string set" where
  "relay_paths cfg = {cert_path cfg, key_path cfg, tmp_name (cert_path cfg), tmp_name (key_path cfg)}"

lemma crash_frame:
  assumes "crash (write_relay_cert_ops (cert_path cfg) (key_path cfg) pem key) fs fs'" "q \<notin> relay_paths cfg"
  shows "fs' q = fs q"
  using assms unfolding write_relay_cert_ops_def relay_paths_def
  by (auto elim!: crash_ConsE crash_NilE simp: write_text_def)

text \<open>A crash between the two renames leaves the old certificate with the new key.\<close>

lemma crash_between_renames:
  "\<exists>fs'. crash (write_relay_cert_ops (cert_path cfg) (key_path cfg) pem key) fs fs' \<and>
     fs' (cert_path cfg) = fs (cert_path cfg) \<and> fs' (key_path cfg) = Some \<lparr>f_text = key, f_mode = 384\<rparr>"
proof -
  let ?ops = "write_relay_cert_ops (cert_path cfg) (key_path cfg) pem key"
  have "crash ?ops fs (run_ops (take 4 ?ops) fs)" by (rule crash_take)
  moreover have "run_ops (take 4 ?ops) fs (cert_path cfg) = fs (cert_path cfg)"
    "run_ops (take 4 ?ops) fs (key_path cfg) = Some \<lparr>f_text = key, f_mode = 384\<rparr>"
    by (auto simp: write_relay_cert_ops_def run_ops_def write_text_def cert_path_def key_path_def split: option.splits)
  ultimately show ?thesis by blast
qed

section \<open>Facts on renewal\<close>

lemma issue_relay_cert_Inl: "issue_relay_cert K order cfg priv fs = (Inl e, fs') \<Longrightarrow> fs' = fs"
  by (auto simp: issue_relay_cert_def bindM_eq_Inl_iff)

lemma issue_relay_cert_Inr:
  "issue_relay_cert K order cfg priv fs = (Inr u, fs') \<Longrightarrow>
     \<exists>pem. order (relay_domain cfg) (kg_csr K priv (relay_domain cfg)) = Inr pem \<and>
       fs' = write_relay_cert (cert_path cfg) (key_path cfg) pem (kg_pem K priv) fs"
  by (auto simp: issue_relay_cert_def bindM_eq_Inr_iff)

lemma renewal_round_idle:
  assumes "\<forall>rem. relay_cert_remaining L cfg now (tl_files s) = Some rem \<longrightarrow> renew_threshold \<le> rem"
  shows "renewal_round L K order load cfg now priv s = (Inr (), s)"
  using assms by (auto simp: renewal_round_def split: option.splits)

lemma renewal_round_failed:
  assumes "order (relay_domain cfg) (kg_csr K priv (relay_domain cfg)) = Inl e"
  shows "renewal_round L K order load cfg now priv s = (Inr (), s)"
  using assms by (auto simp: renewal_round_def issue_relay_cert_def split: option.splits)

lemma renewal_round_renews:
  assumes "relay_cert_remaining L cfg now (tl_files s) = Some rem" "rem < renew_threshold"
    "order (relay_domain cfg) (kg_csr K priv (relay_domain cfg)) = Inr pem"
    "load pem (kg_pem K priv) = Inr ()"
    "renewal_round L K order load cfg now priv s = (r, t)"
  shows "r = Inr () \<and> text_at (tl_files t) (cert_path cfg) = Some pem \<and>
    tl_files t (key_path cfg) = Some \<lparr>f_text = kg_pem K priv, f_mode = 384\<rparr> \<and>
    tl_live t = map_option (\<lambda>_. (pem, kg_pem K priv)) (tl_live s)"
proof -
  define fs where "fs = write_relay_cert (cert_path cfg) (key_path cfg) pem (kg_pem K priv) (tl_files s)"
  have key: "fs (key_path cfg) = Some \<lparr>f_text = kg_pem K priv, f_mode = 384\<rparr>"
    unfolding fs_def by (rule write_relay_cert_result(2))
  obtain c where c: "fs (cert_path cfg) = Some c" "f_text c = pem"
    using write_relay_cert_result(1) [of cfg pem "kg_pem K priv" "tl_files s"] unfolding fs_def by auto
  have "renewal_round L K order load cfg now priv s = reload_context load cfg (s\<lparr>tl_files := fs\<rparr>)"
    using assms(1-3) by (simp add: renewal_round_def issue_relay_cert_def fs_def)
  with assms(4,5) key c show ?thesis
    by (cases "tl_live s") (auto simp: reload_context_def text_at_def)
qed

end
