(* ===== verification/DnsApi.thy ===== *)
theory DnsApi
  imports LeClient
begin

text \<open>
  The part the DNS providers of \<^verbatim>\<open>dns/providers/\<close> share: the requests they send with httpx, the
  answers they read, and the interface of \<^verbatim>\<open>dns/base.py\<close>.  The HTTP client with everything
  behind it is the argument \<open>H\<close>, acting on a world of any type; the requests sent are recorded.
  The interface promises that a provider talks to its own API only, which is what keeps the
  credentials in the requests from any other host; the ACME client inherits that promise.
\<close>

section \<open>Requests and answers\<close>

datatype http_body = NoBody | JsonBody json | TextBody string | FormBody "(string \<times> string) list"

record http_call =
  hc_method :: string
  hc_url :: string
  hc_params :: "(string \<times> string) list"
  hc_headers :: "(string \<times> string) list"
  hc_body :: http_body

record http_reply =
  hr_status :: int
  hr_text :: string

record 'w api =
  api_sent :: "http_call list"
  api_world :: 'w

type_synonym 'w http = "http_call \<Rightarrow> (exc, 'w, http_reply) comp"
type_synonym ('w, 'a) apim = "(exc, 'w api, 'a) comp"

definition send :: "'w http \<Rightarrow> http_call \<Rightarrow> ('w, http_reply) apim" where
  "send H c = (\<lambda>s. case H c (api_world s) of
     (r, w) \<Rightarrow> (r, s\<lparr>api_sent := api_sent s @ [c], api_world := w\<rparr>))"

definition is_success :: "http_reply \<Rightarrow> bool" where
  "is_success r \<longleftrightarrow> 200 \<le> hr_status r \<and> hr_status r \<le> 299"

definition raise_for_status :: "http_reply \<Rightarrow> exc + unit" where
  "raise_for_status r = (if is_success r then Inr () else Inl (PyError ''HTTPStatusError''))"

definition reply_json :: "http_reply \<Rightarrow> exc + json" where
  "reply_json r = of_option (PyError ''JSONDecodeError'') (json_loads (hr_text r))"

text \<open>\<open>data.get(k, [])\<close>, the iteration over the result and its first item.\<close>

definition get_list :: "string \<Rightarrow> json \<Rightarrow> exc + json" where
  "get_list k j = (case j of
     JObj kvs \<Rightarrow> Inr (dict_get k (JArr []) kvs)
   | _ \<Rightarrow> Inl (PyError ''AttributeError''))"

definition py_iter :: "json \<Rightarrow> exc + json list" where
  "py_iter j = (case j of
     JArr xs \<Rightarrow> Inr xs
   | JObj kvs \<Rightarrow> Inr (map (\<lambda>kv. JStr (fst kv)) kvs)
   | JStr s \<Rightarrow> Inr (map (\<lambda>c. JStr [c]) s)
   | _ \<Rightarrow> Inl (PyError ''TypeError''))"

definition py_first :: "json \<Rightarrow> exc + json" where
  "py_first j = (case j of
     JArr (x # xs) \<Rightarrow> Inr x
   | JArr [] \<Rightarrow> Inl (PyError ''IndexError'')
   | JStr (c # s) \<Rightarrow> Inr (JStr [c])
   | JStr [] \<Rightarrow> Inl (PyError ''IndexError'')
   | JObj kvs \<Rightarrow> Inl (PyError ''KeyError'')
   | _ \<Rightarrow> Inl (PyError ''TypeError''))"

section \<open>Element trees\<close>

text \<open>XML answers; the parser is an argument of the providers that use it.\<close>

datatype xml = Elem (xml_tag: string) (xml_attrs: "(string \<times> string) list") (xml_text: "string option")
  (xml_children: "xml list")

text \<open>\<open>root.findall(".//tag")\<close>: the descendants with the tag in document order.\<close>

fun find_all :: "string \<Rightarrow> xml \<Rightarrow> xml list"
  and find_in :: "string \<Rightarrow> xml list \<Rightarrow> xml list" where
  "find_all tag (Elem t a x cs) = find_in tag cs"
| "find_in tag [] = []"
| "find_in tag (c # cs) = (if xml_tag c = tag then [c] else []) @ find_all tag c @ find_in tag cs"

definition attr :: "string \<Rightarrow> string \<Rightarrow> xml \<Rightarrow> string" where
  "attr k d e = (case map_of (xml_attrs e) k of None \<Rightarrow> d | Some v \<Rightarrow> v)"

section \<open>What a computation sends\<close>

definition sends_only :: "(http_call \<Rightarrow> bool) \<Rightarrow> ('w, 'a) apim \<Rightarrow> bool" where
  "sends_only P m \<longleftrightarrow> (\<forall>s. \<exists>cs. api_sent (snd (m s)) = api_sent s @ cs \<and> list_all P cs)"

text \<open>Talking to one API only.\<close>

abbreviation confined :: "string \<Rightarrow> ('w, 'a) apim \<Rightarrow> bool" where
  "confined base \<equiv> sends_only (\<lambda>c. startswith (hc_url c) base)"

named_theorems confinement \<open>introduction rules for what a computation sends\<close>

lemma sends_only_return [simp, confinement]:
  "sends_only P (returnM x)" "sends_only P (throwM e)" "sends_only P (liftM r)" "sends_only P (guardM b e)"
  by (auto simp: sends_only_def guardM_apply)

lemma sends_only_send [confinement]: "P c \<Longrightarrow> sends_only P (send H c)"
  unfolding sends_only_def send_def by (auto split: prod.splits)

lemma sends_only_bindM [confinement]:
  assumes "sends_only P m" "\<And>x. sends_only P (f x)"
  shows "sends_only P (bindM m f)"
  unfolding sends_only_def
proof
  fix s
  obtain r t where m: "m s = (r, t)" by (cases "m s")
  obtain cs where cs: "api_sent t = api_sent s @ cs" "list_all P cs"
    using assms(1) m unfolding sends_only_def by (metis snd_conv)
  show "\<exists>cs. api_sent (snd (bindM m f s)) = api_sent s @ cs \<and> list_all P cs"
  proof (cases r)
    case (Inl e)
    with m cs show ?thesis by auto
  next
    case (Inr x)
    obtain ds where "api_sent (snd (f x t)) = api_sent t @ ds" "list_all P ds"
      using assms(2) [of x] unfolding sends_only_def by blast
    with m Inr cs show ?thesis by (intro exI [of _ "cs @ ds"]) auto
  qed
qed

lemma sends_only_if [confinement]:
  "(b \<Longrightarrow> sends_only P m) \<Longrightarrow> (\<not> b \<Longrightarrow> sends_only P n) \<Longrightarrow> sends_only P (if b then m else n)"
  by simp

lemma sends_only_list [confinement]:
  "sends_only P m \<Longrightarrow> (\<And>x xs. sends_only P (f x xs)) \<Longrightarrow> sends_only P (case ys of [] \<Rightarrow> m | x # xs \<Rightarrow> f x xs)"
  by (cases ys) simp_all

lemma sends_only_sent:
  assumes "sends_only P m" "m s = (r, t)"
  shows "\<exists>cs. api_sent t = api_sent s @ cs \<and> list_all P cs"
  using assms unfolding sends_only_def by (metis snd_conv)

section \<open>The interface (dns/base.py)\<close>

locale dns_provider_api =
  fixes base :: string
    and set_txt :: "string \<Rightarrow> string \<Rightarrow> string \<Rightarrow> ('w, unit) apim"
    and delete_txt :: "string \<Rightarrow> string \<Rightarrow> ('w, unit) apim"
  assumes set_txt_confined: "confined base (set_txt domain name value)"
    and delete_txt_confined: "confined base (delete_txt domain name)"
begin

text \<open>An ACME client that uses the provider.\<close>

definition client :: "'w api gufo \<Rightarrow> 'w api gufo" where
  "client G = G\<lparr>dns_set_txt := set_txt, dns_delete_txt := delete_txt\<rparr>"

lemma fulfill_confined:
  assumes "fulfill_dns_01 (client G) zones domain challenge s = (r, t)"
  shows "\<exists>cs. api_sent (le_world t) = api_sent (le_world s) @ cs \<and> list_all (\<lambda>c. startswith (hc_url c) base) cs"
proof -
  obtain x w where m: "set_txt (apex_domain domain zones) (challenge_name domain)
      (dns01_txt_value (client G) (g_key_authorization (client G) challenge)) (le_world s) = (x, w)"
    by (rule prod.exhaust)
  with assms have "le_world t = w"
    by (auto simp: fulfill_dns_01_def liftW_def client_def split: sum.splits)
  with sends_only_sent [OF set_txt_confined m] show ?thesis by simp
qed

lemma clear_confined:
  assumes "clear_dns_01 (client G) zones domain s = (r, t)"
  shows "\<exists>cs. api_sent (le_world t) = api_sent (le_world s) @ cs \<and> list_all (\<lambda>c. startswith (hc_url c) base) cs"
proof -
  obtain x w where m: "delete_txt (apex_domain domain zones) (challenge_name domain) (le_world s) = (x, w)"
    by (rule prod.exhaust)
  with assms have "le_world t = w" by (auto simp: clear_dns_01_def liftW_def client_def)
  with sends_only_sent [OF delete_txt_confined m] show ?thesis by simp
qed

end

section \<open>Shared facts\<close>

lemma send_Inr:
  "send H c s = (Inr r, t) \<longleftrightarrow> (\<exists>w. H c (api_world s) = (Inr r, w) \<and>
     t = s\<lparr>api_sent := api_sent s @ [c], api_world := w\<rparr>)"
  by (auto simp: send_def split: prod.splits)

lemma raise_for_status_Inr [simp]: "raise_for_status r = Inr u \<longleftrightarrow> is_success r"
  by (simp add: raise_for_status_def)

end
