(* ===== verification/DnsRest.thy ===== *)
theory DnsRest
  imports DnsApi
begin

text \<open>
  The providers that speak JSON: \<^verbatim>\<open>dns/providers/null.py\<close>,
  \<^verbatim>\<open>dns/providers/porkbun.py\<close> and \<^verbatim>\<open>dns/providers/cloudflare.py\<close>.  A successful call is
  described by the exact requests it sent; a deletion removes exactly the records that were listed.
\<close>

section \<open>Null\<close>

definition null_set_txt :: "string \<Rightarrow> string \<Rightarrow> string \<Rightarrow> ('w, unit) apim" where
  "null_set_txt domain name value = returnM ()"

definition null_delete_txt :: "string \<Rightarrow> string \<Rightarrow> ('w, unit) apim" where
  "null_delete_txt domain name = returnM ()"

section \<open>Porkbun\<close>

record porkbun_settings =
  pb_api_key :: string
  pb_secret_api_key :: string

definition porkbun_base :: string where
  "porkbun_base = ''https://api.porkbun.com/api/json/v3''"

definition porkbun_auth :: "porkbun_settings \<Rightarrow> (string \<times> json) list" where
  "porkbun_auth cred = [(''apikey'', JStr (pb_api_key cred)), (''secretapikey'', JStr (pb_secret_api_key cred))]"

definition porkbun_post :: "string \<Rightarrow> (string \<times> json) list \<Rightarrow> http_call" where
  "porkbun_post path body = \<lparr>hc_method = ''POST'', hc_url = porkbun_base @ path, hc_params = [], hc_headers = [],
     hc_body = JsonBody (JObj body)\<rparr>"

definition porkbun_create :: "porkbun_settings \<Rightarrow> string \<Rightarrow> string \<Rightarrow> string \<Rightarrow> http_call" where
  "porkbun_create cred domain subdomain value = porkbun_post (''/dns/create/'' @ domain)
     (porkbun_auth cred @ [(''name'', JStr subdomain), (''type'', JStr ''TXT''), (''content'', JStr value), (''ttl'', JInt 120)])"

definition porkbun_set_txt ::
  "'w http \<Rightarrow> porkbun_settings \<Rightarrow> string \<Rightarrow> string \<Rightarrow> string \<Rightarrow> ('w, unit) apim" where
  "porkbun_set_txt H cred domain name value =
     (let subdomain = removesuffix name (''.'' @ domain) in
      bindM (send H (porkbun_create cred domain subdomain value)) (\<lambda>r. liftM (raise_for_status r)))"

definition porkbun_retrieve :: "porkbun_settings \<Rightarrow> string \<Rightarrow> string \<Rightarrow> http_call" where
  "porkbun_retrieve cred domain subdomain =
     porkbun_post (''/dns/retrieveByNameType/'' @ domain @ ''/TXT/'' @ subdomain) (porkbun_auth cred)"

definition porkbun_delete :: "porkbun_settings \<Rightarrow> string \<Rightarrow> json \<Rightarrow> http_call" where
  "porkbun_delete cred domain i = porkbun_post (''/dns/delete/'' @ domain @ ''/'' @ py_str i) (porkbun_auth cred)"

text \<open>The answers to the deletions are not looked at.\<close>

fun porkbun_delete_all :: "'w http \<Rightarrow> porkbun_settings \<Rightarrow> string \<Rightarrow> json list \<Rightarrow> ('w, unit) apim" where
  "porkbun_delete_all H cred domain [] = returnM ()"
| "porkbun_delete_all H cred domain (record # records) =
     bindM (liftM (json_item ''id'' record)) (\<lambda>i.
     bindM (send H (porkbun_delete cred domain i)) (\<lambda>_. porkbun_delete_all H cred domain records))"

definition porkbun_delete_txt :: "'w http \<Rightarrow> porkbun_settings \<Rightarrow> string \<Rightarrow> string \<Rightarrow> ('w, unit) apim" where
  "porkbun_delete_txt H cred domain name =
     (let subdomain = removesuffix name (''.'' @ domain) in
      bindM (send H (porkbun_retrieve cred domain subdomain)) (\<lambda>r.
      bindM (liftM (raise_for_status r)) (\<lambda>_.
      bindM (liftM (bindE (reply_json r) (get_list ''records''))) (\<lambda>found.
      bindM (liftM (py_iter found)) (\<lambda>records.
        porkbun_delete_all H cred domain records)))))"

section \<open>Cloudflare\<close>

definition cloudflare_base :: string where
  "cloudflare_base = ''https://api.cloudflare.com/client/v4''"

text \<open>The token must not be empty; the check runs at start-up.\<close>

definition cloudflare_settings :: "string option \<Rightarrow> exc + string" where
  "cloudflare_settings tok = (case tok of
     None \<Rightarrow> Inl (PyError ''ValidationError'')
   | Some t \<Rightarrow> if length t < 1 then Inl (PyError ''ValidationError'') else Inr t)"

definition cloudflare_headers :: "string \<Rightarrow> (string \<times> string) list" where
  "cloudflare_headers tok = [(''Authorization'', ''Bearer '' @ tok), (''Content-Type'', ''application/json'')]"

definition cloudflare_call ::
  "string \<Rightarrow> string \<Rightarrow> string \<Rightarrow> (string \<times> string) list \<Rightarrow> http_body \<Rightarrow> http_call" where
  "cloudflare_call tok meth path params body = \<lparr>hc_method = meth, hc_url = cloudflare_base @ path,
     hc_params = params, hc_headers = cloudflare_headers tok, hc_body = body\<rparr>"

definition no_zone_error :: exc where
  "no_zone_error = PyError ''ValueError''"

definition cloudflare_zone_query :: "string \<Rightarrow> string \<Rightarrow> http_call" where
  "cloudflare_zone_query tok domain =
     cloudflare_call tok ''GET'' ''/zones'' [(''name'', domain), (''status'', ''active'')] NoBody"

definition cloudflare_get_zone_id :: "'w http \<Rightarrow> string \<Rightarrow> string \<Rightarrow> ('w, json) apim" where
  "cloudflare_get_zone_id H tok domain =
     bindM (send H (cloudflare_zone_query tok domain)) (\<lambda>r.
     bindM (liftM (raise_for_status r)) (\<lambda>_.
     bindM (liftM (bindE (reply_json r) (get_list ''result''))) (\<lambda>zones.
       if \<not> truthy zones then throwM no_zone_error
       else liftM (bindE (py_first zones) (json_item ''id'')))))"

definition cloudflare_records_path :: "json \<Rightarrow> string" where
  "cloudflare_records_path zone_id = ''/zones/'' @ py_str zone_id @ ''/dns_records''"

definition cloudflare_create :: "string \<Rightarrow> json \<Rightarrow> string \<Rightarrow> string \<Rightarrow> http_call" where
  "cloudflare_create tok zone_id name value = cloudflare_call tok ''POST'' (cloudflare_records_path zone_id) []
     (JsonBody (JObj [(''type'', JStr ''TXT''), (''name'', JStr name), (''content'', JStr value), (''ttl'', JInt 120)]))"

definition cloudflare_set_txt ::
  "'w http \<Rightarrow> string \<Rightarrow> string \<Rightarrow> string \<Rightarrow> string \<Rightarrow> ('w, unit) apim" where
  "cloudflare_set_txt H tok domain name value =
     bindM (cloudflare_get_zone_id H tok domain) (\<lambda>zone_id.
     bindM (send H (cloudflare_create tok zone_id name value)) (\<lambda>r. liftM (raise_for_status r)))"

definition cloudflare_list :: "string \<Rightarrow> json \<Rightarrow> string \<Rightarrow> http_call" where
  "cloudflare_list tok zone_id name =
     cloudflare_call tok ''GET'' (cloudflare_records_path zone_id) [(''type'', ''TXT''), (''name'', name)] NoBody"

definition cloudflare_delete :: "string \<Rightarrow> json \<Rightarrow> json \<Rightarrow> http_call" where
  "cloudflare_delete tok zone_id i =
     cloudflare_call tok ''DELETE'' (cloudflare_records_path zone_id @ ''/'' @ py_str i) [] NoBody"

fun cloudflare_delete_all :: "'w http \<Rightarrow> string \<Rightarrow> json \<Rightarrow> json list \<Rightarrow> ('w, unit) apim" where
  "cloudflare_delete_all H tok zone_id [] = returnM ()"
| "cloudflare_delete_all H tok zone_id (record # records) =
     bindM (liftM (json_item ''id'' record)) (\<lambda>i.
     bindM (send H (cloudflare_delete tok zone_id i)) (\<lambda>dr.
     bindM (liftM (raise_for_status dr)) (\<lambda>_. cloudflare_delete_all H tok zone_id records)))"

definition cloudflare_delete_txt :: "'w http \<Rightarrow> string \<Rightarrow> string \<Rightarrow> string \<Rightarrow> ('w, unit) apim" where
  "cloudflare_delete_txt H tok domain name =
     bindM (cloudflare_get_zone_id H tok domain) (\<lambda>zone_id.
     bindM (send H (cloudflare_list tok zone_id name)) (\<lambda>r.
     bindM (liftM (raise_for_status r)) (\<lambda>_.
     bindM (liftM (bindE (reply_json r) (get_list ''result''))) (\<lambda>found.
     bindM (liftM (py_iter found)) (\<lambda>records.
       cloudflare_delete_all H tok zone_id records)))))"

section \<open>The providers keep the contract\<close>

lemma porkbun_post_url: "startswith (hc_url (porkbun_post path body)) porkbun_base"
  by (simp add: porkbun_post_def)

lemma cloudflare_call_url: "startswith (hc_url (cloudflare_call tok meth path params body)) cloudflare_base"
  by (simp add: cloudflare_call_def)

lemmas rest_confinement = confinement porkbun_post_url cloudflare_call_url

lemma porkbun_delete_all_confined: "confined porkbun_base (porkbun_delete_all H cred domain records)"
  by (induction records; unfold porkbun_delete_all.simps porkbun_delete_def; intro rest_confinement)

lemma cloudflare_delete_all_confined: "confined cloudflare_base (cloudflare_delete_all H tok zone_id records)"
  by (induction records; unfold cloudflare_delete_all.simps cloudflare_delete_def; intro rest_confinement)

lemma cloudflare_get_zone_id_confined: "confined cloudflare_base (cloudflare_get_zone_id H tok domain)"
  unfolding cloudflare_get_zone_id_def cloudflare_zone_query_def by (intro rest_confinement)

interpretation null_api: dns_provider_api base null_set_txt null_delete_txt for base
  by unfold_locales (simp_all add: null_set_txt_def null_delete_txt_def)

interpretation porkbun_api: dns_provider_api porkbun_base "porkbun_set_txt H cred" "porkbun_delete_txt H cred" for H cred
proof
  show "confined porkbun_base (porkbun_set_txt H cred domain name v)" for domain name v
    unfolding porkbun_set_txt_def Let_def porkbun_create_def by (intro rest_confinement)
  show "confined porkbun_base (porkbun_delete_txt H cred domain name)" for domain name
    unfolding porkbun_delete_txt_def Let_def porkbun_retrieve_def
    by (intro rest_confinement porkbun_delete_all_confined)
qed

interpretation cloudflare_api:
  dns_provider_api cloudflare_base "cloudflare_set_txt H tok" "cloudflare_delete_txt H tok" for H tok
proof
  show "confined cloudflare_base (cloudflare_set_txt H tok domain name v)" for domain name v
    unfolding cloudflare_set_txt_def cloudflare_create_def
    by (intro rest_confinement cloudflare_get_zone_id_confined)
  show "confined cloudflare_base (cloudflare_delete_txt H tok domain name)" for domain name
    unfolding cloudflare_delete_txt_def cloudflare_list_def
    by (intro rest_confinement cloudflare_get_zone_id_confined cloudflare_delete_all_confined)
qed

section \<open>What a successful call sent\<close>

lemma cloudflare_get_zone_id_Inr:
  "cloudflare_get_zone_id H tok domain s = (Inr z, t) \<Longrightarrow> api_sent t = api_sent s @ [cloudflare_zone_query tok domain]"
  by (auto simp: cloudflare_get_zone_id_def bindM_eq_Inr_iff send_Inr split: if_splits)

lemma cloudflare_delete_all_Inr:
  "cloudflare_delete_all H tok z records s = (Inr u, t) \<Longrightarrow>
     \<exists>ids. map (json_item ''id'') records = map Inr ids \<and>
       api_sent t = api_sent s @ map (cloudflare_delete tok z) ids"
proof (induction records arbitrary: s)
  case (Cons r rs)
  then obtain i dr t1 where i: "json_item ''id'' r = Inr i"
    and t1: "send H (cloudflare_delete tok z i) s = (Inr dr, t1)"
    and rest: "cloudflare_delete_all H tok z rs t1 = (Inr u, t)"
    by (auto simp: bindM_eq_Inr_iff)
  from Cons.IH [OF rest] obtain ids where "map (json_item ''id'') rs = map Inr ids"
    "api_sent t = api_sent t1 @ map (cloudflare_delete tok z) ids" by blast
  with i t1 show ?case by (intro exI [of _ "i # ids"]) (auto simp: send_Inr)
qed simp

lemma porkbun_delete_all_Inr:
  "porkbun_delete_all H cred d records s = (Inr u, t) \<Longrightarrow>
     \<exists>ids. map (json_item ''id'') records = map Inr ids \<and>
       api_sent t = api_sent s @ map (porkbun_delete cred d) ids"
proof (induction records arbitrary: s)
  case (Cons r rs)
  then obtain i dr t1 where i: "json_item ''id'' r = Inr i"
    and t1: "send H (porkbun_delete cred d i) s = (Inr dr, t1)"
    and rest: "porkbun_delete_all H cred d rs t1 = (Inr u, t)"
    by (auto simp: bindM_eq_Inr_iff)
  from Cons.IH [OF rest] obtain ids where "map (json_item ''id'') rs = map Inr ids"
    "api_sent t = api_sent t1 @ map (porkbun_delete cred d) ids" by blast
  with i t1 show ?case by (intro exI [of _ "i # ids"]) (auto simp: send_Inr)
qed simp

lemma cloudflare_set_txt_Inr:
  assumes "cloudflare_set_txt H tok domain name value s = (Inr u, t)"
  shows "\<exists>z. api_sent t = api_sent s @ [cloudflare_zone_query tok domain, cloudflare_create tok z name value]"
  using assms
  by (auto simp: cloudflare_set_txt_def bindM_eq_Inr_iff send_Inr dest!: cloudflare_get_zone_id_Inr)

lemma cloudflare_delete_txt_Inr:
  assumes "cloudflare_delete_txt H tok domain name s = (Inr u, t)"
  shows "\<exists>z ids. api_sent t = api_sent s @ [cloudflare_zone_query tok domain, cloudflare_list tok z name] @
      map (cloudflare_delete tok z) ids \<and>
    (\<exists>w r w' found records. H (cloudflare_list tok z name) w = (Inr r, w') \<and> is_success r \<and>
       bindE (reply_json r) (get_list ''result'') = Inr found \<and> py_iter found = Inr records \<and>
       map (json_item ''id'') records = map Inr ids)"
proof -
  from assms obtain z t1 r t2 found records where
    z: "cloudflare_get_zone_id H tok domain s = (Inr z, t1)"
    and r: "send H (cloudflare_list tok z name) t1 = (Inr r, t2)" "is_success r"
    and found: "bindE (reply_json r) (get_list ''result'') = Inr found" "py_iter found = Inr records"
    and del: "cloudflare_delete_all H tok z records t2 = (Inr u, t)"
    unfolding cloudflare_delete_txt_def by (auto simp: bindM_eq_Inr_iff)
  from cloudflare_delete_all_Inr [OF del] obtain ids where
    ids: "map (json_item ''id'') records = map Inr ids" "api_sent t = api_sent t2 @ map (cloudflare_delete tok z) ids"
    by blast
  from r(1) obtain w' where "H (cloudflare_list tok z name) (api_world t1) = (Inr r, w')"
    "api_sent t2 = api_sent t1 @ [cloudflare_list tok z name]" by (auto simp: send_Inr)
  with cloudflare_get_zone_id_Inr [OF z] ids r(2) found show ?thesis
    by (intro exI [of _ z] exI [of _ ids]) auto
qed

lemma porkbun_delete_txt_Inr:
  assumes "porkbun_delete_txt H cred domain name s = (Inr u, t)"
  shows "\<exists>ids. api_sent t = api_sent s @ [porkbun_retrieve cred domain (removesuffix name (''.'' @ domain))] @
      map (porkbun_delete cred domain) ids \<and>
    (\<exists>w r w' found records. H (porkbun_retrieve cred domain (removesuffix name (''.'' @ domain))) w = (Inr r, w') \<and>
       is_success r \<and> bindE (reply_json r) (get_list ''records'') = Inr found \<and> py_iter found = Inr records \<and>
       map (json_item ''id'') records = map Inr ids)"
proof -
  from assms obtain r t2 found records where
    r: "send H (porkbun_retrieve cred domain (removesuffix name (''.'' @ domain))) s = (Inr r, t2)" "is_success r"
    and found: "bindE (reply_json r) (get_list ''records'') = Inr found" "py_iter found = Inr records"
    and del: "porkbun_delete_all H cred domain records t2 = (Inr u, t)"
    unfolding porkbun_delete_txt_def Let_def by (auto simp: bindM_eq_Inr_iff)
  from porkbun_delete_all_Inr [OF del] obtain ids where
    ids: "map (json_item ''id'') records = map Inr ids" "api_sent t = api_sent t2 @ map (porkbun_delete cred domain) ids"
    by blast
  with r found show ?thesis by (intro exI [of _ ids]) (auto simp: send_Inr)
qed

text \<open>Porkbun's deletions count as done whatever they were answered.\<close>

lemma porkbun_deletions_unchecked:
  assumes "\<And>i w. \<exists>r w'. H (porkbun_delete cred d i) w = (Inr r, w')"
    "map (json_item ''id'') records = map Inr ids"
  shows "\<exists>t. porkbun_delete_all H cred d records s = (Inr (), t)"
  using assms(2)
proof (induction records arbitrary: s ids)
  case (Cons r rs)
  then obtain i js where i: "json_item ''id'' r = Inr i" "map (json_item ''id'') rs = map Inr js"
    by (cases ids) auto
  obtain dr w' where "H (porkbun_delete cred d i) (api_world s) = (Inr dr, w')" using assms(1) by blast
  with i Cons.IH [OF i(2)] show ?case by (simp add: bindM_apply send_def)
qed simp

end
