(* ===== verification/Namecheap.thy ===== *)
theory Namecheap
  imports DnsApi
begin

text \<open>
  The provider of \<^verbatim>\<open>dns/providers/namecheap.py\<close>.  Its API replaces the full host list on every
  write, so both operations read the list, change it and write it back.  Parsing XML text is the
  argument \<open>X\<close>.  Against a server that keeps one host list
  per domain, the operations refine adding one record and removing the records of one name.
\<close>

section \<open>Requests\<close>

record namecheap_settings =
  nc_api_user :: string
  nc_api_key :: string
  nc_username :: string
  nc_client_ip :: string

text \<open>\<open>self._username = s.username or s.api_user\<close>.\<close>

definition namecheap_init :: "string \<Rightarrow> string \<Rightarrow> string \<Rightarrow> string \<Rightarrow> namecheap_settings" where
  "namecheap_init api_user api_key username client_ip =
     \<lparr>nc_api_user = api_user, nc_api_key = api_key,
      nc_username = (if username = [] then api_user else username), nc_client_ip = client_ip\<rparr>"

definition namecheap_url :: string where
  "namecheap_url = ''https://api.namecheap.com/xml.response''"

definition nc_ns :: string where
  "nc_ns = ''{http://api.namecheap.com/xml.response}''"

record host_record =
  h_name :: string
  h_type :: string
  h_address :: string
  h_mx_pref :: string
  h_ttl :: string

definition base_params :: "namecheap_settings \<Rightarrow> string \<Rightarrow> string \<Rightarrow> string \<Rightarrow> (string \<times> string) list" where
  "base_params cred command sld tld =
     [(''ApiUser'', nc_api_user cred), (''ApiKey'', nc_api_key cred), (''UserName'', nc_username cred),
      (''ClientIp'', nc_client_ip cred), (''Command'', command), (''SLD'', sld), (''TLD'', tld)]"

text \<open>\<open>domain.split(".", 1)\<close>; a name without a dot has no two parts to unpack.\<close>

definition split_domain :: "string \<Rightarrow> exc + string \<times> string" where
  "split_domain domain = (case split_on CHR ''.'' domain of
     sld # rest \<Rightarrow> if rest = [] then Inl (PyError ''ValueError'') else Inr (sld, join ''.'' rest)
   | [] \<Rightarrow> Inl (PyError ''ValueError''))"

definition check_status :: "xml \<Rightarrow> exc + unit" where
  "check_status root = (if map_of (xml_attrs root) ''Status'' = Some ''OK'' then Inr () else Inl (PyError ''RuntimeError''))"

definition parse_reply :: "(string \<Rightarrow> xml option) \<Rightarrow> http_reply \<Rightarrow> exc + xml" where
  "parse_reply X r =
     bindE (raise_for_status r) (\<lambda>_.
     bindE (of_option (PyError ''ParseError'') (X (hr_text r))) (\<lambda>root.
     bindE (check_status root) (\<lambda>_. Inr root)))"

definition host_of_elem :: "xml \<Rightarrow> host_record" where
  "host_of_elem h = \<lparr>h_name = attr ''Name'' '''' h, h_type = attr ''Type'' '''' h, h_address = attr ''Address'' '''' h,
     h_mx_pref = attr ''MXPref'' ''10'' h, h_ttl = attr ''TTL'' ''1800'' h\<rparr>"

definition hosts_of_xml :: "xml \<Rightarrow> host_record list" where
  "hosts_of_xml root = map host_of_elem (find_all (nc_ns @ ''host'') root)"

definition get_hosts_call :: "namecheap_settings \<Rightarrow> string \<Rightarrow> string \<Rightarrow> http_call" where
  "get_hosts_call cred sld tld = \<lparr>hc_method = ''GET'', hc_url = namecheap_url,
     hc_params = base_params cred ''namecheap.domains.dns.getHosts'' sld tld, hc_headers = [], hc_body = NoBody\<rparr>"

definition get_hosts ::
  "'w http \<Rightarrow> (string \<Rightarrow> xml option) \<Rightarrow> namecheap_settings \<Rightarrow> string \<Rightarrow> string \<Rightarrow> ('w, host_record list) apim" where
  "get_hosts H X cred sld tld =
     bindM (send H (get_hosts_call cred sld tld)) (\<lambda>r.
     bindM (liftM (parse_reply X r)) (\<lambda>root. returnM (hosts_of_xml root)))"

fun host_params :: "nat \<Rightarrow> host_record list \<Rightarrow> (string \<times> string) list" where
  "host_params i [] = []"
| "host_params i (h # hs) =
     [(''HostName'' @ nat_str 10 i, h_name h), (''RecordType'' @ nat_str 10 i, h_type h),
      (''Address'' @ nat_str 10 i, h_address h), (''MXPref'' @ nat_str 10 i, h_mx_pref h),
      (''TTL'' @ nat_str 10 i, h_ttl h)] @ host_params (Suc i) hs"

definition set_hosts_call :: "namecheap_settings \<Rightarrow> string \<Rightarrow> string \<Rightarrow> host_record list \<Rightarrow> http_call" where
  "set_hosts_call cred sld tld hosts = \<lparr>hc_method = ''POST'', hc_url = namecheap_url, hc_params = [], hc_headers = [],
     hc_body = FormBody (base_params cred ''namecheap.domains.dns.setHosts'' sld tld @ host_params 1 hosts)\<rparr>"

definition set_hosts ::
  "'w http \<Rightarrow> (string \<Rightarrow> xml option) \<Rightarrow> namecheap_settings \<Rightarrow> string \<Rightarrow> string \<Rightarrow> host_record list \<Rightarrow> ('w, unit) apim" where
  "set_hosts H X cred sld tld hosts =
     bindM (send H (set_hosts_call cred sld tld hosts)) (\<lambda>r.
     bindM (liftM (parse_reply X r)) (\<lambda>root. returnM ()))"

section \<open>Operations\<close>

definition txt_record :: "string \<Rightarrow> string \<Rightarrow> host_record" where
  "txt_record rel_name value = \<lparr>h_name = rel_name, h_type = ''TXT'', h_address = value, h_mx_pref = ''10'', h_ttl = ''120''\<rparr>"

definition namecheap_set_txt ::
  "'w http \<Rightarrow> (string \<Rightarrow> xml option) \<Rightarrow> namecheap_settings \<Rightarrow> string \<Rightarrow> string \<Rightarrow> string \<Rightarrow> ('w, unit) apim" where
  "namecheap_set_txt H X cred domain name value =
     bindM (liftM (split_domain domain)) (\<lambda>(sld, tld).
     let rel_name = removesuffix name (''.'' @ domain) in
     bindM (get_hosts H X cred sld tld) (\<lambda>hosts.
       set_hosts H X cred sld tld (hosts @ [txt_record rel_name value])))"

definition other_host :: "string \<Rightarrow> host_record \<Rightarrow> bool" where
  "other_host rel_name h \<longleftrightarrow> \<not> (h_type h = ''TXT'' \<and> h_name h = rel_name)"

definition namecheap_delete_txt ::
  "'w http \<Rightarrow> (string \<Rightarrow> xml option) \<Rightarrow> namecheap_settings \<Rightarrow> string \<Rightarrow> string \<Rightarrow> ('w, unit) apim" where
  "namecheap_delete_txt H X cred domain name =
     bindM (liftM (split_domain domain)) (\<lambda>(sld, tld).
     let rel_name = removesuffix name (''.'' @ domain) in
     bindM (get_hosts H X cred sld tld) (\<lambda>before.
       let hosts = filter (other_host rel_name) before in
       if length hosts < length before then set_hosts H X cred sld tld hosts else returnM ()))"

section \<open>The contract\<close>

lemma set_hosts_confined: "confined namecheap_url (set_hosts H X cred sld tld hosts)"
  unfolding set_hosts_def by (intro confinement) (simp add: set_hosts_call_def startswith_def)

lemma get_hosts_confined: "confined namecheap_url (get_hosts H X cred sld tld)"
  unfolding get_hosts_def by (intro confinement) (simp add: get_hosts_call_def startswith_def)

interpretation namecheap_api:
  dns_provider_api namecheap_url "namecheap_set_txt H X cred" "namecheap_delete_txt H X cred" for H X cred
proof
  show "confined namecheap_url (namecheap_set_txt H X cred domain name v)" for domain name v
    unfolding namecheap_set_txt_def Let_def
    by (intro confinement) (auto intro!: confinement get_hosts_confined set_hosts_confined split: prod.splits)
  show "confined namecheap_url (namecheap_delete_txt H X cred domain name)" for domain name
    unfolding namecheap_delete_txt_def Let_def
    by (intro confinement) (auto intro!: confinement get_hosts_confined set_hosts_confined split: prod.splits)
qed

section \<open>The posted parameters determine the host list\<close>

fun read_hosts :: "nat \<Rightarrow> nat \<Rightarrow> (string \<times> string) list \<Rightarrow> host_record list" where
  "read_hosts 0 i ps = []"
| "read_hosts (Suc n) i ps =
     (case (map_of ps (''HostName'' @ nat_str 10 i), map_of ps (''RecordType'' @ nat_str 10 i),
            map_of ps (''Address'' @ nat_str 10 i), map_of ps (''MXPref'' @ nat_str 10 i), map_of ps (''TTL'' @ nat_str 10 i)) of
        (Some nm, Some ty, Some ad, Some mx, Some ttl) \<Rightarrow>
          \<lparr>h_name = nm, h_type = ty, h_address = ad, h_mx_pref = mx, h_ttl = ttl\<rparr> # read_hosts n (Suc i) ps
      | _ \<Rightarrow> [])"

definition posted_hosts :: "(string \<times> string) list \<Rightarrow> host_record list" where
  "posted_hosts ps = read_hosts (length ps) 1 ps"

lemma decimal_inj: "nat_str 10 i = nat_str 10 j \<longleftrightarrow> i = j"
  using nat_str_inj [of 10 i j] by auto

lemma host_params_lookup:
  "map_of (host_params i hs) (''HostName'' @ nat_str 10 j) =
     (if i \<le> j \<and> j < i + length hs then Some (h_name (hs ! (j - i))) else None)"
  "map_of (host_params i hs) (''RecordType'' @ nat_str 10 j) =
     (if i \<le> j \<and> j < i + length hs then Some (h_type (hs ! (j - i))) else None)"
  "map_of (host_params i hs) (''Address'' @ nat_str 10 j) =
     (if i \<le> j \<and> j < i + length hs then Some (h_address (hs ! (j - i))) else None)"
  "map_of (host_params i hs) (''MXPref'' @ nat_str 10 j) =
     (if i \<le> j \<and> j < i + length hs then Some (h_mx_pref (hs ! (j - i))) else None)"
  "map_of (host_params i hs) (''TTL'' @ nat_str 10 j) =
     (if i \<le> j \<and> j < i + length hs then Some (h_ttl (hs ! (j - i))) else None)"
  by (induction hs arbitrary: i; auto simp: decimal_inj nth_Cons' Suc_le_eq)+

lemma base_params_lookup:
  "map_of (base_params cred c sld tld) (''HostName'' @ x) = None"
  "map_of (base_params cred c sld tld) (''RecordType'' @ x) = None"
  "map_of (base_params cred c sld tld) (''Address'' @ x) = None"
  "map_of (base_params cred c sld tld) (''MXPref'' @ x) = None"
  "map_of (base_params cred c sld tld) (''TTL'' @ x) = None"
  by (simp_all add: base_params_def)

lemma posted_lookup:
  fixes cred c sld tld hs
  defines "ps \<equiv> base_params cred c sld tld @ host_params 1 hs"
  shows "map_of ps (''HostName'' @ nat_str 10 (Suc k)) = (if k < length hs then Some (h_name (hs ! k)) else None)"
    "map_of ps (''RecordType'' @ nat_str 10 (Suc k)) = (if k < length hs then Some (h_type (hs ! k)) else None)"
    "map_of ps (''Address'' @ nat_str 10 (Suc k)) = (if k < length hs then Some (h_address (hs ! k)) else None)"
    "map_of ps (''MXPref'' @ nat_str 10 (Suc k)) = (if k < length hs then Some (h_mx_pref (hs ! k)) else None)"
    "map_of ps (''TTL'' @ nat_str 10 (Suc k)) = (if k < length hs then Some (h_ttl (hs ! k)) else None)"
  unfolding ps_def map_of_append map_add_def host_params_lookup base_params_lookup by (auto split: if_splits)

lemma read_hosts_params:
  assumes "length hs \<le> n + k" "k \<le> length hs"
  shows "read_hosts n (Suc k) (base_params cred c sld tld @ host_params 1 hs) = drop k hs"
  using assms
proof (induction n arbitrary: k)
  case (Suc n)
  show ?case
  proof (cases "k < length hs")
    case True
    then have "drop k hs = hs ! k # drop (Suc k) hs" by (simp add: Cons_nth_drop_Suc)
    with True Suc show ?thesis unfolding read_hosts.simps posted_lookup by simp
  next
    case False
    with Suc.prems show ?thesis unfolding read_hosts.simps posted_lookup by simp
  qed
qed simp

lemma length_host_params: "length (host_params i hs) = 5 * length hs"
  by (induction hs arbitrary: i) auto

lemma posted_hosts_params: "posted_hosts (base_params cred c sld tld @ host_params 1 hs) = hs"
  unfolding posted_hosts_def
  using read_hosts_params [of hs "length (base_params cred c sld tld @ host_params 1 hs)" 0 cred c sld tld]
  by (simp add: length_host_params)

section \<open>Refinement of a host list\<close>

text \<open>
  What the API documents of getHosts and setHosts, for the domain given by \<open>sld\<close> and \<open>tld\<close>: reading
  does not change the list and an answer with status OK shows it; a post answered with status OK
  replaces the list by the posted one.
\<close>

definition reads_hosts ::
  "'w http \<Rightarrow> (string \<Rightarrow> xml option) \<Rightarrow> namecheap_settings \<Rightarrow> string \<Rightarrow> string \<Rightarrow> ('w \<Rightarrow> host_record list) \<Rightarrow> bool" where
  "reads_hosts H X cred sld tld view \<longleftrightarrow>
     (\<forall>w r w'. H (get_hosts_call cred sld tld) w = (Inr r, w') \<longrightarrow>
        view w' = view w \<and> (\<forall>root. parse_reply X r = Inr root \<longrightarrow> hosts_of_xml root = view w))"

definition replaces_hosts ::
  "'w http \<Rightarrow> (string \<Rightarrow> xml option) \<Rightarrow> string \<Rightarrow> string \<Rightarrow> ('w \<Rightarrow> host_record list) \<Rightarrow> bool" where
  "replaces_hosts H X sld tld view \<longleftrightarrow>
     (\<forall>call ps w r w' root. hc_method call = ''POST'' \<and> hc_url call = namecheap_url \<and> hc_body call = FormBody ps \<and>
        map_of ps ''Command'' = Some ''namecheap.domains.dns.setHosts'' \<and>
        map_of ps ''SLD'' = Some sld \<and> map_of ps ''TLD'' = Some tld \<and>
        H call w = (Inr r, w') \<and> parse_reply X r = Inr root \<longrightarrow> view w' = posted_hosts ps)"

lemma get_hosts_reads:
  assumes "reads_hosts H X cred sld tld view" "get_hosts H X cred sld tld s = (Inr hosts, t)"
  shows "hosts = view (api_world s) \<and> view (api_world t) = view (api_world s)"
  using assms by (auto simp: get_hosts_def reads_hosts_def bindM_eq_Inr_iff send_Inr)

lemma set_hosts_replaces:
  assumes "replaces_hosts H X sld tld view" "set_hosts H X cred sld tld hosts s = (Inr u, t)"
  shows "view (api_world t) = hosts"
proof -
  let ?ps = "base_params cred ''namecheap.domains.dns.setHosts'' sld tld @ host_params 1 hosts"
  from assms(2) obtain r w' root where
    r: "H (set_hosts_call cred sld tld hosts) (api_world s) = (Inr r, w')" "parse_reply X r = Inr root"
    and t: "api_world t = w'"
    by (auto simp: set_hosts_def bindM_eq_Inr_iff send_Inr)
  have "map_of ?ps ''Command'' = Some ''namecheap.domains.dns.setHosts''" "map_of ?ps ''SLD'' = Some sld"
    "map_of ?ps ''TLD'' = Some tld"
    by (simp_all add: base_params_def)
  moreover have "hc_method (set_hosts_call cred sld tld hosts) = ''POST''"
    "hc_url (set_hosts_call cred sld tld hosts) = namecheap_url" "hc_body (set_hosts_call cred sld tld hosts) = FormBody ?ps"
    by (simp_all add: set_hosts_call_def)
  ultimately have "view w' = posted_hosts ?ps" using assms(1) r unfolding replaces_hosts_def by blast
  with t show ?thesis unfolding posted_hosts_params by simp
qed

lemma namecheap_set_txt_refines:
  assumes "split_domain domain = Inr (sld, tld)" "reads_hosts H X cred sld tld view" "replaces_hosts H X sld tld view"
    "namecheap_set_txt H X cred domain name v s = (Inr u, t)"
  shows "view (api_world t) = view (api_world s) @ [txt_record (removesuffix name (''.'' @ domain)) v]"
proof -
  from assms(1,4) obtain hosts t1 where g: "get_hosts H X cred sld tld s = (Inr hosts, t1)"
    and p: "set_hosts H X cred sld tld (hosts @ [txt_record (removesuffix name (''.'' @ domain)) v]) t1 = (Inr u, t)"
    by (auto simp: namecheap_set_txt_def bindM_eq_Inr_iff Let_def)
  from set_hosts_replaces [OF assms(3) p] get_hosts_reads [OF assms(2) g] show ?thesis by simp
qed

lemma namecheap_delete_txt_refines:
  assumes "split_domain domain = Inr (sld, tld)" "reads_hosts H X cred sld tld view" "replaces_hosts H X sld tld view"
    "namecheap_delete_txt H X cred domain name s = (Inr u, t)"
  shows "view (api_world t) = filter (other_host (removesuffix name (''.'' @ domain))) (view (api_world s))"
proof -
  define P where "P = other_host (removesuffix name (''.'' @ domain))"
    from assms(1,4) obtain hosts t1 where g: "get_hosts H X cred sld tld s = (Inr hosts, t1)"
    and p: "(if length (filter P hosts) < length hosts then set_hosts H X cred sld tld (filter P hosts)
        else returnM ()) t1 = (Inr u, t)"
    unfolding namecheap_delete_txt_def Let_def P_def [symmetric] by (auto simp: bindM_eq_Inr_iff)
  note hosts = get_hosts_reads [OF assms(2) g]
  have "view (api_world t) = filter P (view (api_world s))"
  proof (cases "length (filter P hosts) < length hosts")
    case True
    with p have "set_hosts H X cred sld tld (filter P hosts) t1 = (Inr u, t)" by simp
    from set_hosts_replaces [OF assms(3) this] hosts show ?thesis by simp
  next
    case False
    then have "length (filter P hosts) = length hosts" using length_filter_le [of P hosts] by linarith
    then have "filter P hosts = hosts" by (metis filter_id_conv length_filter_less less_irrefl)
    with False p hosts show ?thesis by simp
  qed
  then show ?thesis unfolding P_def .
qed

section \<open>Concurrent cycles on the shared provider\<close>

text \<open>
  A cycle reads the host list of a domain, computes a new one and writes it.  The lock of the domain
  is held from the reading to the writing; a cycle may also fail before it writes.
\<close>

datatype change = AddTxt string string | DropTxt string

fun apply_change :: "change \<Rightarrow> host_record list \<Rightarrow> host_record list" where
  "apply_change (AddTxt rel v) hosts = hosts @ [txt_record rel v]"
| "apply_change (DropTxt rel) hosts = filter (other_host rel) hosts"

record cycles =
  cy_hosts :: "string \<Rightarrow> host_record list"
  cy_open :: "(string \<times> change \<times> host_record list) list"
  cy_done :: "(string \<times> change) list"

text \<open>\<open>self._locks.setdefault(domain, ...)\<close>: the domains whose lock is held.\<close>

definition lock_held :: "string \<Rightarrow> cycles \<Rightarrow> bool" where
  "lock_held domain s \<longleftrightarrow> domain \<in> fst ` set (cy_open s)"

inductive cycle_step :: "cycles \<Rightarrow> cycles \<Rightarrow> bool" where
  reading: "\<not> lock_held d s \<Longrightarrow> cycle_step s (s\<lparr>cy_open := (d, c, cy_hosts s d) # cy_open s\<rparr>)"
| writing: "cy_open s = as @ (d, c, snap) # bs \<Longrightarrow>
    cycle_step s (s\<lparr>cy_hosts := (cy_hosts s)(d := apply_change c snap), cy_open := as @ bs,
      cy_done := cy_done s @ [(d, c)]\<rparr>)"
| failing: "cy_open s = as @ (d, c, snap) # bs \<Longrightarrow> cycle_step s (s\<lparr>cy_open := as @ bs\<rparr>)"

definition serial_hosts :: "(string \<Rightarrow> host_record list) \<Rightarrow> (string \<times> change) list \<Rightarrow> string \<Rightarrow> host_record list" where
  "serial_hosts init log d = fold (\<lambda>(_, c). apply_change c) (filter (\<lambda>(e, _). e = d) log) (init d)"

definition cycles_ok :: "(string \<Rightarrow> host_record list) \<Rightarrow> cycles \<Rightarrow> bool" where
  "cycles_ok init s \<longleftrightarrow> distinct (map fst (cy_open s)) \<and>
     (\<forall>d c snap. (d, c, snap) \<in> set (cy_open s) \<longrightarrow> snap = cy_hosts s d) \<and>
     (\<forall>d. cy_hosts s d = serial_hosts init (cy_done s) d)"

lemma serial_hosts_snoc:
  "serial_hosts init (log @ [(e, c)]) d =
     (if d = e then apply_change c (serial_hosts init log d) else serial_hosts init log d)"
  by (simp add: serial_hosts_def)

lemma cycle_step_ok:
  assumes "cycle_step s t" "cycles_ok init s"
  shows "cycles_ok init t"
  using assms(1)
proof cases
  case (writing as d c snap bs)
  from assms(2) writing(2) have snap: "snap = cy_hosts s d" and d: "d \<notin> fst ` set (as @ bs)"
    unfolding cycles_ok_def by auto
  have "e \<noteq> d \<and> snap' = cy_hosts s e" if "(e, c', snap') \<in> set (as @ bs)" for e c' snap'
  proof
    show "e \<noteq> d" using d that by force
    show "snap' = cy_hosts s e" using that assms(2) writing(2) unfolding cycles_ok_def by auto
  qed
  with assms(2) writing snap show ?thesis
    unfolding cycles_ok_def by (auto simp: serial_hosts_snoc)
qed (use assms(2) in \<open>auto simp: cycles_ok_def lock_held_def\<close>)

lemma cycles_serial:
  assumes "cycle_step\<^sup>*\<^sup>* \<lparr>cy_hosts = init, cy_open = [], cy_done = []\<rparr> s"
  shows "cycles_ok init s"
  using assms
proof (induction rule: rtranclp_induct)
  case base
  then show ?case by (simp add: cycles_ok_def serial_hosts_def)
next
  case (step y z)
  then show ?case by (blast intro: cycle_step_ok)
qed

lemma apply_change_keeps:
  "txt_record rel v \<in> set hosts \<Longrightarrow> c \<noteq> DropTxt rel \<Longrightarrow> txt_record rel v \<in> set (apply_change c hosts)"
  by (cases c) (auto simp: other_host_def txt_record_def)

lemma serial_hosts_keeps:
  "(d, DropTxt rel) \<notin> set ys \<Longrightarrow> txt_record rel v \<in> set (serial_hosts init (xs @ (d, AddTxt rel v) # ys) d)"
proof (induction ys rule: rev_induct)
  case Nil
  then show ?case by (simp add: serial_hosts_def)
next
  case (snoc y ys)
  obtain e c where y: "y = (e, c)" by (cases y)
  have "serial_hosts init (xs @ (d, AddTxt rel v) # ys @ [y]) d =
      (if d = e then apply_change c (serial_hosts init (xs @ (d, AddTxt rel v) # ys) d)
       else serial_hosts init (xs @ (d, AddTxt rel v) # ys) d)"
    using serial_hosts_snoc [of init "xs @ (d, AddTxt rel v) # ys" e c d] by (simp add: y)
  with snoc y show ?case by (auto intro: apply_change_keeps)
qed

end
