(* ===== verification/Route53.thy ===== *)
theory Route53
  imports DnsApi
begin

text \<open>
  The provider of \<^verbatim>\<open>dns/providers/route53.py\<close>: request signing (AWS Signature Version 4), the
  XML bodies and the two operations.  The hash functions and the XML parser are arguments.  The
  lemmas show that names and values cannot break out of the XML body, that query strings determine
  their parameters, and that every request carries the signature of its own content.
\<close>

section \<open>Text\<close>

text \<open>\<open>str.encode()\<close> on the code points below 256.\<close>

definition utf8_char :: "char \<Rightarrow> string" where
  "utf8_char c = (let n = of_char c :: nat in
     if n < 128 then [c] else [char_of (192 + n div 64), char_of (128 + n mod 64)])"

definition utf8 :: "string \<Rightarrow> string" where
  "utf8 s = concat (map utf8_char s)"

definition hexdigest :: "string \<Rightarrow> string" where
  "hexdigest bs = concat (map (\<lambda>b. hex_byte (of_char b)) bs)"

text \<open>\<open>urllib.parse.quote(s, safe='')\<close>.\<close>

definition unreserved :: "char \<Rightarrow> bool" where
  "unreserved c \<longleftrightarrow> (let n = of_char c :: nat in
     (48 \<le> n \<and> n \<le> 57) \<or> (65 \<le> n \<and> n \<le> 90) \<or> (97 \<le> n \<and> n \<le> 122) \<or> n \<in> {45, 46, 95, 126})"

definition upper_digit :: "nat \<Rightarrow> char" where
  "upper_digit d = char_of (if d < 10 then 48 + d else 55 + d)"

definition quote_byte :: "char \<Rightarrow> string" where
  "quote_byte b = (let n = of_char b :: nat in
     if unreserved b then [b] else [CHR ''%'', upper_digit (n div 16), upper_digit (n mod 16)])"

definition quote :: "string \<Rightarrow> string" where
  "quote s = concat (map quote_byte (utf8 s))"

text \<open>\<open>xml.sax.saxutils.escape\<close>.\<close>

definition escape_char :: "char \<Rightarrow> string" where
  "escape_char c = (if c = CHR ''&'' then ''&amp;'' else if c = CHR ''>'' then ''&gt;''
     else if c = CHR ''<'' then ''&lt;'' else [c])"

definition escape :: "string \<Rightarrow> string" where
  "escape s = concat (map escape_char s)"

definition lower_char :: "char \<Rightarrow> char" where
  "lower_char c = (let n = of_char c :: nat in
     if (65 \<le> n \<and> n \<le> 90) \<or> (192 \<le> n \<and> n \<le> 222 \<and> n \<noteq> 215) then char_of (n + 32) else c)"

definition lower :: "string \<Rightarrow> string" where
  "lower s = map lower_char s"

section \<open>Signing\<close>

record aws_crypto =
  sha256 :: "string \<Rightarrow> string"
  hmac_sha256 :: "string \<Rightarrow> string \<Rightarrow> string"

record aws_settings =
  aws_access_key :: string
  aws_secret_key :: string
  aws_token :: string

definition aws_region :: string where
  "aws_region = ''us-east-1''"

definition aws_service :: string where
  "aws_service = ''route53''"

definition aws_host :: string where
  "aws_host = ''route53.amazonaws.com''"

definition mac :: "aws_crypto \<Rightarrow> string \<Rightarrow> string \<Rightarrow> string" where
  "mac A key msg = hmac_sha256 A key (utf8 msg)"

definition derive_key :: "aws_crypto \<Rightarrow> string \<Rightarrow> string \<Rightarrow> string" where
  "derive_key A secret date =
     mac A (mac A (mac A (mac A (utf8 (''AWS4'' @ secret)) date) aws_region) aws_service) ''aws4_request''"

definition canonical_qs :: "(string \<times> string) list \<Rightarrow> string" where
  "canonical_qs params = join ''&'' (map (\<lambda>(k, v). quote k @ ''='' @ quote v) (sort_key fst params))"

definition amz_day :: "datetime \<Rightarrow> string" where
  "amz_day now = (let (y, m, d) = ord2ymd (now div 86400000000 + 1) in pad0 4 y @ pad0 2 m @ pad0 2 d)"

definition amz_date :: "datetime \<Rightarrow> string" where
  "amz_date now = (let secs = now mod 86400000000 div 1000000 in
     amz_day now @ ''T'' @ pad0 2 (secs div 3600) @ pad0 2 (secs div 60 mod 60) @ pad0 2 (secs mod 60) @ ''Z'')"

definition newline :: string where
  "newline = [CHR 0x0A]"

definition canonical_headers :: "string \<Rightarrow> string \<Rightarrow> string" where
  "canonical_headers amzdate session_token =
     ''host:'' @ aws_host @ newline @ ''x-amz-date:'' @ amzdate @ newline @
     (if session_token = [] then [] else ''x-amz-security-token:'' @ session_token @ newline)"

definition signed_headers :: "string \<Rightarrow> string" where
  "signed_headers session_token =
     (if session_token = [] then ''host;x-amz-date'' else ''host;x-amz-date;x-amz-security-token'')"

definition canonical_request ::
  "aws_crypto \<Rightarrow> string \<Rightarrow> string \<Rightarrow> string \<Rightarrow> string \<Rightarrow> string \<Rightarrow> string \<Rightarrow> string" where
  "canonical_request A amzdate session_token meth path query body = join newline
     [meth, path, query, canonical_headers amzdate session_token, signed_headers session_token,
      hexdigest (sha256 A (utf8 body))]"

definition signing_scope :: "datetime \<Rightarrow> string" where
  "signing_scope now = amz_day now @ ''/'' @ aws_region @ ''/'' @ aws_service @ ''/aws4_request''"

definition string_to_sign :: "aws_crypto \<Rightarrow> datetime \<Rightarrow> string \<Rightarrow> string" where
  "string_to_sign A now canonical = join newline
     [''AWS4-HMAC-SHA256'', amz_date now, signing_scope now, hexdigest (sha256 A (utf8 canonical))]"

definition sigv4_headers ::
  "aws_crypto \<Rightarrow> aws_settings \<Rightarrow> datetime \<Rightarrow> string \<Rightarrow> string \<Rightarrow> string \<Rightarrow> string \<Rightarrow> (string \<times> string) list" where
  "sigv4_headers A cred now meth path query body =
     (let tok = aws_token cred;
          canonical = canonical_request A (amz_date now) tok meth path query body;
          sig = hexdigest (hmac_sha256 A (derive_key A (aws_secret_key cred) (amz_day now))
                  (utf8 (string_to_sign A now canonical)))
      in [(''X-Amz-Date'', amz_date now),
          (''Authorization'', ''AWS4-HMAC-SHA256 Credential='' @ aws_access_key cred @ ''/'' @ signing_scope now @
             '', SignedHeaders='' @ signed_headers tok @ '', Signature='' @ sig)] @
         (if tok = [] then [] else [(''X-Amz-Security-Token'', tok)]))"

section \<open>Requests\<close>

definition aws_base :: string where
  "aws_base = ''https://route53.amazonaws.com''"

definition aws_ns :: string where
  "aws_ns = ''https://route53.amazonaws.com/doc/2013-04-01/''"

definition aws_tag :: "string \<Rightarrow> string" where
  "aws_tag t = ''{'' @ aws_ns @ ''}'' @ t"

definition aws_get :: "aws_crypto \<Rightarrow> aws_settings \<Rightarrow> datetime \<Rightarrow> string \<Rightarrow> (string \<times> string) list \<Rightarrow> http_call" where
  "aws_get A cred now path params =
     (let query = canonical_qs params in
      \<lparr>hc_method = ''GET'', hc_url = aws_base @ path @ ''?'' @ query, hc_params = [],
       hc_headers = sigv4_headers A cred now ''GET'' path query '''', hc_body = NoBody\<rparr>)"

definition aws_post :: "aws_crypto \<Rightarrow> aws_settings \<Rightarrow> datetime \<Rightarrow> string \<Rightarrow> string \<Rightarrow> http_call" where
  "aws_post A cred now path body =
     \<lparr>hc_method = ''POST'', hc_url = aws_base @ path, hc_params = [],
      hc_headers = sigv4_headers A cred now ''POST'' path '''' body @ [(''Content-Type'', ''text/xml'')],
      hc_body = TextBody body\<rparr>"

definition value_xml :: "string \<Rightarrow> string" where
  "value_xml v = ''<ResourceRecord><Value>'' @ escape v @ ''</Value></ResourceRecord>''"

definition dq :: string where
  "dq = [CHR 0x22]"

definition change_xml :: "string \<Rightarrow> string \<Rightarrow> string list \<Rightarrow> string" where
  "change_xml action name values =
     ''<?xml version='' @ dq @ ''1.0'' @ dq @ '' encoding='' @ dq @ ''UTF-8'' @ dq @ ''?>'' @
     ''<ChangeResourceRecordSetsRequest xmlns='' @ dq @ aws_ns @ dq @ ''>'' @
     ''<ChangeBatch><Changes><Change>'' @ ''<Action>'' @ action @ ''</Action>'' @
     ''<ResourceRecordSet>'' @ ''<Name>'' @ escape name @ ''.</Name>'' @ ''<Type>TXT</Type><TTL>120</TTL>'' @
     ''<ResourceRecords>'' @ concat (map value_xml values) @ ''</ResourceRecords>'' @
     ''</ResourceRecordSet>'' @ ''</Change></Changes></ChangeBatch>'' @ ''</ChangeResourceRecordSetsRequest>''"

section \<open>Answers\<close>

definition children_of :: "string \<Rightarrow> xml \<Rightarrow> xml list" where
  "children_of tag e = filter (\<lambda>c. xml_tag c = tag) (xml_children e)"

text \<open>\<open>root.find(".//HostedZone/Id")\<close> and the text after the last slash.\<close>

definition zone_id_of_xml :: "xml \<Rightarrow> exc + string" where
  "zone_id_of_xml root =
     (case concat (map (children_of (aws_tag ''Id'')) (find_all (aws_tag ''HostedZone'') root)) of
        [] \<Rightarrow> Inl (PyError ''ValueError'')
      | e # es \<Rightarrow> (case xml_text e of
            None \<Rightarrow> Inl (PyError ''ValueError'')
          | Some t \<Rightarrow> Inr (last (split_on CHR ''/'' t))))"

definition parse_xml :: "(string \<Rightarrow> xml option) \<Rightarrow> http_reply \<Rightarrow> exc + xml" where
  "parse_xml X r = bindE (raise_for_status r) (\<lambda>_. of_option (PyError ''ParseError'') (X (hr_text r)))"

definition text_or_empty :: "xml \<Rightarrow> string" where
  "text_or_empty e = (case xml_text e of None \<Rightarrow> '''' | Some t \<Rightarrow> t)"

definition rrset_name :: "xml \<Rightarrow> string" where
  "rrset_name rrs = rstrip_if (\<lambda>c. c = CHR ''.'')
     (case children_of (aws_tag ''Name'') rrs of [] \<Rightarrow> '''' | e # es \<Rightarrow> text_or_empty e)"

definition rrset_values :: "xml \<Rightarrow> string list" where
  "rrset_values rrs = map text_or_empty
     (concat (map (children_of (aws_tag ''Value'')) (find_all (aws_tag ''ResourceRecord'') rrs)))"

section \<open>Operations\<close>

text \<open>The clock is read once for every request.\<close>

definition aws_zone_id ::
  "'w http \<Rightarrow> (string \<Rightarrow> xml option) \<Rightarrow> aws_crypto \<Rightarrow> aws_settings \<Rightarrow> datetime \<Rightarrow> string \<Rightarrow> ('w, string) apim" where
  "aws_zone_id H X A cred now domain =
     bindM (send H (aws_get A cred now ''/2013-04-01/hostedzonesbyname'' [(''dnsname'', domain), (''maxitems'', ''1'')])) (\<lambda>r.
     bindM (liftM (parse_xml X r)) (\<lambda>root. liftM (zone_id_of_xml root)))"

definition rrset_path :: "string \<Rightarrow> string" where
  "rrset_path zone_id = ''/2013-04-01/hostedzone/'' @ zone_id @ ''/rrset''"

definition route53_set_txt ::
  "'w http \<Rightarrow> (string \<Rightarrow> xml option) \<Rightarrow> aws_crypto \<Rightarrow> aws_settings \<Rightarrow> (nat \<Rightarrow> datetime) \<Rightarrow>
   string \<Rightarrow> string \<Rightarrow> string \<Rightarrow> ('w, unit) apim" where
  "route53_set_txt H X A cred ck domain name value =
     bindM (aws_zone_id H X A cred (ck 0) domain) (\<lambda>zone_id.
     bindM (send H (aws_post A cred (ck 1) (rrset_path zone_id) (change_xml ''CREATE'' name [dq @ value @ dq])))
       (\<lambda>r. liftM (raise_for_status r)))"

definition route53_delete_txt ::
  "'w http \<Rightarrow> (string \<Rightarrow> xml option) \<Rightarrow> aws_crypto \<Rightarrow> aws_settings \<Rightarrow> (nat \<Rightarrow> datetime) \<Rightarrow>
   string \<Rightarrow> string \<Rightarrow> ('w, unit) apim" where
  "route53_delete_txt H X A cred ck domain name =
     bindM (aws_zone_id H X A cred (ck 0) domain) (\<lambda>zone_id.
     bindM (send H (aws_get A cred (ck 1) (rrset_path zone_id)
              [(''maxitems'', ''1''), (''name'', name), (''type'', ''TXT'')])) (\<lambda>r.
     bindM (liftM (parse_xml X r)) (\<lambda>root.
       case find_all (aws_tag ''ResourceRecordSet'') root of
         [] \<Rightarrow> returnM ()
       | rrs # _ \<Rightarrow>
           if lower (rrset_name rrs) \<noteq> lower name then returnM ()
           else bindM (send H (aws_post A cred (ck 2) (rrset_path zone_id)
                         (change_xml ''DELETE'' name (rrset_values rrs)))) (\<lambda>r2. liftM (raise_for_status r2)))))"

section \<open>The contract\<close>

lemma aws_get_url: "startswith (hc_url (aws_get A cred now (CHR ''/'' # path) params)) (aws_base @ ''/'')"
  by (simp add: aws_get_def Let_def startswith_def)

lemma aws_post_url: "startswith (hc_url (aws_post A cred now (CHR ''/'' # path) body)) (aws_base @ ''/'')"
  by (simp add: aws_post_def startswith_def)

lemma aws_zone_id_confined: "confined (aws_base @ ''/'') (aws_zone_id H X A cred now domain)"
  unfolding aws_zone_id_def by (intro confinement aws_get_url)

interpretation route53_api: dns_provider_api "aws_base @ ''/''" "route53_set_txt H X A cred ck" "route53_delete_txt H X A cred ck"
  for H X A cred ck
proof
  show "confined (aws_base @ ''/'') (route53_set_txt H X A cred ck domain name v)" for domain name v
    unfolding route53_set_txt_def rrset_path_def append_Cons
    by (intro confinement aws_zone_id_confined aws_post_url)
  show "confined (aws_base @ ''/'') (route53_delete_txt H X A cred ck domain name)" for domain name
    unfolding route53_delete_txt_def rrset_path_def append_Cons
    by (intro confinement aws_zone_id_confined aws_get_url aws_post_url)
qed

section \<open>Bodies are unambiguous\<close>

lemma escape_Cons [simp]: "escape (c # s) = escape_char c @ escape s"
  by (simp add: escape_def)

lemma escape_Nil [simp]: "escape [] = []"
  by (simp add: escape_def)

lemma escape_no_markup: "CHR ''<'' \<notin> set (escape s) \<and> CHR ''>'' \<notin> set (escape s)"
  by (induction s) (auto simp: escape_char_def)

lemma escape_char_cancel: "escape_char c @ u = escape_char d @ v \<longleftrightarrow> c = d \<and> u = v"
  by (auto simp: escape_char_def split: if_splits)

lemma escape_inj: "escape s = escape t \<longleftrightarrow> s = t"
proof (induction s arbitrary: t)
  case Nil
  then show ?case by (cases t) (auto simp: escape_char_def split: if_splits)
next
  case (Cons c s)
  show ?case
  proof (cases t)
    case Nil
    then show ?thesis by (auto simp: escape_char_def split: if_splits)
  next
    case (Cons d t')
    then show ?thesis using Cons.IH by (simp add: escape_char_cancel)
  qed
qed

lemma cut_at_markup:
  assumes "CHR ''<'' \<notin> set u" "CHR ''<'' \<notin> set v"
  shows "u @ CHR ''<'' # x = v @ CHR ''<'' # y \<longleftrightarrow> u = v \<and> x = y"
  using assms
proof (induction u arbitrary: v)
  case Nil
  then show ?case by (cases v) auto
next
  case (Cons a u)
  then show ?case by (cases v) auto
qed

lemma value_xml_cancel: "value_xml v @ x = value_xml w @ y \<longleftrightarrow> v = w \<and> x = y"
  using cut_at_markup [of "escape v" "escape w"] escape_no_markup
  by (simp add: value_xml_def escape_inj)

lemma values_xml_inj:
  "concat (map value_xml vs) @ ''</ResourceRecords>'' @ x = concat (map value_xml ws) @ ''</ResourceRecords>'' @ y \<longleftrightarrow>
     vs = ws \<and> x = y"
proof (induction vs arbitrary: ws)
  case Nil
  then show ?case by (cases ws) (auto simp: value_xml_def)
next
  case (Cons v vs)
  show ?case
  proof (cases ws)
    case Nil
    then show ?thesis by (auto simp: value_xml_def)
  next
    case (Cons w ws')
    have "concat (map value_xml (v # vs)) @ ''</ResourceRecords>'' @ x = concat (map value_xml ws) @ ''</ResourceRecords>'' @ y \<longleftrightarrow>
        v = w \<and> concat (map value_xml vs) @ ''</ResourceRecords>'' @ x = concat (map value_xml ws') @ ''</ResourceRecords>'' @ y"
      unfolding Cons list.map concat.simps append_assoc value_xml_cancel ..
    with Cons.IH [of ws'] Cons show ?thesis by auto
  qed
qed

lemma change_xml_inj: "change_xml action n vs = change_xml action m ws \<longleftrightarrow> n = m \<and> vs = ws"
proof -
  have "change_xml action n vs = change_xml action m ws \<longleftrightarrow>
      (escape n @ ''.'') @ CHR ''<'' # ''/Name><Type>TXT</Type><TTL>120</TTL><ResourceRecords>'' @
        concat (map value_xml vs) @ ''</ResourceRecords>'' @ ''</ResourceRecordSet></Change></Changes></ChangeBatch></ChangeResourceRecordSetsRequest>'' =
      (escape m @ ''.'') @ CHR ''<'' # ''/Name><Type>TXT</Type><TTL>120</TTL><ResourceRecords>'' @
        concat (map value_xml ws) @ ''</ResourceRecords>'' @ ''</ResourceRecordSet></Change></Changes></ChangeBatch></ChangeResourceRecordSetsRequest>''"
    by (simp add: change_xml_def)
  also have "\<dots> \<longleftrightarrow> escape n @ ''.'' = escape m @ ''.'' \<and> vs = ws"
  proof (subst cut_at_markup)
    show "CHR ''<'' \<notin> set (escape n @ ''.'')" "CHR ''<'' \<notin> set (escape m @ ''.'')"
      using escape_no_markup by simp_all
  qed (simp only: same_append_eq values_xml_inj simp_thms)
  finally show ?thesis by (simp add: escape_inj)
qed

section \<open>Query strings determine their parameters\<close>

lemma split_on_join:
  "ss \<noteq> [] \<Longrightarrow> (\<forall>s \<in> set ss. c \<notin> set s) \<Longrightarrow> split_on c (join [c] ss) = ss"
  by (induction "[c]" ss rule: join.induct) (auto simp: split_on_free split_on_append_sep)

lemma char_codesI:
  "(of_char c :: nat) div k = of_char d div k \<Longrightarrow> (of_char c :: nat) mod k = of_char d mod k \<Longrightarrow> (c :: char) = d"
  by (metis div_mult_mod_eq of_char_eq_iff)

lemma utf8_char_codes:
  "map of_char (utf8_char c) = (let n = of_char c :: nat in if n < 128 then [n] else [192 + n div 64, 128 + n mod 64])"
proof -
  have "(of_char c :: nat) div 64 < 4" by (rule less_mult_imp_div_less) simp
  then have "(192 + (of_char c :: nat) div 64) mod 256 = 192 + of_char c div 64" by (intro mod_less) linarith
  moreover have "(128 + (of_char c :: nat) mod 64) mod 256 = 128 + of_char c mod 64" by (intro mod_less) simp
  ultimately show ?thesis by (simp add: utf8_char_def Let_def)
qed

lemma codes_inj: "map (of_char :: char \<Rightarrow> nat) xs = map of_char ys \<longleftrightarrow> xs = ys"
  by (rule inj_map_eq_map) (simp add: inj_on_def)

lemma utf8_char_cancel: "utf8_char c @ u = utf8_char d @ v \<longleftrightarrow> c = d \<and> u = v"
proof -
  have "utf8_char c @ u = utf8_char d @ v \<longleftrightarrow>
      map (of_char :: char \<Rightarrow> nat) (utf8_char c @ u) = map of_char (utf8_char d @ v)" by (simp only: codes_inj)
  also have "\<dots> \<longleftrightarrow> c = d \<and> u = v"
    unfolding map_append utf8_char_codes Let_def
    by (auto simp: codes_inj intro: char_codesI [of c 64 d])
  finally show ?thesis .
qed

lemma concat_cancel:
  assumes "\<And>x y u v. f x @ u = f y @ v \<longleftrightarrow> x = y \<and> u = v" "\<And>x. f x \<noteq> []"
  shows "concat (map f xs) = concat (map f ys) \<longleftrightarrow> xs = ys"
proof (induction xs arbitrary: ys)
  case Nil
  then show ?case using assms(2) by (cases ys) auto
next
  case (Cons x xs)
  then show ?case using assms by (cases ys) auto
qed

lemma utf8_inj: "utf8 s = utf8 t \<longleftrightarrow> s = t"
  unfolding utf8_def by (rule concat_cancel) (simp_all add: utf8_char_cancel, simp add: utf8_char_def Let_def)

lemma upper_digit_inj: "i < 16 \<Longrightarrow> j < 16 \<Longrightarrow> upper_digit i = upper_digit j \<longleftrightarrow> i = j"
  by (auto simp: upper_digit_def split: if_splits)

lemma quote_byte_cancel: "quote_byte c @ u = quote_byte d @ v \<longleftrightarrow> c = d \<and> u = v"
proof -
  have "\<not> unreserved CHR ''%''" by (simp add: unreserved_def)
  moreover have "(of_char x :: nat) div 16 < 16" for x :: char by (rule less_mult_imp_div_less) simp
  ultimately show ?thesis
    by (auto simp: quote_byte_def Let_def upper_digit_inj intro: char_codesI [of c 16 d])
qed

lemma quote_inj: "quote s = quote t \<longleftrightarrow> s = t"
proof -
  have "quote s = quote t \<longleftrightarrow> utf8 s = utf8 t"
    unfolding quote_def by (rule concat_cancel) (simp_all add: quote_byte_cancel, simp add: quote_byte_def Let_def)
  then show ?thesis by (simp add: utf8_inj)
qed

lemma quote_byte_no_separator: "CHR ''&'' \<notin> set (quote_byte b) \<and> CHR ''='' \<notin> set (quote_byte b)"
proof -
  have d: "upper_digit i \<noteq> CHR ''&'' \<and> upper_digit i \<noteq> CHR ''=''" if "i < 16" for i
    using that by (auto simp: upper_digit_def char_of_eq_iff take_bit_eq_mod)
  have "(of_char b :: nat) div 16 < 16" by (rule less_mult_imp_div_less) simp
  moreover have "\<not> unreserved CHR ''&''" "\<not> unreserved CHR ''=''" by (simp_all add: unreserved_def)
  ultimately show ?thesis using d [of "of_char b div 16"] d [of "of_char b mod 16"]
    by (auto simp: quote_byte_def Let_def)
qed

lemma quote_no_separator: "CHR ''&'' \<notin> set (quote s)" "CHR ''='' \<notin> set (quote s)"
  using quote_byte_no_separator by (auto simp: quote_def)

lemma quoted_pair_inj: "quote k @ ''='' @ quote v = quote l @ ''='' @ quote w \<longleftrightarrow> k = l \<and> v = w"
proof -
  have "quote k @ ''='' @ quote v = quote l @ ''='' @ quote w \<longleftrightarrow>
      split_on CHR ''='' (quote k @ ''='' @ quote v) = split_on CHR ''='' (quote l @ ''='' @ quote w)"
    by (metis join_split_on)
  also have "\<dots> \<longleftrightarrow> quote k = quote l \<and> quote v = quote w"
    by (simp add: split_on_append_sep split_on_free quote_no_separator)
  finally show ?thesis by (simp add: quote_inj)
qed

lemma canonical_qs_parts:
  assumes "params \<noteq> []"
  shows "split_on CHR ''&'' (canonical_qs params) = map (\<lambda>(k, v). quote k @ ''='' @ quote v) (sort_key fst params)"
  unfolding canonical_qs_def
proof (rule split_on_join)
  show "map (\<lambda>(k, v). quote k @ ''='' @ quote v) (sort_key fst params) \<noteq> []"
    using assms by (metis length_0_conv length_map length_sort)
qed (auto simp: quote_no_separator)

lemma canonical_qs_inj:
  assumes "params \<noteq> []" "params' \<noteq> []" "canonical_qs params = canonical_qs params'"
  shows "sort_key fst params = sort_key fst params'"
proof -
  have "inj (\<lambda>(k, v). quote k @ ''='' @ quote v)"
    unfolding inj_on_def by (auto simp only: split_paired_all prod.case quoted_pair_inj)
  moreover have "map (\<lambda>(k, v). quote k @ ''='' @ quote v) (sort_key fst params) =
      map (\<lambda>(k, v). quote k @ ''='' @ quote v) (sort_key fst params')"
    using canonical_qs_parts [OF assms(1)] canonical_qs_parts [OF assms(2)] assms(3) by simp
  ultimately show ?thesis by (simp only: inj_map_eq_map)
qed

section \<open>Every request is signed over its own content\<close>

definition signed_call :: "aws_crypto \<Rightarrow> aws_settings \<Rightarrow> http_call \<Rightarrow> bool" where
  "signed_call A cred c \<longleftrightarrow> (\<exists>now path query body.
     hc_url c = aws_base @ path @ (if query = [] then [] else ''?'' @ query) \<and>
     hc_body c = (if hc_method c = ''GET'' then NoBody else TextBody body) \<and> (hc_method c = ''GET'' \<longrightarrow> body = []) \<and>
     set (sigv4_headers A cred now (hc_method c) path query body) \<subseteq> set (hc_headers c))"

lemma canonical_qs_nonempty:
  assumes "params \<noteq> []"
  shows "canonical_qs params \<noteq> []"
proof
  assume "canonical_qs params = []"
  with canonical_qs_parts [OF assms]
  have eq: "map (\<lambda>(k, v). quote k @ ''='' @ quote v) (sort_key fst params) = [[]]" by simp
  then obtain kv where "sort_key fst params = [kv]" by (auto simp: map_eq_Cons_conv)
  with eq show False by (cases kv) simp
qed

lemma aws_get_signed: "params \<noteq> [] \<Longrightarrow> signed_call A cred (aws_get A cred now path params)"
  unfolding signed_call_def
  by (intro exI [of _ now] exI [of _ path] exI [of _ "canonical_qs params"] exI [of _ "[]"])
     (simp add: aws_get_def Let_def canonical_qs_nonempty)

lemma aws_post_signed: "signed_call A cred (aws_post A cred now path body)"
  unfolding signed_call_def
  by (intro exI [of _ now] exI [of _ path] exI [of _ "[]"] exI [of _ body]) (auto simp: aws_post_def)

lemma aws_zone_id_signed: "sends_only (signed_call A cred) (aws_zone_id H X A cred now domain)"
  unfolding aws_zone_id_def by (intro confinement aws_get_signed) simp

lemma route53_signed:
  "sends_only (signed_call A cred) (route53_set_txt H X A cred ck domain name v)"
  "sends_only (signed_call A cred) (route53_delete_txt H X A cred ck domain name)"
  unfolding route53_set_txt_def route53_delete_txt_def
  by (intro confinement aws_zone_id_signed aws_get_signed aws_post_signed; simp)+

section \<open>What a successful deletion sent\<close>

lemma aws_zone_id_Inr:
  "aws_zone_id H X A cred now domain s = (Inr z, t) \<Longrightarrow>
     api_sent t = api_sent s @ [aws_get A cred now ''/2013-04-01/hostedzonesbyname'' [(''dnsname'', domain), (''maxitems'', ''1'')]]"
  by (auto simp: aws_zone_id_def bindM_eq_Inr_iff send_Inr)

lemma route53_delete_txt_Inr:
  assumes "route53_delete_txt H X A cred ck domain name s = (Inr u, t)"
  shows "\<exists>z cs. api_sent t = api_sent s @
      [aws_get A cred (ck 0) ''/2013-04-01/hostedzonesbyname'' [(''dnsname'', domain), (''maxitems'', ''1'')],
       aws_get A cred (ck 1) (rrset_path z) [(''maxitems'', ''1''), (''name'', name), (''type'', ''TXT'')]] @ cs \<and>
    (cs = [] \<or> (\<exists>rrs. lower (rrset_name rrs) = lower name \<and>
       cs = [aws_post A cred (ck 2) (rrset_path z) (change_xml ''DELETE'' name (rrset_values rrs))]))"
proof -
  from assms obtain z t1 r t2 root where z: "aws_zone_id H X A cred (ck 0) domain s = (Inr z, t1)"
    and r: "send H (aws_get A cred (ck 1) (rrset_path z) [(''maxitems'', ''1''), (''name'', name), (''type'', ''TXT'')]) t1 = (Inr r, t2)"
    and rest: "(case find_all (aws_tag ''ResourceRecordSet'') root of [] \<Rightarrow> returnM ()
       | rrs # _ \<Rightarrow>
           if lower (rrset_name rrs) \<noteq> lower name then returnM ()
           else bindM (send H (aws_post A cred (ck 2) (rrset_path z)
                         (change_xml ''DELETE'' name (rrset_values rrs)))) (\<lambda>r2. liftM (raise_for_status r2))) t2 = (Inr u, t)"
    unfolding route53_delete_txt_def by (auto simp only: bindM_eq_Inr_iff liftM_apply)
  from rest have "\<exists>cs. api_sent t = api_sent t2 @ cs \<and> (cs = [] \<or> (\<exists>rrs. lower (rrset_name rrs) = lower name \<and>
       cs = [aws_post A cred (ck 2) (rrset_path z) (change_xml ''DELETE'' name (rrset_values rrs))]))"
    by (cases "find_all (aws_tag ''ResourceRecordSet'') root")
       (auto simp: bindM_eq_Inr_iff send_Inr split: if_splits)
  moreover have "api_sent t2 = api_sent t1 @
      [aws_get A cred (ck 1) (rrset_path z) [(''maxitems'', ''1''), (''name'', name), (''type'', ''TXT'')]]"
    using r by (auto simp: send_Inr)
  ultimately show ?thesis using aws_zone_id_Inr [OF z] by auto
qed

end
