(* ===== verification/DnsLoader.thy ===== *)
theory DnsLoader
  imports DnsRest Namecheap Route53
begin

text \<open>
  The registry of \<^verbatim>\<open>dns/loader.py\<close>: a provider is chosen by name, reads its credentials from its
  own environment variables and only then exists.  The environment is an argument; a required
  variable that is missing fails the construction.
\<close>

section \<open>Construction\<close>

datatype provider =
    Null
  | Porkbun porkbun_settings
  | Cloudflare string
  | Route53 aws_settings
  | NamecheapP namecheap_settings

type_synonym environment = "string \<Rightarrow> string option"

definition required :: "environment \<Rightarrow> string \<Rightarrow> exc + string" where
  "required env k = of_option (PyError ''ValidationError'') (env k)"

definition optional :: "environment \<Rightarrow> string \<Rightarrow> string" where
  "optional env k = (case env k of None \<Rightarrow> '''' | Some v \<Rightarrow> v)"

definition porkbun_init :: "environment \<Rightarrow> exc + provider" where
  "porkbun_init env =
     bindE (required env ''PORKBUN_API_KEY'') (\<lambda>k. bindE (required env ''PORKBUN_SECRET_API_KEY'') (\<lambda>sec.
       Inr (Porkbun \<lparr>pb_api_key = k, pb_secret_api_key = sec\<rparr>)))"

definition cloudflare_init :: "environment \<Rightarrow> exc + provider" where
  "cloudflare_init env = bindE (cloudflare_settings (env ''CLOUDFLARE_API_TOKEN'')) (\<lambda>tok. Inr (Cloudflare tok))"

definition route53_init :: "environment \<Rightarrow> exc + provider" where
  "route53_init env =
     bindE (required env ''AWS_ACCESS_KEY_ID'') (\<lambda>k. bindE (required env ''AWS_SECRET_ACCESS_KEY'') (\<lambda>sec.
       Inr (Route53 \<lparr>aws_access_key = k, aws_secret_key = sec, aws_token = optional env ''AWS_SESSION_TOKEN''\<rparr>)))"

definition namecheap_load :: "environment \<Rightarrow> exc + provider" where
  "namecheap_load env =
     bindE (required env ''NAMECHEAP_API_USER'') (\<lambda>user. bindE (required env ''NAMECHEAP_API_KEY'') (\<lambda>k.
     bindE (required env ''NAMECHEAP_CLIENT_IP'') (\<lambda>ip.
       Inr (NamecheapP (namecheap_init user k (optional env ''NAMECHEAP_USERNAME'') ip)))))"

definition registry :: "(string \<times> (environment \<Rightarrow> exc + provider)) list" where
  "registry = [(''porkbun'', porkbun_init), (''cloudflare'', cloudflare_init), (''route53'', route53_init),
     (''namecheap'', namecheap_load), (''null'', \<lambda>_. Inr Null)]"

definition get_provider :: "environment \<Rightarrow> string \<Rightarrow> exc + provider" where
  "get_provider env name = (case map_of registry name of
     None \<Rightarrow> Inl (PyError ''ValueError'')
   | Some init \<Rightarrow> init env)"

section \<open>The operations of the chosen provider\<close>

record 'w dns_env =
  de_http :: "'w http"
  de_xml :: "string \<Rightarrow> xml option"
  de_crypto :: aws_crypto
  de_clock :: "nat \<Rightarrow> datetime"

fun provider_set_txt :: "'w dns_env \<Rightarrow> provider \<Rightarrow> string \<Rightarrow> string \<Rightarrow> string \<Rightarrow> ('w, unit) apim" where
  "provider_set_txt E Null = null_set_txt"
| "provider_set_txt E (Porkbun cred) = porkbun_set_txt (de_http E) cred"
| "provider_set_txt E (Cloudflare tok) = cloudflare_set_txt (de_http E) tok"
| "provider_set_txt E (Route53 cred) = route53_set_txt (de_http E) (de_xml E) (de_crypto E) cred (de_clock E)"
| "provider_set_txt E (NamecheapP cred) = namecheap_set_txt (de_http E) (de_xml E) cred"

fun provider_delete_txt :: "'w dns_env \<Rightarrow> provider \<Rightarrow> string \<Rightarrow> string \<Rightarrow> ('w, unit) apim" where
  "provider_delete_txt E Null = null_delete_txt"
| "provider_delete_txt E (Porkbun cred) = porkbun_delete_txt (de_http E) cred"
| "provider_delete_txt E (Cloudflare tok) = cloudflare_delete_txt (de_http E) tok"
| "provider_delete_txt E (Route53 cred) = route53_delete_txt (de_http E) (de_xml E) (de_crypto E) cred (de_clock E)"
| "provider_delete_txt E (NamecheapP cred) = namecheap_delete_txt (de_http E) (de_xml E) cred"

text \<open>The client is constructed with the provider.\<close>

definition with_provider :: "'w dns_env \<Rightarrow> provider \<Rightarrow> 'w api gufo \<Rightarrow> 'w api gufo" where
  "with_provider E p G = G\<lparr>dns_set_txt := provider_set_txt E p, dns_delete_txt := provider_delete_txt E p\<rparr>"

fun provider_base :: "provider \<Rightarrow> string" where
  "provider_base Null = ''''"
| "provider_base (Porkbun _) = porkbun_base"
| "provider_base (Cloudflare _) = cloudflare_base"
| "provider_base (Route53 _) = aws_base @ ''/''"
| "provider_base (NamecheapP _) = namecheap_url"

interpretation loaded: dns_provider_api "provider_base p" "provider_set_txt E p" "provider_delete_txt E p" for E p
proof
  show "confined (provider_base p) (provider_set_txt E p domain name v)" for domain name v
    by (cases p) (simp_all add: null_api.set_txt_confined porkbun_api.set_txt_confined cloudflare_api.set_txt_confined
        route53_api.set_txt_confined [unfolded append.simps] namecheap_api.set_txt_confined)
  show "confined (provider_base p) (provider_delete_txt E p domain name)" for domain name
    by (cases p) (simp_all add: null_api.delete_txt_confined porkbun_api.delete_txt_confined cloudflare_api.delete_txt_confined
        route53_api.delete_txt_confined namecheap_api.delete_txt_confined)
qed

lemma get_provider_Inr:
  "get_provider env name = Inr p \<Longrightarrow>
     (case p of Null \<Rightarrow> name = ''null'' | Porkbun _ \<Rightarrow> name = ''porkbun'' | Cloudflare tok \<Rightarrow> name = ''cloudflare'' \<and> tok \<noteq> []
      | Route53 _ \<Rightarrow> name = ''route53'' | NamecheapP c \<Rightarrow> name = ''namecheap'' \<and> (nc_username c = [] \<longrightarrow> nc_api_user c = []))"
  by (auto simp: get_provider_def registry_def porkbun_init_def cloudflare_init_def route53_init_def namecheap_load_def
      namecheap_init_def cloudflare_settings_def bindE_eq_Inr_iff split: if_splits option.splits)

lemma get_provider_unknown: "name \<notin> fst ` set registry \<Longrightarrow> get_provider env name = Inl (PyError ''ValueError'')"
  by (auto simp: get_provider_def split: option.splits dest!: map_of_SomeD intro: rev_image_eqI)

end
