(* ===== verification/LeAccount.thy ===== *)
theory LeAccount
  imports RelayCert DnsLoader
begin

text \<open>
  The relay's account with the upstream authority (\<^verbatim>\<open>services/le_client.py\<close>): the key file that is
  created on the first start and loaded ever after, and the client that is built from the settings
  and registered.  Parsing and printing private keys and the registration request are arguments.
  The lemmas show that the identity survives restarts and what a crash can do to the key file.
\<close>

section \<open>The key file\<close>

record ('p, 'c) acme_lib =
  al_load_pem :: "string \<Rightarrow> exc + 'p"
  al_new_account :: "'c \<Rightarrow> string \<Rightarrow> exc + unit"

text \<open>The file is written in place, then made private.\<close>

definition account_key_ops :: "string \<Rightarrow> string \<Rightarrow> fs_op list" where
  "account_key_ops path pem = [WriteText path pem, Chmod path 384]"

definition load_or_create_account_key ::
  "'p keygen \<Rightarrow> ('p, 'c) acme_lib \<Rightarrow> string \<Rightarrow> 'p \<Rightarrow> (exc, files, 'p) comp" where
  "load_or_create_account_key K N path priv = (\<lambda>fs. case fs path of
     Some f \<Rightarrow> (al_load_pem N (f_text f), fs)
   | None \<Rightarrow> (Inr priv, run_ops (account_key_ops path (kg_pem K priv)) fs))"

section \<open>The client\<close>

record 'p acme_client =
  cl_directory :: string
  cl_dns :: provider
  cl_propagation_wait :: int
  cl_verify_ssl :: bool
  cl_zone_overrides :: "string list"
  cl_key :: 'p

definition client_init :: "settings \<Rightarrow> provider \<Rightarrow> 'p \<Rightarrow> 'p acme_client" where
  "client_init cfg p key = \<lparr>cl_directory = le_directory cfg, cl_dns = p, cl_propagation_wait = dns_propagation_wait cfg,
     cl_verify_ssl = le_verify_ssl cfg, cl_zone_overrides = dns_zone_override_list cfg, cl_key = key\<rparr>"

text \<open>The HTTP client of every request to the authority: the certificate of the server is checked or not.\<close>

record upstream_http =
  uh_user_agent :: string
  uh_auth :: "string option"
  uh_validate_cert :: bool

definition get_client :: "string \<Rightarrow> string option \<Rightarrow> 'p acme_client \<Rightarrow> upstream_http" where
  "get_client user_agent auth c = \<lparr>uh_user_agent = user_agent, uh_auth = auth, uh_validate_cert = cl_verify_ssl c\<rparr>"

text \<open>The maps of a new client are empty.\<close>

definition le_init :: "'w \<Rightarrow> 'w le_state" where
  "le_init w = \<lparr>le_order_urls = [], le_domain_locks = [], le_sent = [], le_world = w\<rparr>"

definition init_account ::
  "'p keygen \<Rightarrow> ('p, 'p acme_client) acme_lib \<Rightarrow> settings \<Rightarrow> 'p \<Rightarrow> provider \<Rightarrow> (exc, files, 'p acme_client) comp" where
  "init_account K N cfg priv p =
     bindM (load_or_create_account_key K N (le_account_key_path cfg) priv) (\<lambda>key.
     bindM (liftM (al_new_account N (client_init cfg p key) (acme_email cfg))) (\<lambda>_.
       returnM (client_init cfg p key)))"

text \<open>The two lines both entry points share: the provider, then the account.\<close>

definition open_client ::
  "'p keygen \<Rightarrow> ('p, 'p acme_client) acme_lib \<Rightarrow> environment \<Rightarrow> settings \<Rightarrow> 'p \<Rightarrow> (exc, files, 'p acme_client) comp" where
  "open_client K N env cfg priv =
     bindM (liftM (get_provider env (dns_provider cfg))) (init_account K N cfg priv)"

lemma open_client_settings:
  assumes "open_client K N env cfg priv fs = (Inr client, fs')"
  shows "cl_directory client = le_directory cfg" "cl_verify_ssl client = le_verify_ssl cfg"
  using assms by (auto simp: open_client_def init_account_def bindM_eq_Inr_iff client_init_def)

section \<open>The identity survives\<close>

definition pem_inverse :: "'p keygen \<Rightarrow> ('p, 'c) acme_lib \<Rightarrow> bool" where
  "pem_inverse K N \<longleftrightarrow> (\<forall>p. al_load_pem N (kg_pem K p) = Inr p)"

lemma account_key_created:
  "run_ops (account_key_ops path pem) fs =
     fs(path \<mapsto> \<lparr>f_text = pem, f_mode = 384\<rparr>)"
  by (auto simp: run_ops_def account_key_ops_def write_text_def)

text \<open>After a successful call the file holds a key that reads as the one in use.\<close>

lemma load_or_create_stored:
  assumes "load_or_create_account_key K N path priv fs = (Inr key, fs1)" "pem_inverse K N"
  obtains f where "fs1 path = Some f" "al_load_pem N (f_text f) = Inr key" "\<forall>q. q \<noteq> path \<longrightarrow> fs1 q = fs q"
    "fs path = None \<longrightarrow> key = priv \<and> f_mode f = 384" "fs path \<noteq> None \<longrightarrow> fs1 = fs"
proof (cases "fs path")
  case None
  then have "key = priv" "fs1 = fs(path \<mapsto> \<lparr>f_text = kg_pem K priv, f_mode = 384\<rparr>)"
    using assms(1) by (auto simp: load_or_create_account_key_def account_key_created)
  with that None assms(2) show ?thesis by (simp add: pem_inverse_def)
next
  case (Some f)
  then have "al_load_pem N (f_text f) = Inr key" "fs1 = fs"
    using assms(1) by (simp_all add: load_or_create_account_key_def)
  with that Some show ?thesis by simp
qed

lemma load_or_create_again:
  assumes "fs1 path = Some f" "al_load_pem N (f_text f) = Inr key"
  shows "load_or_create_account_key K N path priv fs1 = (Inr key, fs1)"
  using assms by (simp add: load_or_create_account_key_def)

lemma init_account_Inr:
  assumes "init_account K N cfg priv p fs = (Inr c, fs1)"
  obtains key where "load_or_create_account_key K N (le_account_key_path cfg) priv fs = (Inr key, fs1)"
    "c = client_init cfg p key" "al_new_account N c (acme_email cfg) = Inr ()"
  using assms by (auto simp: init_account_def bindM_eq_Inr_iff)

lemma open_client_Inr:
  assumes "open_client K N env cfg priv fs = (Inr c, fs1)"
  obtains p key where "get_provider env (dns_provider cfg) = Inr p"
    "load_or_create_account_key K N (le_account_key_path cfg) priv fs = (Inr key, fs1)"
    "c = client_init cfg p key" "al_new_account N c (acme_email cfg) = Inr ()"
  using assms by (auto simp: open_client_def bindM_eq_Inr_iff elim: init_account_Inr)

text \<open>
  Opened again, with whatever fresh key, on files that agree on the key path, the same client
  results and nothing is written.
\<close>

lemma open_client_again:
  assumes "open_client K N env cfg priv fs = (Inr c, fs1)" "pem_inverse K N"
    "fs2 (le_account_key_path cfg) = fs1 (le_account_key_path cfg)"
  shows "open_client K N env cfg priv' fs2 = (Inr c, fs2)"
proof -
  obtain p key where p: "get_provider env (dns_provider cfg) = Inr p"
    "load_or_create_account_key K N (le_account_key_path cfg) priv fs = (Inr key, fs1)"
    "c = client_init cfg p key" "al_new_account N c (acme_email cfg) = Inr ()"
    by (rule open_client_Inr [OF assms(1)])
  obtain f where "fs1 (le_account_key_path cfg) = Some f" "al_load_pem N (f_text f) = Inr key"
    by (rule load_or_create_stored [OF p(2) assms(2)])
  then have "load_or_create_account_key K N (le_account_key_path cfg) priv' fs2 = (Inr key, fs2)"
    using assms(3) by (intro load_or_create_again) auto
  with p show ?thesis by (simp add: open_client_def init_account_def)
qed

text \<open>A start that writes no key file loaded it, so only that file matters.\<close>

lemma open_client_loaded:
  assumes "open_client K N env cfg priv fs = (Inr c, fs)"
    "fs' (le_account_key_path cfg) = fs (le_account_key_path cfg)"
  shows "open_client K N env cfg priv fs' = (Inr c, fs')"
proof -
  obtain p key where p: "get_provider env (dns_provider cfg) = Inr p"
    "load_or_create_account_key K N (le_account_key_path cfg) priv fs = (Inr key, fs)"
    "c = client_init cfg p key" "al_new_account N c (acme_email cfg) = Inr ()"
    by (rule open_client_Inr [OF assms(1)])
  have "fs (le_account_key_path cfg) \<noteq> None"
  proof
    assume n: "fs (le_account_key_path cfg) = None"
    with p(2) have "fs(le_account_key_path cfg \<mapsto> \<lparr>f_text = kg_pem K priv, f_mode = 384\<rparr>) = fs"
      by (auto simp: load_or_create_account_key_def account_key_created)
    from fun_cong [OF this, of "le_account_key_path cfg"] n show False by simp
  qed
  with p(2) assms(2) have "load_or_create_account_key K N (le_account_key_path cfg) priv fs' = (Inr key, fs')"
    by (auto simp: load_or_create_account_key_def)
  with p show ?thesis by (simp add: open_client_def init_account_def)
qed

lemma open_client_frame:
  assumes "open_client K N env cfg priv fs = (r, fs1)" "q \<noteq> le_account_key_path cfg"
  shows "fs1 q = fs q"
  using assms by (auto simp: open_client_def init_account_def load_or_create_account_key_def account_key_created
      bindM_apply split: sum.splits option.splits prod.splits)

section \<open>A crash while the key file is created\<close>

text \<open>
  Before the change of mode the complete key is readable with the default mode, and a torn write
  leaves a part of it.
\<close>

lemma account_key_crash_states:
  assumes "fs path = None" "crash (account_key_ops path pem) fs fs'"
  shows "fs' = fs \<or> (\<exists>n. fs' = fs(path \<mapsto> \<lparr>f_text = take n pem, f_mode = default_mode\<rparr>)) \<or>
    fs' = fs(path \<mapsto> \<lparr>f_text = pem, f_mode = 384\<rparr>)"
proof -
  have "fs' = fs \<or> (\<exists>n. fs' = write_text path (take n pem) fs) \<or> fs' = write_text path pem fs \<or>
      fs' = run_op (Chmod path 384) (write_text path pem fs)"
    using assms(2) unfolding account_key_ops_def by (auto elim!: crash_ConsE crash_NilE)
  moreover have "write_text path pem fs = write_text path (take (length pem) pem) fs" by simp
  ultimately have "fs' = fs \<or> (\<exists>n. fs' = write_text path (take n pem) fs) \<or>
      fs' = run_op (Chmod path 384) (write_text path pem fs)" by metis
  then show ?thesis using assms(1) by (auto simp: write_text_def)
qed

text \<open>
  The next start does not recover from a torn file: it finds the file, fails to parse it and stops,
  and leaves it as it is.
\<close>

lemma torn_account_key_stops_start:
  assumes "fs (le_account_key_path cfg) = None" "get_provider env (dns_provider cfg) = Inr p"
    "al_load_pem N (take n (kg_pem K priv)) = Inl e"
  shows "\<exists>fs'. crash (account_key_ops (le_account_key_path cfg) (kg_pem K priv)) fs fs' \<and>
    (\<forall>priv'. open_client K N env cfg priv' fs' = (Inl e, fs'))"
proof -
  let ?fs = "write_text (le_account_key_path cfg) (take n (kg_pem K priv)) fs"
  have "crash (account_key_ops (le_account_key_path cfg) (kg_pem K priv)) fs ?fs"
    unfolding account_key_ops_def by (rule crash.torn)
  moreover have "open_client K N env cfg priv' ?fs = (Inl e, ?fs)" for priv'
    using assms by (simp add: open_client_def init_account_def load_or_create_account_key_def write_text_def bindM_apply)
  ultimately show ?thesis by blast
qed

end
