(* ===== verification/Serve.thy ===== *)
theory Serve
  imports LeAccount
begin

text \<open>
  The entry point (\<^verbatim>\<open>serve.py\<close>): whether TLS is served, the liveness listener, and the loop that
  obtains the relay's certificate before the public listener starts.  The loop may run forever, so it
  has fuel and returns \<open>None\<close> when the fuel ends; the lemmas give the fuel that is enough.  The
  outcome of the \<open>k\<close>-th attempt is \<open>order k\<close>, the key it uses \<open>priv k\<close>; the result also lists the
  sleeps between the attempts.
\<close>

definition http_port :: int where
  "http_port = 8000"

definition https_port :: int where
  "https_port = 443"

definition retry_initial :: int where
  "retry_initial = 60"

definition retry_max :: int where
  "retry_max = 900"

definition tls_enabled :: "settings \<Rightarrow> bool" where
  "tls_enabled cfg \<longleftrightarrow> serve_tls cfg \<and> \<not> contains ''://'' (relay_domain cfg)"

text \<open>\<open>None\<close> is a scope that is not HTTP and gets no answer.\<close>

definition health_app :: "string \<Rightarrow> string \<Rightarrow> int option" where
  "health_app scope_type path = (if scope_type \<noteq> ''http'' then None else Some (if path = ''/healthz'' then 200 else 404))"

definition cert_days_remaining_if_usable :: "'k libs \<Rightarrow> settings \<Rightarrow> datetime \<Rightarrow> files \<Rightarrow> int option" where
  "cert_days_remaining_if_usable L cfg now fs =
     (if \<not> relay_cert_exists L cfg fs then None else relay_cert_remaining L cfg now fs)"

fun ensure_loop ::
  "'p keygen \<Rightarrow> (nat \<Rightarrow> string \<Rightarrow> string \<Rightarrow> exc + string) \<Rightarrow> (nat \<Rightarrow> 'p) \<Rightarrow> settings \<Rightarrow> int option \<Rightarrow>
   nat \<Rightarrow> nat \<Rightarrow> int \<Rightarrow> files \<Rightarrow> (files \<times> int list) option" where
  "ensure_loop K order priv cfg left 0 k delay fs = None"
| "ensure_loop K order priv cfg left (Suc fuel) k delay fs =
     (case issue_relay_cert K (order k) cfg (priv k) fs of
        (Inr _, fs') \<Rightarrow> Some (fs', [])
      | (Inl _, fs') \<Rightarrow>
          if (case left of Some d \<Rightarrow> d > 0 | None \<Rightarrow> False) then Some (fs', [])
          else map_option (\<lambda>(fs'', sleeps). (fs'', delay # sleeps))
                 (ensure_loop K order priv cfg left fuel (Suc k) (min (delay * 2) retry_max) fs'))"

text \<open>
  \<open>order k\<close> is the \<open>k\<close>-th call of \<open>order_cert\<close> with the client; \<open>akey\<close> is the key a new account would
  get.
\<close>

definition ensure_relay_cert ::
  "'k libs \<Rightarrow> 'p keygen \<Rightarrow> ('p, 'p acme_client) acme_lib \<Rightarrow> environment \<Rightarrow> 'p \<Rightarrow>
   (nat \<Rightarrow> 'p acme_client \<Rightarrow> string \<Rightarrow> string \<Rightarrow> exc + string) \<Rightarrow> (nat \<Rightarrow> 'p) \<Rightarrow>
   settings \<Rightarrow> datetime \<Rightarrow> nat \<Rightarrow> files \<Rightarrow> (exc + files \<times> int list) option" where
  "ensure_relay_cert L K N env akey order priv cfg now fuel fs =
     (let left = cert_days_remaining_if_usable L cfg now fs in
      if (case left of Some d \<Rightarrow> d \<ge> renew_threshold | None \<Rightarrow> False) then Some (Inr (fs, []))
      else (case open_client K N env cfg akey fs of
              (Inl e, _) \<Rightarrow> Some (Inl e)
            | (Inr client, fs') \<Rightarrow>
                map_option Inr (ensure_loop K (\<lambda>k. order k client) priv cfg left fuel 0 retry_initial fs')))"

text \<open>What the process serves: plain HTTP, or TLS with the pair on disk after the loop returned.\<close>

datatype listener = PlainHttp int | Tls int string string | Startup_failed exc

definition build_tls_server :: "(string \<Rightarrow> string \<Rightarrow> exc + unit) \<Rightarrow> settings \<Rightarrow> files \<Rightarrow> listener" where
  "build_tls_server load cfg fs = (case (fs (cert_path cfg), fs (key_path cfg)) of
     (Some c, Some k) \<Rightarrow> (case load (f_text c) (f_text k) of
        Inl e \<Rightarrow> Startup_failed e
      | Inr _ \<Rightarrow> Tls https_port (f_text c) (f_text k))
   | _ \<Rightarrow> Startup_failed (PyError ''FileNotFoundError''))"

text \<open>\<open>getattr(logging, settings.log_level.upper())\<close> raises for a name that is no level.\<close>

definition log_levels :: "string list" where
  "log_levels = [''CRITICAL'', ''FATAL'', ''ERROR'', ''WARNING'', ''WARN'', ''INFO'', ''DEBUG'', ''NOTSET'']"

definition upper_char :: "char \<Rightarrow> char" where
  "upper_char c = (if 97 \<le> (of_char c :: nat) \<and> (of_char c :: nat) \<le> 122 then char_of (of_char c - 32 :: nat) else c)"

definition configure_logging :: "settings \<Rightarrow> exc + unit" where
  "configure_logging cfg =
     (if map upper_char (log_level cfg) \<in> set log_levels then Inr () else Inl (PyError ''AttributeError''))"

definition serve_main ::
  "'k libs \<Rightarrow> 'p keygen \<Rightarrow> ('p, 'p acme_client) acme_lib \<Rightarrow> environment \<Rightarrow> 'p \<Rightarrow>
   (nat \<Rightarrow> 'p acme_client \<Rightarrow> string \<Rightarrow> string \<Rightarrow> exc + string) \<Rightarrow> (nat \<Rightarrow> 'p) \<Rightarrow>
   (string \<Rightarrow> string \<Rightarrow> exc + unit) \<Rightarrow> settings \<Rightarrow> datetime \<Rightarrow> nat \<Rightarrow> files \<Rightarrow> listener option" where
  "serve_main L K N env akey order priv load cfg now fuel fs =
     (case configure_logging cfg of
        Inl e \<Rightarrow> Some (Startup_failed e)
      | Inr _ \<Rightarrow>
          if \<not> tls_enabled cfg then Some (PlainHttp http_port)
          else map_option (\<lambda>r. case r of
                   Inl e \<Rightarrow> Startup_failed e
                 | Inr (fs', _) \<Rightarrow> build_tls_server load cfg fs')
                 (ensure_relay_cert L K N env akey order priv cfg now fuel fs))"

text \<open>
  The servers a process runs, as uvicorn is configured, and the order in which they start and stop.  The
  liveness listener runs in a daemon thread: it ends with the process when the start-up fails.
\<close>

datatype served = HealthApp | RelayApp

record server =
  sv_app :: served
  sv_host :: string
  sv_port :: int
  sv_lifespan :: bool
  sv_access_log :: bool
  sv_log_level :: "string option"
  sv_tls :: "(string \<times> string) option"

definition health_listener :: server where
  "health_listener = \<lparr>sv_app = HealthApp, sv_host = ''127.0.0.1'', sv_port = http_port, sv_lifespan = False,
     sv_access_log = False, sv_log_level = Some ''warning'', sv_tls = None\<rparr>"

definition relay_server :: "int \<Rightarrow> (string \<times> string) option \<Rightarrow> server" where
  "relay_server port tls = \<lparr>sv_app = RelayApp, sv_host = ''0.0.0.0'', sv_port = port, sv_lifespan = True,
     sv_access_log = True, sv_log_level = None, sv_tls = tls\<rparr>"

datatype serve_event = Listens server | Stops server

definition serve_events ::
  "'k libs \<Rightarrow> 'p keygen \<Rightarrow> ('p, 'p acme_client) acme_lib \<Rightarrow> environment \<Rightarrow> 'p \<Rightarrow>
   (nat \<Rightarrow> 'p acme_client \<Rightarrow> string \<Rightarrow> string \<Rightarrow> exc + string) \<Rightarrow> (nat \<Rightarrow> 'p) \<Rightarrow>
   (string \<Rightarrow> string \<Rightarrow> exc + unit) \<Rightarrow> settings \<Rightarrow> datetime \<Rightarrow> nat \<Rightarrow> files \<Rightarrow> serve_event list" where
  "serve_events L K N env akey order priv load cfg now fuel fs =
     (case configure_logging cfg of
        Inl e \<Rightarrow> []
      | Inr _ \<Rightarrow>
          if \<not> tls_enabled cfg then [Listens (relay_server http_port None)]
          else Listens health_listener #
            (case ensure_relay_cert L K N env akey order priv cfg now fuel fs of
               Some (Inr (fs', _)) \<Rightarrow> (case build_tls_server load cfg fs' of
                  Tls port c k \<Rightarrow> [Listens (relay_server port (Some (c, k))), Stops health_listener]
                | _ \<Rightarrow> [])
             | _ \<Rightarrow> []))"

section \<open>The listeners\<close>

lemma build_tls_server_Tls:
  assumes "build_tls_server load cfg fs = Tls port c k"
  shows "port = https_port" "load c k = Inr ()" "\<exists>fc fk. fs (cert_path cfg) = Some fc \<and> f_text fc = c \<and>
    fs (key_path cfg) = Some fk \<and> f_text fk = k"
  using assms by (auto simp: build_tls_server_def split: option.splits sum.splits)

text \<open>
  With TLS the liveness listener is up before anything else, answers only on the loopback interface, and
  the relay itself listens only after a pair was found on disk that the TLS library loads.
\<close>

lemma serve_events_tls:
  assumes "tls_enabled cfg" "Listens sv \<in> set (serve_events L K N env akey order priv load cfg now fuel fs)" "sv_app sv = RelayApp"
  obtains fs' sleeps c k where "ensure_relay_cert L K N env akey order priv cfg now fuel fs = Some (Inr (fs', sleeps))"
    "sv = relay_server https_port (Some (c, k))" "load c k = Inr ()"
    "hd (serve_events L K N env akey order priv load cfg now fuel fs) = Listens health_listener"
    "\<exists>fc fk. fs' (cert_path cfg) = Some fc \<and> f_text fc = c \<and> fs' (key_path cfg) = Some fk \<and> f_text fk = k"
proof -
  from assms obtain fs' sleeps port c k where e: "ensure_relay_cert L K N env akey order priv cfg now fuel fs = Some (Inr (fs', sleeps))"
    "build_tls_server load cfg fs' = Tls port c k" "sv = relay_server port (Some (c, k))"
    by (auto simp: serve_events_def health_listener_def split: sum.splits option.splits prod.splits listener.splits if_splits) metis
  have "hd (serve_events L K N env akey order priv load cfg now fuel fs) = Listens health_listener"
    using assms by (auto simp: serve_events_def split: sum.splits)
  with e build_tls_server_Tls [OF e(2)] that show ?thesis by metis
qed

text \<open>No two servers ever listen on the same port.\<close>

lemma serve_ports_distinct:
  "distinct (concat (map (\<lambda>e. case e of Listens sv \<Rightarrow> [sv_port sv] | Stops _ \<Rightarrow> [])
     (serve_events L K N env akey order priv load cfg now fuel fs)))"
  by (auto simp: serve_events_def health_listener_def relay_server_def http_port_def https_port_def build_tls_server_def
      split: sum.splits option.splits prod.splits)

section \<open>The back-off\<close>

text \<open>The delay after the \<open>k\<close>-th failure.\<close>

definition backoff :: "nat \<Rightarrow> int" where
  "backoff k = min (retry_initial * 2 ^ k) retry_max"

lemma backoff_0 [simp]: "backoff 0 = retry_initial"
  by (simp add: backoff_def retry_initial_def retry_max_def)

lemma backoff_Suc: "backoff (Suc k) = min (backoff k * 2) retry_max"
  by (auto simp: backoff_def retry_initial_def retry_max_def)

lemma backoff_bounds: "retry_initial \<le> backoff k" "backoff k \<le> retry_max"
proof -
  have "(1 :: int) \<le> 2 ^ k" by simp
  then show "retry_initial \<le> backoff k" by (simp add: backoff_def retry_initial_def retry_max_def)
  show "backoff k \<le> retry_max" by (simp add: backoff_def)
qed

section \<open>What the loop returns\<close>

definition attempt_fails :: "'p keygen \<Rightarrow> (nat \<Rightarrow> string \<Rightarrow> string \<Rightarrow> exc + string) \<Rightarrow> (nat \<Rightarrow> 'p) \<Rightarrow> settings \<Rightarrow> nat \<Rightarrow> bool" where
  "attempt_fails K order priv cfg k \<longleftrightarrow> (\<exists>e. order k (relay_domain cfg) (kg_csr K (priv k) (relay_domain cfg)) = Inl e)"

lemma issue_attempt:
  "attempt_fails K order priv cfg k \<Longrightarrow> \<exists>e. issue_relay_cert K (order k) cfg (priv k) fs = (Inl e, fs)"
  by (auto simp: attempt_fails_def issue_relay_cert_def)

lemma issue_attempt_ok:
  assumes "order k (relay_domain cfg) (kg_csr K (priv k) (relay_domain cfg)) = Inr pem"
  shows "issue_relay_cert K (order k) cfg (priv k) fs =
    (Inr (), write_relay_cert (cert_path cfg) (key_path cfg) pem (kg_pem K (priv k)) fs)"
  using assms by (simp add: issue_relay_cert_def)

text \<open>Without a valid certificate the loop retries until the first attempt that succeeds.\<close>

lemma ensure_loop_retries:
  assumes "\<forall>d. left = Some d \<longrightarrow> d \<le> 0" "\<forall>i < n. attempt_fails K order priv cfg (k + i)"
    "order (k + n) (relay_domain cfg) (kg_csr K (priv (k + n)) (relay_domain cfg)) = Inr pem" "n < fuel"
  shows "ensure_loop K order priv cfg left fuel k (backoff k) fs =
    Some (write_relay_cert (cert_path cfg) (key_path cfg) pem (kg_pem K (priv (k + n))) fs, map backoff [k..<k + n])"
  using assms(2-4)
proof (induction n arbitrary: k fuel)
  case 0
  then obtain f where "fuel = Suc f" by (cases fuel) auto
  with 0 show ?case by (simp add: issue_attempt_ok)
next
  case (Suc n)
  then obtain f where f: "fuel = Suc f" "n < f" by (cases fuel) auto
  obtain e where e: "issue_relay_cert K (order k) cfg (priv k) fs = (Inl e, fs)"
    using Suc.prems(1) issue_attempt [of K order priv cfg k fs] by force
  have "\<forall>i < n. attempt_fails K order priv cfg (Suc k + i)" using Suc.prems(1) by auto
  moreover have "order (Suc k + n) (relay_domain cfg) (kg_csr K (priv (Suc k + n)) (relay_domain cfg)) = Inr pem"
    using Suc.prems(2) by simp
  ultimately have "ensure_loop K order priv cfg left f (Suc k) (backoff (Suc k)) fs =
      Some (write_relay_cert (cert_path cfg) (key_path cfg) pem (kg_pem K (priv (Suc k + n))) fs, map backoff [Suc k..<Suc k + n])"
    using Suc.IH f(2) by blast
  moreover have "\<not> (case left of Some d \<Rightarrow> d > 0 | None \<Rightarrow> False)" using assms(1) by (auto split: option.splits)
  moreover have "map backoff [k..<k + Suc n] = backoff k # map backoff [Suc k..<Suc k + n]"
    by (simp add: upt_conv_Cons del: upt_Suc)
  ultimately show ?case using e by (simp add: f(1) backoff_Suc [symmetric] del: upt_Suc)
qed

text \<open>With a certificate that is still valid one attempt decides.\<close>

lemma ensure_loop_valid:
  assumes "0 < d"
  shows "\<exists>fs'. ensure_loop K order priv cfg (Some d) (Suc fuel) k delay fs = Some (fs', []) \<and>
    (attempt_fails K order priv cfg k \<longrightarrow> fs' = fs)"
proof (cases "order k (relay_domain cfg) (kg_csr K (priv k) (relay_domain cfg))")
  case (Inl e)
  then have "attempt_fails K order priv cfg k" by (auto simp: attempt_fails_def)
  from issue_attempt [OF this, of fs] assms show ?thesis by auto
next
  case (Inr pem)
  then have "\<not> attempt_fails K order priv cfg k" by (auto simp: attempt_fails_def)
  with issue_attempt_ok [of order k cfg K priv pem fs] Inr show ?thesis by auto
qed

text \<open>The result of the loop never depends on the contents of the key file.\<close>

lemma usable_ignores_key:
  assumes "fs (cert_path cfg) = Some c" "fs (key_path cfg) = Some k" "pem_leaf L (f_text c) = Some (n, not_after)"
  shows "cert_days_remaining_if_usable L cfg now fs = Some (not_after - now)"
  using assms by (simp add: cert_days_remaining_if_usable_def relay_cert_exists_def relay_cert_remaining_def)

section \<open>When the attempts start\<close>

text \<open>The start of the \<open>k\<close>-th attempt in seconds when the \<open>i\<close>-th one takes \<open>dur i\<close>.\<close>

definition attempt_start :: "(nat \<Rightarrow> int) \<Rightarrow> nat \<Rightarrow> int" where
  "attempt_start dur k = sum_list (map (\<lambda>i. dur i + backoff i) [0..<k])"

lemma seven_attempts_in_an_hour:
  assumes "\<forall>i < 6. dur i \<le> 150"
  shows "attempt_start dur 6 \<le> 3600"
proof -
  have "[0..<6] = [0, 1, 2, 3, 4, 5 :: nat]" by (simp add: upt_rec)
  then have "attempt_start dur 6 = 2700 + (dur 0 + dur 1 + dur 2 + dur 3 + dur 4 + dur 5)"
    by (simp add: attempt_start_def backoff_def retry_initial_def retry_max_def)
  moreover have "dur 0 \<le> 150" "dur 1 \<le> 150" "dur 2 \<le> 150" "dur 3 \<le> 150" "dur 4 \<le> 150" "dur 5 \<le> 150"
    using assms by simp_all
  ultimately show ?thesis by linarith
qed

section \<open>A torn pair\<close>

text \<open>
  After a crash between the two renames the old certificate stands beside the new key.  The start-up
  check does not compare them: when the renewal fails, the pair is handed to the listener.
\<close>

lemma torn_pair_is_served:
  assumes "fs (cert_path cfg) = Some c" "pem_leaf L (f_text c) = Some (n, not_after)"
    "0 < not_after - now" "not_after - now < renew_threshold"
    "open_client K N env cfg akey fs = (Inr client, fs)" "le_account_key_path cfg \<notin> relay_paths cfg"
    "attempt_fails K (\<lambda>k. order k client) priv cfg 0"
  shows "\<exists>fs'. crash (write_relay_cert_ops (cert_path cfg) (key_path cfg) pem key) fs fs' \<and>
    text_at fs' (cert_path cfg) = Some (f_text c) \<and> text_at fs' (key_path cfg) = Some key \<and>
    ensure_relay_cert L K N env akey order priv cfg now (Suc fuel) fs' = Some (Inr (fs', []))"
proof -
  let ?order = "\<lambda>k. order k client"
  obtain fs' where fs': "crash (write_relay_cert_ops (cert_path cfg) (key_path cfg) pem key) fs fs'"
    "fs' (cert_path cfg) = Some c" "fs' (key_path cfg) = Some \<lparr>f_text = key, f_mode = 384\<rparr>"
    using crash_between_renames [of cfg pem key fs] assms(1) by auto
  have left: "cert_days_remaining_if_usable L cfg now fs' = Some (not_after - now)"
    by (rule usable_ignores_key [OF fs'(2,3) assms(2)])
  from ensure_loop_valid [OF assms(3), of K ?order priv cfg fuel 0 retry_initial fs'] assms(7)
  have "ensure_loop K ?order priv cfg (Some (not_after - now)) (Suc fuel) 0 retry_initial fs' = Some (fs', [])" by auto
  moreover have "open_client K N env cfg akey fs' = (Inr client, fs')"
    using open_client_loaded [OF assms(5), where fs' = fs'] crash_frame [OF fs'(1) assms(6)] by simp
  ultimately have "ensure_relay_cert L K N env akey order priv cfg now (Suc fuel) fs' = Some (Inr (fs', []))"
    using left assms(4) by (simp add: ensure_relay_cert_def del: ensure_loop.simps)
  with fs' show ?thesis by (auto simp: text_at_def)
qed

end
