(* ===== verification/Migrations.thy ===== *)
theory Migrations
  imports Config
begin

text \<open>
  The schema and its migrations: \<^verbatim>\<open>migrations/versions/\<close> and the start-up logic of
  \<^verbatim>\<open>db/engine.py\<close>.  A schema has tables with their columns, indexes and, when Alembic manages it,
  the recorded revision; the statements of the scripts act on it as SQLite does.  Alembic's own
  commands are arguments, with what its documentation says of them as hypotheses.  The lemmas show
  that every start brings the schema to the shape the models of \<^verbatim>\<open>db/models.py\<close> expect.
\<close>

section \<open>Schemas and statements\<close>

record table =
  t_columns :: "(string \<times> string) list"
  t_constraints :: "string list"

record schema =
  sc_tables :: "(string \<times> table) list"
  sc_indexes :: "(string \<times> string \<times> string) list"
  sc_version :: "string option"

datatype sql =
    CreateTable string "(string \<times> string) list" "string list"
  | CreateIndex bool string string string
  | AddColumn string string string
  | DropColumn string string
  | DropTable string

definition sql_error :: exc where
  "sql_error = PyError ''OperationalError''"

definition columns :: "string \<Rightarrow> schema \<Rightarrow> string list" where
  "columns t s = (case map_of (sc_tables s) t of None \<Rightarrow> [] | Some r \<Rightarrow> map fst (t_columns r))"

definition change_columns :: "string \<Rightarrow> ((string \<times> string) list \<Rightarrow> (string \<times> string) list) \<Rightarrow> schema \<Rightarrow> schema" where
  "change_columns t f s = s\<lparr>sc_tables := map (\<lambda>(n, r). if n = t then (n, r\<lparr>t_columns := f (t_columns r)\<rparr>) else (n, r)) (sc_tables s)\<rparr>"

text \<open>The first component of an index statement says whether it has \<open>IF NOT EXISTS\<close>.\<close>

fun exec :: "sql \<Rightarrow> schema \<Rightarrow> exc + schema" where
  "exec (CreateTable t cols cons) s =
     (if map_of (sc_tables s) t \<noteq> None then Inl sql_error
      else Inr (s\<lparr>sc_tables := sc_tables s @ [(t, \<lparr>t_columns = cols, t_constraints = cons\<rparr>)]\<rparr>))"
| "exec (CreateIndex lenient i t c) s =
     (if map_of (sc_indexes s) i \<noteq> None then (if lenient then Inr s else Inl sql_error)
      else if c \<notin> set (columns t s) then Inl sql_error
      else Inr (s\<lparr>sc_indexes := sc_indexes s @ [(i, t, c)]\<rparr>))"
| "exec (AddColumn t c ty) s =
     (if map_of (sc_tables s) t = None \<or> c \<in> set (columns t s) then Inl sql_error
      else Inr (change_columns t (\<lambda>cs. cs @ [(c, ty)]) s))"
| "exec (DropColumn t c) s =
     (if c \<notin> set (columns t s) \<or> (\<exists>x \<in> set (sc_indexes s). snd x = (t, c)) then Inl sql_error
      else Inr (change_columns t (filter (\<lambda>x. fst x \<noteq> c)) s))"
| "exec (DropTable t) s =
     (if map_of (sc_tables s) t = None then Inl sql_error
      else Inr (s\<lparr>sc_tables := filter (\<lambda>x. fst x \<noteq> t) (sc_tables s),
                 sc_indexes := filter (\<lambda>x. fst (snd x) \<noteq> t) (sc_indexes s)\<rparr>))"

fun exec_all :: "sql list \<Rightarrow> schema \<Rightarrow> exc + schema" where
  "exec_all [] s = Inr s"
| "exec_all (x # xs) s = bindE (exec x s) (exec_all xs)"

section \<open>The revisions\<close>

definition rev_0001 :: string where
  "rev_0001 = ''0001_initial''"

definition rev_0002 :: string where
  "rev_0002 = ''0002_authz_error''"

definition tables_0001 :: "sql list" where
  "tables_0001 =
     [CreateTable ''accounts''
        [(''id'', ''VARCHAR NOT NULL''), (''public_key'', ''TEXT NOT NULL''), (''contact'', ''TEXT''),
         (''status'', ''VARCHAR NOT NULL''), (''created_at'', ''DATETIME NOT NULL'')]
        [''PRIMARY KEY (id)''],
      CreateTable ''certificates''
        [(''id'', ''VARCHAR NOT NULL''), (''order_id'', ''VARCHAR NOT NULL''), (''pem_chain'', ''TEXT NOT NULL''),
         (''issued_at'', ''DATETIME NOT NULL''), (''expires_at'', ''DATETIME NOT NULL''), (''serial'', ''VARCHAR'')]
        [''PRIMARY KEY (id)'', ''FOREIGN KEY(order_id) REFERENCES orders (id)''],
      CreateTable ''nonces''
        [(''value'', ''VARCHAR NOT NULL''), (''used'', ''BOOLEAN NOT NULL''), (''created_at'', ''DATETIME NOT NULL'')]
        [''PRIMARY KEY (value)''],
      CreateTable ''orders''
        [(''id'', ''VARCHAR NOT NULL''), (''account_id'', ''VARCHAR NOT NULL''), (''status'', ''VARCHAR NOT NULL''),
         (''identifiers'', ''TEXT NOT NULL''), (''le_order_url'', ''TEXT''), (''cert_id'', ''VARCHAR''),
         (''expires_at'', ''DATETIME''), (''created_at'', ''DATETIME NOT NULL''), (''error'', ''TEXT'')]
        [''PRIMARY KEY (id)'', ''FOREIGN KEY(account_id) REFERENCES accounts (id)'',
         ''FOREIGN KEY(cert_id) REFERENCES certificates (id)''],
      CreateTable ''authorizations''
        [(''id'', ''VARCHAR NOT NULL''), (''order_id'', ''VARCHAR NOT NULL''), (''identifier'', ''VARCHAR NOT NULL''),
         (''status'', ''VARCHAR NOT NULL''), (''challenge_token'', ''VARCHAR''), (''le_authz_url'', ''TEXT''),
         (''created_at'', ''DATETIME NOT NULL'')]
        [''PRIMARY KEY (id)'', ''FOREIGN KEY(order_id) REFERENCES orders (id)'']]"

definition indexes_0001 :: "sql list" where
  "indexes_0001 =
     [CreateIndex False ''ix_accounts_public_key'' ''accounts'' ''public_key'',
      CreateIndex False ''ix_certificates_serial'' ''certificates'' ''serial'',
      CreateIndex False ''ix_nonces_created_at'' ''nonces'' ''created_at'',
      CreateIndex False ''ix_orders_account_id'' ''orders'' ''account_id'']"

definition upgrade_0001 :: "schema \<Rightarrow> exc + schema" where
  "upgrade_0001 = exec_all (tables_0001 @ indexes_0001)"

definition downgrade_0001 :: "schema \<Rightarrow> exc + schema" where
  "downgrade_0001 = exec_all (map DropTable [''authorizations'', ''orders'', ''nonces'', ''certificates'', ''accounts''])"

definition upgrade_0002 :: "schema \<Rightarrow> exc + schema" where
  "upgrade_0002 = exec (AddColumn ''authorizations'' ''error'' ''TEXT'')"

definition downgrade_0002 :: "schema \<Rightarrow> exc + schema" where
  "downgrade_0002 = exec (DropColumn ''authorizations'' ''error'')"

section \<open>Start-up (db/engine.py)\<close>

definition pre_alembic_columns :: "(string \<times> string \<times> string) list" where
  "pre_alembic_columns = [(''orders'', ''error'', ''TEXT''), (''certificates'', ''serial'', ''TEXT'')]"

definition pre_alembic_indexes :: "sql list" where
  "pre_alembic_indexes =
     [CreateIndex True ''ix_accounts_public_key'' ''accounts'' ''public_key'',
      CreateIndex True ''ix_nonces_created_at'' ''nonces'' ''created_at'',
      CreateIndex True ''ix_orders_account_id'' ''orders'' ''account_id'',
      CreateIndex True ''ix_certificates_serial'' ''certificates'' ''serial'']"

fun add_missing :: "(string \<times> string \<times> string) list \<Rightarrow> schema \<Rightarrow> exc + schema" where
  "add_missing [] s = Inr s"
| "add_missing ((t, c, ty) # rest) s =
     (if columns t s \<noteq> [] \<and> c \<notin> set (columns t s)
      then bindE (exec (AddColumn t c ty) s) (add_missing rest)
      else add_missing rest s)"

definition reconcile_pre_alembic :: "schema \<Rightarrow> exc + schema" where
  "reconcile_pre_alembic s = bindE (add_missing pre_alembic_columns s) (exec_all pre_alembic_indexes)"

record alembic =
  al_upgrade :: "schema \<Rightarrow> exc + schema"
  al_stamp :: "string \<Rightarrow> schema \<Rightarrow> exc + schema"

text \<open>\<open>async_url.replace("+aiosqlite", "")\<close>.\<close>

fun remove_all :: "nat \<Rightarrow> string \<Rightarrow> string \<Rightarrow> string" where
  "remove_all n sub [] = []"
| "remove_all 0 sub (c # s) = (if startswith (c # s) sub then remove_all (length sub - 1) sub s else c # remove_all 0 sub s)"
| "remove_all (Suc n) sub (c # s) = remove_all n sub s"

definition sync_url :: "string \<Rightarrow> string" where
  "sync_url async_url = remove_all 0 ''+aiosqlite'' async_url"

section \<open>The Alembic configuration (migrations/env.py)\<close>

text \<open>
  Options are kept by \<open>configparser\<close>, whose values interpolate: \<open>%%\<close> is a percent sign, \<open>%(name)s\<close> the
  value of another option, and storing a value with any other percent sign raises.
\<close>

definition option_ref :: "string \<Rightarrow> (string \<times> string) option" where
  "option_ref s =
     (if startswith s ''%(''
      then let name = takeWhile (\<lambda>c. c \<noteq> CHR '')'') (drop 2 s); rest = drop (2 + length name) s
           in if name \<noteq> [] \<and> startswith rest '')s'' then Some (name, drop 2 rest) else None
      else None)"

lemma option_ref_drop:
  assumes "option_ref s = Some (name, rest)"
  shows "s \<noteq> []" "\<exists>k. rest = drop (Suc k) s"
proof -
  show "s \<noteq> []" using assms by (auto simp: option_ref_def startswith_def split: if_splits)
  have "rest = drop (Suc (3 + length name)) s"
    using assms by (auto simp: option_ref_def Let_def numeral_eq_Suc split: if_splits)
  then show "\<exists>k. rest = drop (Suc k) s" by blast
qed

lemma option_ref_shorter: "option_ref s = Some (name, rest) \<Longrightarrow> length rest < length s"
  using option_ref_drop [of s name rest] by (auto simp: less_Suc_eq_le)

function (sequential) drop_refs :: "string \<Rightarrow> string" where
  "drop_refs [] = []"
| "drop_refs (c # s) = (case option_ref (c # s) of Some (_, rest) \<Rightarrow> drop_refs rest | None \<Rightarrow> c # drop_refs s)"
  by pat_completeness auto
termination by (relation "measure length") (auto dest: option_ref_shorter)

definition config_set :: "string \<Rightarrow> exc + string" where
  "config_set v = (if CHR ''%'' \<in> set (drop_refs (remove_all 0 ''%%'' v)) then Inl (PyError ''ValueError'') else Inr v)"

function (sequential) config_get :: "(string \<Rightarrow> exc + string) \<Rightarrow> string \<Rightarrow> exc + string" where
  "config_get refs [] = Inr []"
| "config_get refs (c # s) =
     (if c \<noteq> CHR ''%'' then bindE (config_get refs s) (\<lambda>r. Inr (c # r))
      else if startswith s ''%'' then bindE (config_get refs (drop 1 s)) (\<lambda>r. Inr (c # r))
      else case option_ref (c # s) of
          Some (name, rest) \<Rightarrow> bindE (refs name) (\<lambda>x. bindE (config_get refs rest) (\<lambda>r. Inr (x @ r)))
        | None \<Rightarrow> Inl (PyError ''InterpolationSyntaxError''))"
  by pat_completeness auto
termination by (relation "measure (length \<circ> snd)") (auto dest: option_ref_shorter)

record alembic_cfg =
  ac_script_location :: string
  ac_url :: string

definition alembic_config :: "string \<Rightarrow> string \<Rightarrow> exc + alembic_cfg" where
  "alembic_config package url =
     bindE (config_set (package @ ''/migrations'')) (\<lambda>loc.
     bindE (config_set url) (\<lambda>u. Inr \<lparr>ac_script_location = loc, ac_url = u\<rparr>))"

text \<open>What \<^verbatim>\<open>env.py\<close> hands to Alembic: a connection of its own to the configured URL, or only the URL.\<close>

record migration_context =
  mc_url :: string
  mc_online :: bool
  mc_null_pool :: bool
  mc_render_as_batch :: bool
  mc_literal_binds :: bool
  mc_paramstyle :: "string option"

definition run_migrations_offline :: "(string \<Rightarrow> exc + string) \<Rightarrow> alembic_cfg \<Rightarrow> exc + migration_context" where
  "run_migrations_offline refs c = bindE (config_get refs (ac_url c)) (\<lambda>url.
     Inr \<lparr>mc_url = url, mc_online = False, mc_null_pool = False, mc_render_as_batch = True, mc_literal_binds = True,
          mc_paramstyle = Some ''named''\<rparr>)"

definition run_migrations_online :: "(string \<Rightarrow> exc + string) \<Rightarrow> alembic_cfg \<Rightarrow> exc + migration_context" where
  "run_migrations_online refs c = bindE (config_get refs (ac_url c)) (\<lambda>url.
     Inr \<lparr>mc_url = url, mc_online = True, mc_null_pool = True, mc_render_as_batch = True, mc_literal_binds = False,
          mc_paramstyle = None\<rparr>)"

definition env_main :: "bool \<Rightarrow> (string \<Rightarrow> exc + string) \<Rightarrow> alembic_cfg \<Rightarrow> exc + migration_context" where
  "env_main offline refs c = (if offline then run_migrations_offline refs c else run_migrations_online refs c)"

text \<open>
  The library: the directory of the package, the values of the other options, and the commands, which
  load \<^verbatim>\<open>env.py\<close> and run in the context it makes.
\<close>

record alembic_lib =
  al_package :: string
  al_refs :: "string \<Rightarrow> exc + string"
  al_commands :: "migration_context \<Rightarrow> alembic"

definition alembic_command ::
  "alembic_lib \<Rightarrow> alembic_cfg \<Rightarrow> (alembic \<Rightarrow> schema \<Rightarrow> exc + schema) \<Rightarrow> schema \<Rightarrow> exc + schema" where
  "alembic_command A c command s = bindE (env_main False (al_refs A) c) (\<lambda>ctx. command (al_commands A ctx) s)"

definition run_migrations :: "alembic_lib \<Rightarrow> string \<Rightarrow> schema \<Rightarrow> exc + schema" where
  "run_migrations A async_url s =
     bindE (alembic_config (al_package A) (sync_url async_url)) (\<lambda>c.
      if sc_version s \<noteq> None then alembic_command A c al_upgrade s
      else if map_of (sc_tables s) ''accounts'' \<noteq> None
      then bindE (reconcile_pre_alembic s) (\<lambda>s1.
           bindE (alembic_command A c (\<lambda>al. al_stamp al rev_0001) s1) (alembic_command A c al_upgrade))
      else alembic_command A c al_upgrade s)"

text \<open>An in-memory database gets the tables of the models instead of the migrations.\<close>

definition init_db :: "alembic_lib \<Rightarrow> (schema \<Rightarrow> exc + schema) \<Rightarrow> settings \<Rightarrow> schema \<Rightarrow> exc + schema" where
  "init_db A create_all cfg s =
     (if contains '':memory:'' (database_url cfg) then create_all s else run_migrations A (database_url cfg) s)"

section \<open>The shape the models expect\<close>

text \<open>The columns and indexes of \<^verbatim>\<open>db/models.py\<close>.\<close>

definition model_columns :: "(string \<times> string list) list" where
  "model_columns =
     [(''accounts'', [''id'', ''public_key'', ''contact'', ''status'', ''created_at'']),
      (''orders'', [''id'', ''account_id'', ''status'', ''identifiers'', ''le_order_url'', ''cert_id'', ''expires_at'',
         ''created_at'', ''error'']),
      (''authorizations'', [''id'', ''order_id'', ''identifier'', ''status'', ''challenge_token'', ''le_authz_url'',
         ''created_at'', ''error'']),
      (''certificates'', [''id'', ''order_id'', ''pem_chain'', ''issued_at'', ''expires_at'', ''serial'']),
      (''nonces'', [''value'', ''used'', ''created_at''])]"

definition model_indexes :: "(string \<times> string \<times> string) list" where
  "model_indexes =
     [(''ix_accounts_public_key'', ''accounts'', ''public_key''), (''ix_nonces_created_at'', ''nonces'', ''created_at''),
      (''ix_orders_account_id'', ''orders'', ''account_id''), (''ix_certificates_serial'', ''certificates'', ''serial'')]"

definition matches_models :: "schema \<Rightarrow> bool" where
  "matches_models s \<longleftrightarrow> (\<forall>(t, cs) \<in> set model_columns. set (columns t s) = set cs) \<and>
     set (sc_indexes s) = set model_indexes"

text \<open>
  What Alembic documents: an upgrade to the head runs the missing revisions in order and records the
  last one, and a stamp records a revision without running anything.
\<close>

definition alembic_ok :: "alembic \<Rightarrow> bool" where
  "alembic_ok al \<longleftrightarrow>
     (\<forall>s. sc_version s = Some rev_0002 \<longrightarrow> al_upgrade al s = Inr s) \<and>
     (\<forall>s. sc_version s = Some rev_0001 \<longrightarrow>
        al_upgrade al s = bindE (upgrade_0002 s) (\<lambda>s1. Inr (s1\<lparr>sc_version := Some rev_0002\<rparr>))) \<and>
     (\<forall>s. sc_version s = None \<longrightarrow>
        al_upgrade al s = bindE (upgrade_0001 s) (\<lambda>s1. bindE (upgrade_0002 s1) (\<lambda>s2. Inr (s2\<lparr>sc_version := Some rev_0002\<rparr>)))) \<and>
     (\<forall>r s. al_stamp al r s = Inr (s\<lparr>sc_version := Some r\<rparr>))"

text \<open>The tables of the first revision, possibly without the columns and indexes added late.\<close>

definition columns_0001 :: "(string \<times> string list) list" where
  "columns_0001 = map (\<lambda>(t, cs). (t, if t = ''authorizations'' then filter (\<lambda>c. c \<noteq> ''error'') cs else cs)) model_columns"

definition late_column :: "string \<Rightarrow> string \<Rightarrow> bool" where
  "late_column t c \<longleftrightarrow> (t, c) \<in> {(''orders'', ''error''), (''certificates'', ''serial'')}"

definition pre_alembic :: "schema \<Rightarrow> bool" where
  "pre_alembic s \<longleftrightarrow> sc_version s = None \<and>
     (\<forall>(t, cs) \<in> set columns_0001. set (columns t s) \<subseteq> set cs \<and> (\<forall>c \<in> set cs. c \<in> set (columns t s) \<or> late_column t c)) \<and>
     set (sc_indexes s) \<subseteq> set model_indexes"

definition empty_schema :: schema where
  "empty_schema = \<lparr>sc_tables = [], sc_indexes = [], sc_version = None\<rparr>"

section \<open>Facts on statements\<close>

lemma map_of_change:
  "map_of (map (\<lambda>(n, r). if n = t then (n, g r) else (n, r)) xs) u =
     (if u = t then map_option g (map_of xs u) else map_of xs u)"
  by (induction xs) auto

lemma columns_change:
  "columns u (change_columns t f s) =
     (if u = t then (case map_of (sc_tables s) t of None \<Rightarrow> [] | Some r \<Rightarrow> map fst (f (t_columns r))) else columns u s)"
  by (auto simp: columns_def change_columns_def map_of_change split: option.splits)

lemma change_columns_simps [simp]:
  "sc_indexes (change_columns t f s) = sc_indexes s" "sc_version (change_columns t f s) = sc_version s"
  by (simp_all add: change_columns_def)

lemma columns_version [simp]: "columns t (s\<lparr>sc_version := v\<rparr>) = columns t s"
  by (simp add: columns_def)

lemma columns_indexes [simp]: "columns t (s\<lparr>sc_indexes := v\<rparr>) = columns t s"
  by (simp add: columns_def)

lemma exec_add_column:
  assumes "columns t s \<noteq> []" "c \<notin> set (columns t s)"
  shows "\<exists>s'. exec (AddColumn t c ty) s = Inr s' \<and> sc_indexes s' = sc_indexes s \<and> sc_version s' = sc_version s \<and>
    (\<forall>u. set (columns u s') = (if u = t then insert c (set (columns u s)) else set (columns u s)))"
proof -
  from assms(1) obtain r where r: "map_of (sc_tables s) t = Some r" by (auto simp: columns_def split: option.splits)
  then have "exec (AddColumn t c ty) s = Inr (change_columns t (\<lambda>cs. cs @ [(c, ty)]) s)" using assms(2) by simp
  moreover have "columns t s = map fst (t_columns r)" by (simp add: columns_def r)
  ultimately show ?thesis
    by (intro exI [of _ "change_columns t (\<lambda>cs. cs @ [(c, ty)]) s"]) (simp add: columns_change r)
qed

text \<open>A late column is there afterwards, whether or not it was there before.\<close>

lemma add_missing_step:
  assumes "columns t s \<noteq> []"
  shows "\<exists>s'. add_missing ((t, c, ty) # rest) s = add_missing rest s' \<and> sc_indexes s' = sc_indexes s \<and>
    sc_version s' = sc_version s \<and> (\<forall>u. set (columns u s') = (if u = t then insert c (set (columns u s)) else set (columns u s)))"
proof (cases "c \<in> set (columns t s)")
  case True
  then show ?thesis by (intro exI [of _ s]) (auto simp: insert_absorb)
next
  case False
  with exec_add_column [OF assms False, of ty] assms show ?thesis by auto
qed

lemma exec_lenient_index:
  assumes "c \<in> set (columns t s)" "\<forall>x \<in> set (sc_indexes s). fst x = i \<longrightarrow> x = (i, t, c)"
  shows "\<exists>s'. exec (CreateIndex True i t c) s = Inr s' \<and> sc_version s' = sc_version s \<and>
    (\<forall>u. columns u s' = columns u s) \<and> set (sc_indexes s') = insert (i, t, c) (set (sc_indexes s))"
proof (cases "map_of (sc_indexes s) i")
  case None
  with assms(1) show ?thesis by simp
next
  case (Some tc)
  then have "(i, tc) \<in> set (sc_indexes s)" by (rule map_of_SomeD)
  with assms(2) Some show ?thesis by (auto simp: insert_absorb)
qed

lemma lenient_indexes:
  assumes "\<forall>(i, t, c) \<in> set xs. c \<in> set (columns t s)"
    "inj_on fst (set xs \<union> set (sc_indexes s))"
  shows "\<exists>s'. exec_all (map (\<lambda>(i, t, c). CreateIndex True i t c) xs) s = Inr s' \<and> sc_version s' = sc_version s \<and>
    (\<forall>u. columns u s' = columns u s) \<and> set (sc_indexes s') = set xs \<union> set (sc_indexes s)"
  using assms
proof (induction xs arbitrary: s)
  case (Cons x xs)
  obtain i t c where x: "x = (i, t, c)" by (cases x)
  have uniq: "\<forall>y \<in> set (sc_indexes s). fst y = i \<longrightarrow> y = (i, t, c)"
  proof (intro ballI impI)
    fix y assume "y \<in> set (sc_indexes s)" "fst y = i"
    then show "y = (i, t, c)" using inj_onD [OF Cons.prems(2), of y "(i, t, c)"] by (simp add: x)
  qed
  obtain s1 where s1: "exec (CreateIndex True i t c) s = Inr s1" "sc_version s1 = sc_version s"
    "\<forall>u. columns u s1 = columns u s" "set (sc_indexes s1) = insert (i, t, c) (set (sc_indexes s))"
    using exec_lenient_index [OF _ uniq] Cons.prems(1) unfolding x by auto
  have "set xs \<union> set (sc_indexes s1) = set (x # xs) \<union> set (sc_indexes s)" using s1(4) x by auto
  with Cons.prems s1(3) have "\<forall>(i, t, c) \<in> set xs. c \<in> set (columns t s1)" "inj_on fst (set xs \<union> set (sc_indexes s1))" by auto
  from Cons.IH [OF this] s1 x show ?case by auto
qed simp

section \<open>Every start reaches the models\<close>

definition at_0001 :: "schema \<Rightarrow> bool" where
  "at_0001 s \<longleftrightarrow> (\<forall>(t, cs) \<in> set columns_0001. set (columns t s) = set cs) \<and> set (sc_indexes s) = set model_indexes"

definition schema_0001 :: schema where
  "schema_0001 = \<lparr>sc_tables = concat (map (\<lambda>x. case x of
       CreateTable t cs cons \<Rightarrow> [(t, \<lparr>t_columns = cs, t_constraints = cons\<rparr>)] | _ \<Rightarrow> []) tables_0001),
     sc_indexes = concat (map (\<lambda>x. case x of CreateIndex _ i t c \<Rightarrow> [(i, t, c)] | _ \<Rightarrow> []) indexes_0001),
     sc_version = None\<rparr>"

lemma upgrade_0001_fresh: "upgrade_0001 empty_schema = Inr schema_0001"
  by code_simp

lemma schema_0001_at: "at_0001 schema_0001"
  by code_simp

lemma columns_0001_simps:
  "columns_0001 =
     [(''accounts'', [''id'', ''public_key'', ''contact'', ''status'', ''created_at'']),
      (''orders'', [''id'', ''account_id'', ''status'', ''identifiers'', ''le_order_url'', ''cert_id'', ''expires_at'',
         ''created_at'', ''error'']),
      (''authorizations'', [''id'', ''order_id'', ''identifier'', ''status'', ''challenge_token'', ''le_authz_url'',
         ''created_at'']),
      (''certificates'', [''id'', ''order_id'', ''pem_chain'', ''issued_at'', ''expires_at'', ''serial'']),
      (''nonces'', [''value'', ''used'', ''created_at''])]"
  by code_simp

lemma upgrade_0002_matches:
  assumes "at_0001 s"
  shows "\<exists>s'. upgrade_0002 s = Inr s' \<and> matches_models s' \<and> sc_version s' = sc_version s"
proof -
  have cols: "set (columns ''authorizations'' s) = set [''id'', ''order_id'', ''identifier'', ''status'', ''challenge_token'',
      ''le_authz_url'', ''created_at'']"
    using assms by (simp add: at_0001_def columns_0001_simps)
  then have "columns ''authorizations'' s \<noteq> []" "''error'' \<notin> set (columns ''authorizations'' s)" by (force, simp)
  from exec_add_column [OF this, of "''TEXT''"] obtain s' where s': "upgrade_0002 s = Inr s'"
    "sc_indexes s' = sc_indexes s" "sc_version s' = sc_version s"
    "\<And>u. set (columns u s') = (if u = ''authorizations'' then insert ''error'' (set (columns u s)) else set (columns u s))"
    unfolding upgrade_0002_def by blast
  have "matches_models s'"
    using assms by (auto simp: matches_models_def at_0001_def columns_0001_simps model_columns_def s'(2,4))
  with s'(1,3) show ?thesis by blast
qed

lemma at_0001_version [simp]: "at_0001 (s\<lparr>sc_version := v\<rparr>) = at_0001 s"
  by (simp add: at_0001_def)

lemma matches_models_version [simp]: "matches_models (s\<lparr>sc_version := v\<rparr>) = matches_models s"
  by (simp add: matches_models_def)

lemma pre_alembic_reconciled:
  assumes "pre_alembic s"
  shows "\<exists>s'. reconcile_pre_alembic s = Inr s' \<and> at_0001 s'"
proof -
  have cols: "set (columns t s) \<subseteq> set cs" "\<And>c. c \<in> set cs \<Longrightarrow> c \<in> set (columns t s) \<or> late_column t c"
    if "(t, cs) \<in> set columns_0001" for t cs
    using assms that unfolding pre_alembic_def by auto
  have "''id'' \<in> set (columns ''orders'' s)" "''id'' \<in> set (columns ''certificates'' s)"
    using cols(2) [of "''orders''" _ "''id''"] cols(2) [of "''certificates''" _ "''id''"]
    by (simp_all add: columns_0001_simps late_column_def)
  then have ids: "columns ''orders'' s \<noteq> []" "columns ''certificates'' s \<noteq> []" by auto
  obtain s1 where s1: "add_missing pre_alembic_columns s = add_missing [(''certificates'', ''serial'', ''TEXT'')] s1"
    "sc_indexes s1 = sc_indexes s"
    "\<And>u. set (columns u s1) = (if u = ''orders'' then insert ''error'' (set (columns u s)) else set (columns u s))"
    using add_missing_step [OF ids(1), of "''error''" "''TEXT''" "[(''certificates'', ''serial'', ''TEXT'')]"]
    unfolding pre_alembic_columns_def by auto
  have "set (columns ''certificates'' s1) \<noteq> {}" using ids(2) by (simp add: s1(3))
  then have "columns ''certificates'' s1 \<noteq> []" by auto
  from add_missing_step [OF this, of "''serial''" "''TEXT''" "[]"] s1 obtain s2 where
    s2: "add_missing pre_alembic_columns s = Inr s2" "sc_indexes s2 = sc_indexes s"
    "\<And>u. set (columns u s2) = (if u = ''certificates'' then insert ''serial'' (set (columns u s1)) else set (columns u s1))"
    by auto
  have late: "set (columns t s2) = set (columns t s) \<union> {c. late_column t c}" for t
    by (auto simp: s2(3) s1(3) late_column_def)
  have "c \<in> set cs" if "(t, cs) \<in> set columns_0001" "late_column t c" for t cs c
    using that by (auto simp: late_column_def columns_0001_simps)
  then have full: "set (columns t s2) = set cs" if "(t, cs) \<in> set columns_0001" for t cs
    using cols [OF that] that unfolding late by blast
  have "\<forall>(i, t, c) \<in> set model_indexes. c \<in> set (columns t s2)"
    using full by (auto simp: model_indexes_def columns_0001_simps)
  moreover have "set model_indexes \<union> set (sc_indexes s2) = set model_indexes"
    using assms by (auto simp: pre_alembic_def s2(2))
  moreover have "inj_on fst (set model_indexes)" by (simp add: model_indexes_def)
  moreover have "map (\<lambda>(i, t, c). CreateIndex True i t c) model_indexes = pre_alembic_indexes"
    by (simp add: model_indexes_def pre_alembic_indexes_def)
  ultimately obtain s3 where "exec_all pre_alembic_indexes s2 = Inr s3" "\<forall>u. columns u s3 = columns u s2"
    "set (sc_indexes s3) = set model_indexes"
    using lenient_indexes [of model_indexes s2] by auto
  with s2(1) full show ?thesis by (auto simp: reconcile_pre_alembic_def at_0001_def)
qed

text \<open>
  Without a percent sign in the path of the package and in the URL the options read back as they were
  set, and the commands work on the database that the application opens afterwards.
\<close>

definition online_context :: "string \<Rightarrow> migration_context" where
  "online_context url = \<lparr>mc_url = url, mc_online = True, mc_null_pool = True, mc_render_as_batch = True,
     mc_literal_binds = False, mc_paramstyle = None\<rparr>"

definition alembic_at :: "alembic_lib \<Rightarrow> string \<Rightarrow> bool" where
  "alembic_at A url \<longleftrightarrow> CHR ''%'' \<notin> set (al_package A) \<and> CHR ''%'' \<notin> set url \<and>
     alembic_ok (al_commands A (online_context (sync_url url)))"

lemma set_remove_all: "set (remove_all n sub s) \<subseteq> set s"
  by (induction n sub s rule: remove_all.induct) auto

lemma set_drop_refs: "set (drop_refs s) \<subseteq> set s"
proof (induction s rule: drop_refs.induct)
  case (2 c s)
  show ?case
  proof (cases "option_ref (c # s)")
    case None
    with 2(1) show ?thesis by auto
  next
    case (Some x)
    obtain name rest where x: "x = (name, rest)" by (cases x)
    obtain k where "rest = drop (Suc k) (c # s)" using option_ref_drop [of "c # s" name rest] Some x by blast
    then have "set rest \<subseteq> set s" using set_drop_subset [of k s] by simp
    moreover have "set (drop_refs rest) \<subseteq> set rest" by (rule 2(2) [OF Some x [symmetric]])
    moreover have "drop_refs (c # s) = drop_refs rest" using Some x by simp
    ultimately show ?thesis by (metis set_subset_Cons subset_trans)
  qed
qed simp

lemma config_plain:
  assumes "CHR ''%'' \<notin> set v"
  shows "config_set v = Inr v" "config_get refs v = Inr v"
proof -
  show "config_set v = Inr v" using assms set_drop_refs [of "remove_all 0 ''%%'' v"] set_remove_all [of 0 "''%%''" v]
    by (auto simp: config_set_def)
  show "config_get refs v = Inr v" using assms by (induction v) auto
qed

lemma alembic_at_command:
  assumes "alembic_at A url"
  obtains c where "alembic_config (al_package A) (sync_url url) = Inr c"
    "\<And>command. alembic_command A c command = command (al_commands A (online_context (sync_url url)))"
proof -
  have "CHR ''%'' \<notin> set (sync_url url)" using assms set_remove_all [of 0 "''+aiosqlite''" url]
    by (auto simp: alembic_at_def sync_url_def)
  note u = config_plain [OF this]
  have p: "config_set (al_package A @ ''/migrations'') = Inr (al_package A @ ''/migrations'')"
    using assms by (intro config_plain(1)) (simp add: alembic_at_def)
  show ?thesis
    by (rule that [of "\<lparr>ac_script_location = al_package A @ ''/migrations'', ac_url = sync_url url\<rparr>"])
       (use u p in \<open>simp_all add: fun_eq_iff alembic_config_def alembic_command_def env_main_def run_migrations_online_def online_context_def\<close>)
qed

lemma run_migrations_at:
  assumes "alembic_at A url"
  shows "run_migrations A url s =
     (let al = al_commands A (online_context (sync_url url)) in
      if sc_version s \<noteq> None then al_upgrade al s
      else if map_of (sc_tables s) ''accounts'' \<noteq> None
      then bindE (reconcile_pre_alembic s) (\<lambda>s1. bindE (al_stamp al rev_0001 s1) (al_upgrade al))
      else al_upgrade al s)"
proof -
  obtain c where c: "alembic_config (al_package A) (sync_url url) = Inr c"
    "\<And>command. alembic_command A c command = command (al_commands A (online_context (sync_url url)))"
    using alembic_at_command [OF assms] by blast
  show ?thesis by (simp add: run_migrations_def c Let_def)
qed

text \<open>A URL with an encoded character, such as a space, cannot be configured, and the start-up fails.\<close>

lemma encoded_url_fails:
  assumes "CHR ''%'' \<notin> set (al_package A)"
  shows "run_migrations A ''sqlite+aiosqlite:////data/my%20relay.db'' s = Inl (PyError ''ValueError'')"
proof -
  have "config_set (sync_url ''sqlite+aiosqlite:////data/my%20relay.db'') = Inl (PyError ''ValueError'')" by code_simp
  moreover have "config_set (al_package A @ ''/migrations'') = Inr (al_package A @ ''/migrations'')"
    using assms by (intro config_plain(1)) simp
  ultimately show ?thesis by (simp add: run_migrations_def alembic_config_def)
qed

lemma run_migrations_reaches:
  assumes "alembic_at A url"
    "s = empty_schema \<or> pre_alembic s \<or> (sc_version s = Some rev_0001 \<and> at_0001 s) \<or>
     (sc_version s = Some rev_0002 \<and> matches_models s)"
  shows "\<exists>s'. run_migrations A url s = Inr s' \<and> matches_models s' \<and> sc_version s' = Some rev_0002"
proof -
  note al = assms(1) [unfolded alembic_at_def alembic_ok_def]
  have up: "\<exists>s'. al_upgrade (al_commands A (online_context (sync_url url))) s1 = Inr s' \<and> matches_models s' \<and> sc_version s' = Some rev_0002"
    if "sc_version s1 = Some rev_0001" "at_0001 s1" for s1
    using al that upgrade_0002_matches [OF that(2)] by auto
  consider "s = empty_schema" | "pre_alembic s" | "sc_version s = Some rev_0001" "at_0001 s" |
    "sc_version s = Some rev_0002" "matches_models s" using assms(2) by blast
  then show ?thesis
  proof cases
    case 1
    with al upgrade_0002_matches [OF schema_0001_at] show ?thesis
      by (auto simp: run_migrations_at [OF assms(1)] empty_schema_def upgrade_0001_fresh [unfolded empty_schema_def])
  next
    case 2
    from pre_alembic_reconciled [OF 2] obtain s1 where s1: "reconcile_pre_alembic s = Inr s1" "at_0001 s1" by blast
    have "''id'' \<in> set (columns ''accounts'' s)"
      using 2 by (auto simp: pre_alembic_def columns_0001_simps late_column_def)
    then have "map_of (sc_tables s) ''accounts'' \<noteq> None"
      by (cases "map_of (sc_tables s) ''accounts''") (auto simp: columns_def)
    moreover have "sc_version s = None" using 2 by (simp add: pre_alembic_def)
    ultimately have "run_migrations A url s = al_upgrade (al_commands A (online_context (sync_url url))) (s1\<lparr>sc_version := Some rev_0001\<rparr>)"
      using al s1(1) by (simp add: run_migrations_at [OF assms(1)])
    with up [of "s1\<lparr>sc_version := Some rev_0001\<rparr>"] s1(2) show ?thesis by simp
  next
    case 3
    with up [of s] show ?thesis by (simp add: run_migrations_at [OF assms(1)])
  next
    case 4
    with al show ?thesis by (simp add: run_migrations_at [OF assms(1)])
  qed
qed

section \<open>Downgrading\<close>

lemma downgrade_0002_inverse:
  assumes "map_of (sc_tables s) ''authorizations'' = Some r" "distinct (map fst (sc_tables s))"
    "''error'' \<notin> set (columns ''authorizations'' s)" "\<forall>x \<in> set (sc_indexes s). fst (snd x) \<noteq> ''authorizations''"
  shows "bindE (upgrade_0002 s) downgrade_0002 = Inr s"
proof -
  let ?add = "\<lambda>cs. cs @ [(''error'', ''TEXT'')]"
  let ?drop = "filter (\<lambda>x. fst x \<noteq> ''error'')"
  have cols: "''error'' \<notin> fst ` set (t_columns r)" using assms(1,3) by (simp add: columns_def)
  have same: "?drop (t_columns r) = t_columns r" using cols by (force simp: filter_id_conv)
  let ?f = "\<lambda>g (n, r). if n = ''authorizations'' then (n, r\<lparr>t_columns := g (t_columns r)\<rparr>) else (n, r)"
  have "map (?f ?drop \<circ> ?f ?add) (sc_tables s) = sc_tables s"
  proof (rule map_idI)
    fix x assume x: "x \<in> set (sc_tables s)"
    have "snd x = r" if "fst x = ''authorizations''"
      using assms(1,2) x that by (metis map_of_is_SomeI option.inject prod.collapse)
    with same show "(?f ?drop \<circ> ?f ?add) x = x" by (cases x) auto
  qed
  then have "change_columns ''authorizations'' ?drop (change_columns ''authorizations'' ?add s) = s"
    by (simp add: change_columns_def)
  moreover have "''error'' \<in> set (columns ''authorizations'' (change_columns ''authorizations'' ?add s))"
    using assms(1) by (simp add: columns_change)
  ultimately show ?thesis
    using assms by (auto simp: upgrade_0002_def downgrade_0002_def)
qed

end
