(* ===== verification/Startup.thy ===== *)
theory Startup
  imports Relay Serve Migrations
begin

text \<open>
  The application's life cycle (\<open>lifespan\<close> of \<^verbatim>\<open>main.py\<close>): the checks, the schema, the recovery of
  interrupted work, the provider, the upstream account and the background loops, in the order of the
  source, with what is left behind when one of them raises.  The lemmas tie it to the restart of the
  step relation and to the entry point, which opens the same account before it.
\<close>

section \<open>The life cycle\<close>

text \<open>The renewal loop is given the live TLS context, if the entry point made one.\<close>

datatype background = PruneLoop | RenewalLoop bool

record 'p app_state =
  ap_schema :: schema
  ap_db :: database
  ap_files :: files
  ap_has_context :: bool
  ap_client :: "'p acme_client option"
  ap_background :: "background list"

text \<open>
  \<open>A\<close> is Alembic and \<open>create_all\<close> the creation of the tables from the models.  What a failed migration
  leaves of the schema is not modelled; the start-up stops there.
\<close>

definition lifespan ::
  "alembic_lib \<Rightarrow> (schema \<Rightarrow> exc + schema) \<Rightarrow> 'p keygen \<Rightarrow> ('p, 'p acme_client) acme_lib \<Rightarrow> environment \<Rightarrow>
   'p \<Rightarrow> settings \<Rightarrow> (exc, 'p app_state, unit) comp" where
  "lifespan A create_all K N env akey cfg =
     bindM (liftM (configure_logging cfg)) (\<lambda>_.
     bindM (guardM (le_verify_ssl cfg \<or> le_directory cfg \<noteq> le_production_url) (PyError ''RuntimeError'')) (\<lambda>_.
     bindM (\<lambda>s. case init_db A create_all cfg (ap_schema s) of
               Inl e \<Rightarrow> (Inl e, s)
             | Inr sc \<Rightarrow> (Inr (), s\<lparr>ap_schema := sc\<rparr>)) (\<lambda>_.
     bindM (writeM (\<lambda>s. s\<lparr>ap_db := reset_processing_orders (ap_db s)\<rparr>)) (\<lambda>_.
     bindM (\<lambda>s. case open_client K N env cfg akey (ap_files s) of (r, fs) \<Rightarrow> (r, s\<lparr>ap_files := fs\<rparr>)) (\<lambda>client.
       writeM (\<lambda>s. s\<lparr>ap_client := Some client, ap_background := [PruneLoop, RenewalLoop (ap_has_context s)]\<rparr>))))))"

text \<open>After the \<open>yield\<close> both loops are cancelled.\<close>

definition lifespan_stop :: "(exc, 'p app_state, unit) comp" where
  "lifespan_stop = writeM (\<lambda>s. s\<lparr>ap_background := []\<rparr>)"

section \<open>What a start leaves behind\<close>

lemma lifespan_Inr:
  assumes "lifespan A create_all K N env akey cfg s = (Inr u, t)"
  obtains client fs sc where "open_client K N env cfg akey (ap_files s) = (Inr client, fs)"
    "init_db A create_all cfg (ap_schema s) = Inr sc"
    "le_verify_ssl cfg \<or> le_directory cfg \<noteq> le_production_url"
    "t = s\<lparr>ap_schema := sc, ap_db := reset_processing_orders (ap_db s), ap_files := fs, ap_client := Some client,
        ap_background := [PruneLoop, RenewalLoop (ap_has_context s)]\<rparr>"
  using assms unfolding lifespan_def
  by (auto simp: bindM_eq_Inr_iff split: sum.splits prod.splits)

text \<open>A start that fails leaves the rows alone or has ended the interrupted work, and starts no loop.\<close>

lemma lifespan_Inl:
  assumes "lifespan A create_all K N env akey cfg s = (Inl e, t)"
  shows "ap_db t \<in> {ap_db s, reset_processing_orders (ap_db s)}" "ap_client t = ap_client s"
    "ap_background t = ap_background s"
  using assms unfolding lifespan_def
  by (auto simp: bindM_apply guardM_apply split: sum.splits prod.splits if_splits)

lemma lifespan_refuses_unverified:
  assumes "\<not> le_verify_ssl cfg" "le_directory cfg = le_production_url"
  shows "\<exists>e. lifespan A create_all K N env akey cfg s = (Inl e, s)"
  using assms by (cases "configure_logging cfg") (auto simp: lifespan_def bindM_apply guardM_apply)

lemma reset_idem: "reset_processing_orders (reset_processing_orders db) = reset_processing_orders db"
proof -
  have "map g (map f xs) = map f xs" if "\<And>x. g (f x) = f x" for g f :: "'b \<Rightarrow> 'b" and xs
    using that by simp
  then show ?thesis by (simp add: reset_processing_orders_def tupdate_def o_def)
qed

text \<open>
  A start that succeeds is the restart of the step relation, also when earlier starts failed in
  between.
\<close>

lemma lifespan_is_restart:
  assumes "lifespan A create_all K N env akey cfg s = (Inr u, t)" "ap_db s = rl_db r"
  shows "relay_step L cfg ver bases r (r\<lparr>rl_db := ap_db t, rl_jobs := []\<rparr>)"
proof -
  have "lifespan_start cfg (rl_db r) = (Inr (), ap_db t)"
    using assms by (auto elim!: lifespan_Inr simp: lifespan_start_def)
  then show ?thesis by (rule relay_step.restart)
qed

lemma failed_starts_do_not_matter:
  assumes "lifespan A create_all K N env akey cfg s = (Inl e, t)"
    "lifespan A' create_all' K' N' env' akey' cfg' (t\<lparr>ap_schema := sc\<rparr>) = (Inr u, t')"
  shows "ap_db t' = reset_processing_orders (ap_db s)"
proof -
  have "ap_db t' = reset_processing_orders (ap_db t)" using assms(2) by (auto elim!: lifespan_Inr)
  then show ?thesis using lifespan_Inl(1) [OF assms(1)] by (auto simp: reset_idem)
qed

section \<open>The entry point and the life cycle use one account\<close>

lemma ensure_loop_frame:
  assumes "ensure_loop K order priv cfg left fuel k delay fs = Some (fs', sleeps)" "q \<notin> relay_paths cfg"
  shows "fs' q = fs q"
  using assms(1)
proof (induction fuel arbitrary: k delay fs sleeps)
  case (Suc fuel)
  obtain r fs1 where i: "issue_relay_cert K (order k) cfg (priv k) fs = (r, fs1)" by (rule prod.exhaust)
  have "fs1 q = fs q"
  proof (cases r)
    case (Inl e)
    then show ?thesis using i issue_relay_cert_Inl [of K "order k" cfg "priv k" fs e fs1] by simp
  next
    case (Inr u)
    then show ?thesis using i issue_relay_cert_Inr [of K "order k" cfg "priv k" fs u fs1] assms(2) write_relay_cert_result(5)
      by (auto simp: relay_paths_def)
  qed
  with Suc i show ?case by (cases r) (auto split: if_splits)
qed simp

text \<open>
  When the entry point had to open the account, the application that starts afterwards has the same
  client, with the same key, and writes no key.
\<close>

lemma boot_same_account:
  assumes "ensure_relay_cert L K N env akey order priv cfg now fuel fs = Some (Inr (fs', sleeps))"
    "\<forall>d. cert_days_remaining_if_usable L cfg now fs = Some d \<longrightarrow> d < renew_threshold"
    "pem_inverse K N" "le_account_key_path cfg \<notin> relay_paths cfg"
  obtains client fs1 where "open_client K N env cfg akey fs = (Inr client, fs1)"
    "\<forall>akey'. open_client K N env cfg akey' fs' = (Inr client, fs')"
proof -
  obtain r fs1 where o: "open_client K N env cfg akey fs = (r, fs1)" by (rule prod.exhaust)
  obtain client where c: "r = Inr client"
    and l: "ensure_loop K (\<lambda>k. order k client) priv cfg (cert_days_remaining_if_usable L cfg now fs) fuel 0 retry_initial fs1 =
      Some (fs', sleeps)"
    using assms(1,2) o by (cases r) (fastforce simp: ensure_relay_cert_def Let_def split: option.splits if_splits)+
  have "fs' (le_account_key_path cfg) = fs1 (le_account_key_path cfg)"
    by (rule ensure_loop_frame [OF l assms(4)])
  then have "open_client K N env cfg akey' fs' = (Inr client, fs')" for akey'
    using open_client_again [of K N env cfg akey fs client fs1 fs' akey'] o c assms(3) by simp
  with that o c show ?thesis by blast
qed

section \<open>A complete start, and the next one\<close>

text \<open>A file-backed database in one of the states a release can have left.\<close>

definition known_schema :: "settings \<Rightarrow> schema \<Rightarrow> bool" where
  "known_schema cfg s \<longleftrightarrow> \<not> contains '':memory:'' (database_url cfg) \<and>
     (s = empty_schema \<or> pre_alembic s \<or> (sc_version s = Some rev_0001 \<and> at_0001 s) \<or>
      (sc_version s = Some rev_0002 \<and> matches_models s))"

lemma init_db_reaches:
  assumes "alembic_at A (database_url cfg)" "known_schema cfg s"
  obtains s' where "init_db A create_all cfg s = Inr s'" "matches_models s'" "sc_version s' = Some rev_0002"
  using run_migrations_reaches [of A "database_url cfg" s] assms that by (auto simp: init_db_def known_schema_def)

lemma init_db_at_head:
  assumes "alembic_at A (database_url cfg)" "known_schema cfg s0" "sc_version s = Some rev_0002"
  shows "init_db A create_all cfg s = Inr s"
  using assms by (simp add: init_db_def known_schema_def run_migrations_at alembic_at_def alembic_ok_def Let_def)

lemma lifespan_complete:
  assumes "configure_logging cfg = Inr ()" "le_verify_ssl cfg \<or> le_directory cfg \<noteq> le_production_url"
    "init_db A create_all cfg (ap_schema s) = Inr sc" "open_client K N env cfg akey (ap_files s) = (Inr c, fs)"
  shows "lifespan A create_all K N env akey cfg s =
    (Inr (), s\<lparr>ap_schema := sc, ap_db := reset_processing_orders (ap_db s), ap_files := fs, ap_client := Some c,
       ap_background := [PruneLoop, RenewalLoop (ap_has_context s)]\<rparr>)"
  using assms by (auto simp: lifespan_def bindM_apply guardM_apply)

text \<open>A start on what a complete start left behind changes nothing.\<close>

lemma lifespan_again:
  assumes "lifespan A create_all K N env akey cfg s = (Inr u, t)" "configure_logging cfg = Inr ()" "pem_inverse K N"
    "alembic_at A (database_url cfg)" "known_schema cfg s0" "sc_version (ap_schema t) = Some rev_0002"
  shows "lifespan A create_all K N env akey' cfg t = (Inr (), t)"
proof -
  obtain c fs sc where o: "open_client K N env cfg akey (ap_files s) = (Inr c, fs)"
    and v: "le_verify_ssl cfg \<or> le_directory cfg \<noteq> le_production_url"
    and t: "t = s\<lparr>ap_schema := sc, ap_db := reset_processing_orders (ap_db s), ap_files := fs, ap_client := Some c,
        ap_background := [PruneLoop, RenewalLoop (ap_has_context s)]\<rparr>"
    by (rule lifespan_Inr [OF assms(1)])
  have "open_client K N env cfg akey' (ap_files t) = (Inr c, fs)"
    using open_client_again [of K N env cfg akey "ap_files s" c fs fs akey'] o assms(3) t by simp
  moreover have "init_db A create_all cfg (ap_schema t) = Inr (ap_schema t)"
    using init_db_at_head [of A cfg s0 "ap_schema t" create_all] assms(4-6) by simp
  ultimately show ?thesis using lifespan_complete [OF assms(2) v, of A create_all t] t by (simp add: reset_idem)
qed

section \<open>Verification of the authority\<close>

text \<open>
  The application refuses to run against the production directory without checking its certificate.
  The entry point does not: it opens a client and obtains the relay's certificate before that check.
\<close>

lemma running_client_verifies:
  assumes "lifespan A create_all K N env akey cfg s = (Inr u, t)" "le_directory cfg = le_production_url"
  shows "\<exists>client. ap_client t = Some client \<and> uh_validate_cert (get_client ua auth client)"
proof -
  obtain client fs sc where c: "open_client K N env cfg akey (ap_files s) = (Inr client, fs)"
    "le_verify_ssl cfg \<or> le_directory cfg \<noteq> le_production_url"
    "t = s\<lparr>ap_schema := sc, ap_db := reset_processing_orders (ap_db s), ap_files := fs, ap_client := Some client,
        ap_background := [PruneLoop, RenewalLoop (ap_has_context s)]\<rparr>"
    using assms(1) by (rule lifespan_Inr)
  with open_client_settings(2) [OF c(1)] assms(2) show ?thesis by (simp add: get_client_def)
qed

lemma unverified_production_issuance:
  assumes "\<not> le_verify_ssl cfg" "le_directory cfg = le_production_url"
    "cert_days_remaining_if_usable L cfg now fs = None" "open_client K N env cfg akey fs = (Inr client, fs1)"
    "order 0 client (relay_domain cfg) (kg_csr K (priv 0) (relay_domain cfg)) = Inr pem"
  shows "ensure_relay_cert L K N env akey order priv cfg now (Suc fuel) fs =
      Some (Inr (write_relay_cert (cert_path cfg) (key_path cfg) pem (kg_pem K (priv 0)) fs1, []))"
    and "cl_directory client = le_production_url \<and> \<not> uh_validate_cert (get_client ua auth client)"
    and "\<exists>e. lifespan A create_all K N env akey cfg s = (Inl e, s)"
  using assms open_client_settings [OF assms(4)] lifespan_refuses_unverified [OF assms(1,2)]
  by (simp_all add: ensure_relay_cert_def issue_relay_cert_def get_client_def)

end
