(* ===== verification/WellTyped.thy ===== *)
theory WellTyped
  imports RelayTables
begin

text \<open>
  Well-typed states do not go wrong.  The columns hold JSON text that the handlers parse again when
  they answer; in every reachable state what they read has the type they expect, so that reading an
  order, an authorization or a certificate is answered or refused but never ends in an unhandled
  exception, and so is a finalize or key-change request that reached its commit.
\<close>

section \<open>Rows\<close>

definition order_body :: "settings \<Rightarrow> order_row \<Rightarrow> acme_identifier \<Rightarrow> json option \<Rightarrow> database \<Rightarrow> order_response" where
  "order_body cfg r d err db =
     \<lparr>or_status = o_status r, or_identifiers = [d],
      or_authorizations = map (\<lambda>z. authz_url cfg (z_id z)) (order_authzs (o_id r) db),
      or_finalize = order_url cfg (o_id r) @ ''/finalize'',
      or_certificate = (case o_cert_id r of None \<Rightarrow> None
        | Some c \<Rightarrow> if c = '''' then None else Some (relay_base_url cfg @ ''/acme/cert/'' @ c)),
      or_expires = isoformat_utc (o_expires_at r), or_error = err\<rparr>"

lemma order_resource_total:
  assumes "tables_inv L cfg s" "r \<in> set (orders (rl_db s))"
  obtains d err where "o_identifiers r = dump_identifiers [d]"
    "order_resource cfg' (o_id r) r (rl_db s) = Inr (order_body cfg' r d err (rl_db s))"
proof -
  obtain d where d: "o_identifiers r = dump_identifiers [d]" "load_identifiers (o_identifiers r) = Inr [identifier_json d]"
    using order_identifiers [of L cfg s r] assms by (auto simp: tables_inv_def)
  have "problem_text (o_error r)" using assms by (auto simp: tables_inv_def tables_ok_def core_ok_def order_typed_def)
  then obtain err where e: "load_error (o_error r) = Inr err" using load_problem_text by blast
  show ?thesis
    by (rule that [OF d(1), of err]) (use d(2) e load_identifier_objects_json [of "[d]"] in \<open>simp add: order_resource_def order_body_def\<close>)
qed

lemma authz_resource_total:
  assumes "tables_inv L cfg s" "z \<in> set (authorizations (rl_db s))"
  obtains res where "authz_resource cfg' i z = Inr res" "zr_status res \<in> {''pending'', ''valid'', ''invalid''}"
proof -
  have z: "authz_typed z" using assms by (auto simp: tables_inv_def tables_ok_def core_ok_def)
  then obtain err where "load_error (z_error z) = Inr err" using load_problem_text by (auto simp: authz_typed_def)
  then show ?thesis using that z by (simp add: authz_resource_def authz_typed_def authz_states_def) metis
qed

text \<open>The order of an authorization and of a certificate is there.\<close>

lemma authz_order_exists:
  assumes "relay_inv L cfg s" "z \<in> set (authorizations (rl_db s))"
  shows "get_order_row (z_order_id z) (rl_db s) \<noteq> None"
proof -
  have "skel_wf (skeleton (rl_db s))" using assms(1) by (simp add: relay_inv_def)
  then have "zorder (zstat z) \<in> fst ` set (fst (skeleton (rl_db s)))"
    using assms(2) unfolding skel_wf_def by (auto simp: skeleton_def)
  then show ?thesis by (auto simp: get_order_row_def tget_None_iff skeleton_def ostat_def zstat_def zorder_def)
qed

lemma cert_order_exists:
  assumes "relay_inv L cfg s" "c \<in> set (certificates (rl_db s))"
  shows "get_order_row (c_order_id c) (rl_db s) \<noteq> None"
proof -
  obtain d where "Issued (c_order_id c) d (c_pem_chain c) \<in> set (rl_log s)"
    using assms unfolding relay_inv_def cert_ok_def by blast
  then have "event_ok L cfg (rl_log s) (skeleton (rl_db s)) (Issued (c_order_id c) d (c_pem_chain c))"
    using assms(1) unfolding relay_inv_def by blast
  then have "c_order_id c \<in> fst ` set (fst (skeleton (rl_db s)))"
    by (simp add: event_ok_def authorized_def order_proved_def)
  then show ?thesis by (auto simp: get_order_row_def tget_None_iff skeleton_def ostat_def)
qed

section \<open>Requests\<close>

text \<open>A body either answers with the status of a success or refuses with one of the protocol's errors.\<close>

definition answers_or_refuses :: "exc + response \<Rightarrow> bool" where
  "answers_or_refuses r = (case r of
     Inr res \<Rightarrow> rs_status res = 200
   | Inl e \<Rightarrow> \<exists>code d. e = HTTPException code d \<and> code \<in> {403, 404})"

lemma get_order_total:
  assumes "tables_inv L cfg s"
  shows "answers_or_refuses (fst (get_order_body cfg' i req (p, acct) (rl_db s)))"
proof (cases "get_order_row i (rl_db s)")
  case (Some r)
  note r = get_order_static [OF Some]
  obtain d err where "order_resource cfg' (o_id r) r (rl_db s) = Inr (order_body cfg' r d err (rl_db s))"
    using order_resource_total [OF assms conjunct1 [OF r]] by blast
  with Some r show ?thesis
    by (simp add: get_order_body_def require_order_owner_def answers_or_refuses_def json_response_def bindM_apply)
qed (simp add: get_order_body_def require_order_owner_def answers_or_refuses_def)

lemma get_authz_total:
  assumes "tables_inv L cfg s"
  shows "answers_or_refuses (fst (get_authz_body cfg' i req (p, acct) (rl_db s)))"
proof (cases "get_authz_row i (rl_db s)")
  case (Some z)
  obtain res where "authz_resource cfg' i z = Inr res"
    using authz_resource_total [OF assms conjunct1 [OF get_authz_static [OF Some]]] by blast
  with Some show ?thesis
    by (simp add: get_authz_body_def require_authz_owner_def answers_or_refuses_def json_response_def bindM_apply
        split: option.splits)
qed (simp add: get_authz_body_def require_authz_owner_def answers_or_refuses_def)

lemma download_total:
  assumes "tables_inv L cfg s"
  shows "answers_or_refuses (fst (download_cert_body i req (p, acct) (rl_db s)))"
proof -
  have "scalar_one_or_none (filter (\<lambda>c. c_id c = i) (certificates (rl_db s))) = Inr (tget c_id i (certificates (rl_db s)))"
    using assms by (simp add: scalar_by_key tables_inv_def tables_ok_def core_ok_def)
  then show ?thesis
    by (simp add: download_cert_body_def require_cert_owner_def answers_or_refuses_def bindM_apply split: option.splits)
qed

lemma finalize_commit_total:
  assumes "tables_inv L cfg s" "FinalizeOpen plan \<in> set (rl_jobs s)" "fst (finalize_commit cfg' plan (rl_db s)) = Inr (res, ts)"
  shows "\<exists>r. res = Inr r \<and> rs_status r = 200"
proof -
  obtain d where d: "fp_identifiers plan = [identifier_json d]"
    using bspec [OF _ assms(2), of "job_typed (rl_db s)"] assms(1) by (auto simp: tables_inv_def jobs_typed_def)
  obtain db' where "finalize_commit cfg' plan (rl_db s) = (Inr (res, ts), db')" using assms(3) by (metis prod.collapse)
  then have "res = finalize_response cfg' plan db'" by (simp add: finalize_commit_Inr)
  with d load_identifier_objects_json [of "[d]"] show ?thesis by (simp add: finalize_response_def json_response_def)
qed

lemma key_change_commit_total:
  assumes "tables_inv L cfg s" "KeyOpen acct a k \<in> set (rl_jobs s)"
  shows "\<exists>r. fst (key_change_commit cfg' acct a k (rl_db s)) = Inr r \<and> rs_status r = 200"
proof -
  obtain c where "a_contact a = dump_contact c"
    using bspec [OF _ assms(2), of "job_typed (rl_db s)"] assms(1)
    by (auto simp: tables_inv_def jobs_typed_def account_typed_def)
  then show ?thesis by (simp add: key_change_commit_def key_change_response_def json_response_def)
qed

text \<open>The owner is answered.\<close>

lemma get_order_owner:
  assumes "tables_inv L cfg s" "r \<in> set (orders (rl_db s))"
  shows "\<exists>d err. get_order_body cfg' (o_id r) req (p, o_account_id r) (rl_db s) =
    (Inr (json_response (order_json (order_body cfg' r d err (rl_db s))) 200 []), rl_db s) \<and>
    o_identifiers r = dump_identifiers [d]"
proof -
  have "get_order_row (o_id r) (rl_db s) = Some r"
    using assms by (simp add: tget_eq_Some_iff get_order_row_def tables_inv_def tables_ok_def core_ok_def)
  moreover obtain d err where "o_identifiers r = dump_identifiers [d]"
    "order_resource cfg' (o_id r) r (rl_db s) = Inr (order_body cfg' r d err (rl_db s))"
    using order_resource_total [OF assms] by blast
  ultimately show ?thesis unfolding get_order_body_Inr by blast
qed

end
