(* ===== verification/Phases.thy ===== *)
theory Phases
  imports WellTyped
begin

text \<open>
  The life of an order as an abstract state machine of six phases, and the phase of an order as it is
  read off the statuses of the order and of its authorization.  The lemmas give the effect of every
  write of the relay on the phases of all orders.
\<close>

section \<open>Refinement\<close>

text \<open>
  A family of abstract machines, one per key, refined by one concrete system: every concrete step
  leaves each abstract state alone or takes it along one abstract step.
\<close>

locale refinement =
  fixes init :: "'s" and step :: "'s \<Rightarrow> 's \<Rightarrow> bool" and invar :: "'s \<Rightarrow> bool"
    and abs :: "'s \<Rightarrow> 'i \<Rightarrow> 'a option" and astep :: "'a \<Rightarrow> 'a \<Rightarrow> bool"
  assumes invar_init: "invar init"
    and invar_step: "invar s \<Longrightarrow> step s t \<Longrightarrow> invar t"
    and simulate: "invar s \<Longrightarrow> step s t \<Longrightarrow> abs s i = Some p \<Longrightarrow> \<exists>q. abs t i = Some q \<and> astep\<^sup>=\<^sup>= p q"
begin

lemma invar_run: "step\<^sup>*\<^sup>* s t \<Longrightarrow> invar s \<Longrightarrow> invar t"
  by (induction rule: rtranclp_induct) (auto intro: invar_step)

lemma run_simulates:
  assumes "step\<^sup>*\<^sup>* s t" "invar s" "abs s i = Some p"
  shows "\<exists>q. abs t i = Some q \<and> astep\<^sup>*\<^sup>* p q"
  using assms
proof (induction rule: rtranclp_induct)
  case (step t u)
  then obtain q where q: "abs t i = Some q" "astep\<^sup>*\<^sup>* p q" by blast
  have "invar t" using invar_run [OF step(1)] step(4) by blast
  from simulate [OF this step(2) q(1)] obtain q' where "abs u i = Some q'" "astep\<^sup>=\<^sup>= q q'" by blast
  moreover from this have "astep\<^sup>*\<^sup>* q q'" by auto
  ultimately show ?case using q(2) by (meson rtranclp_trans)
qed auto

end

section \<open>The abstract machine\<close>

datatype phase = Awaiting | Checking | Prepared | Sending | Finished | Failed

inductive phase_step :: "phase \<Rightarrow> phase \<Rightarrow> bool" where
  acknowledge: "phase_step Awaiting Checking"
| pass: "phase_step Checking Prepared"
| refute: "phase_step Checking Failed"
| finalize: "phase_step Prepared Sending"
| issue: "phase_step Sending Finished"
| abandon: "phase_step Sending Failed"

inductive_simps phase_step_from [simp]:
  "phase_step Awaiting p" "phase_step Checking p" "phase_step Prepared p" "phase_step Sending p"
  "phase_step Finished p" "phase_step Failed p"

lemma phase_final: "phase_step\<^sup>*\<^sup>* p q \<Longrightarrow> p \<in> {Finished, Failed} \<Longrightarrow> q = p"
  by (induction rule: rtranclp_induct) auto

section \<open>The phase of an order\<close>

definition status_phase :: "string \<Rightarrow> string \<Rightarrow> phase option" where
  "status_phase so sz =
     (if so = ''pending'' \<and> sz = ''pending'' then Some Awaiting
      else if so = ''processing'' \<and> sz = ''processing'' then Some Checking
      else if so = ''ready'' \<and> sz = ''valid'' then Some Prepared
      else if so = ''processing'' \<and> sz = ''valid'' then Some Sending
      else if so = ''valid'' \<and> sz = ''valid'' then Some Finished
      else if so = ''invalid'' \<and> (sz = ''invalid'' \<or> sz = ''valid'') then Some Failed
      else None)"

definition order_phase :: "database \<Rightarrow> string \<Rightarrow> phase option" where
  "order_phase db i = (case (get_order_row i db, tget z_order_id i (authorizations db)) of
     (Some r, Some z) \<Rightarrow> status_phase (o_status r) (z_status z)
   | _ \<Rightarrow> None)"

lemma order_phase_Some:
  assumes "order_phase db i = Some p"
  obtains r z where "get_order_row i db = Some r" "tget z_order_id i (authorizations db) = Some z"
    "status_phase (o_status r) (z_status z) = Some p"
  using assms by (auto simp: order_phase_def split: option.splits)

lemma order_phase_cong:
  "orders db' = orders db \<Longrightarrow> authorizations db' = authorizations db \<Longrightarrow> order_phase db' = order_phase db"
  by (rule ext) (simp add: order_phase_def get_order_row_def)

lemma order_phase_order:
  assumes "\<And>r. o_id (f r) = o_id r" "get_order_row i db = Some r" "tget z_order_id i (authorizations db) = Some z"
  shows "order_phase (update_order i f db) k = (if k = i then status_phase (o_status (f r)) (z_status z) else order_phase db k)"
proof -
  have "tget o_id k (tupdate (\<lambda>r. o_id r = i) f (orders db)) = map_option (\<lambda>r. if o_id r = i then f r else r) (tget o_id k (orders db))"
    by (rule keyed_update.tget_tupdate) (unfold_locales, rule assms(1))
  with assms(2,3) tget_SomeD [of o_id i "orders db" r] show ?thesis
    by (auto simp: order_phase_def get_order_row_def dest!: tget_SomeD split: option.splits)
qed

text \<open>Every order has one authorization, so a job that names both names a pair.\<close>

definition one_authz :: "database \<Rightarrow> bool" where
  "one_authz db \<longleftrightarrow> distinct (map z_id (authorizations db)) \<and> distinct (map z_order_id (authorizations db))"

definition paired :: "string \<Rightarrow> string \<Rightarrow> database \<Rightarrow> bool" where
  "paired a j db \<longleftrightarrow> one_authz db \<and> (\<exists>z \<in> set (authorizations db). z_id z = a \<and> z_order_id z = j)"

lemma paired_tget:
  assumes "paired a j db" "tget z_order_id k (authorizations db) = Some y"
  shows "z_id y = a \<longleftrightarrow> k = j"
proof -
  obtain z where z: "z \<in> set (authorizations db)" "z_id z = a" "z_order_id z = j" using assms(1) by (auto simp: paired_def)
  have y: "y \<in> set (authorizations db)" "z_order_id y = k" using tget_SomeD [OF assms(2)] by auto
  have "inj_on z_id (set (authorizations db))" "inj_on z_order_id (set (authorizations db))"
    using assms(1) by (auto simp: paired_def one_authz_def distinct_map)
  with z y show ?thesis by (auto dest: inj_onD)
qed

lemma order_phase_authz:
  assumes "paired a j db" "\<And>r. z_order_id (g r) = z_order_id r" "get_order_row j db = Some r"
    "tget z_order_id j (authorizations db) = Some z"
  shows "order_phase (update_authz a g db) k = (if k = j then status_phase (o_status r) (z_status (g z)) else order_phase db k)"
    and "tget z_order_id j (authorizations (update_authz a g db)) = Some (g z)"
proof -
  have t: "tget z_order_id k (tupdate (\<lambda>r. z_id r = a) g (authorizations db)) =
      map_option (\<lambda>r. if z_id r = a then g r else r) (tget z_order_id k (authorizations db))" for k
    by (rule keyed_update.tget_tupdate) (unfold_locales, rule assms(2))
  show "tget z_order_id j (authorizations (update_authz a g db)) = Some (g z)"
    using t [of j] assms(4) paired_tget [OF assms(1,4)] by simp
  show "order_phase (update_authz a g db) k = (if k = j then status_phase (o_status r) (z_status (g z)) else order_phase db k)"
    using assms(3,4) t [of k] paired_tget [OF assms(1), of k]
    by (auto simp: order_phase_def get_order_row_def split: option.splits)
qed

lemma order_phase_pair:
  assumes "paired a j db" "order_phase db j = Some p" "\<And>r. o_id (f r) = o_id r" "\<And>z. z_order_id (g z) = z_order_id z"
    "\<And>r. o_status (f r) = so" "\<And>z. z_status (g z) = sz"
  shows "order_phase (update_order j f (update_authz a g db)) k = (if k = j then status_phase so sz else order_phase db k)"
proof -
  obtain r z where rz: "get_order_row j db = Some r" "tget z_order_id j (authorizations db) = Some z"
    using assms(2) by (rule order_phase_Some)
  have "get_order_row j (update_authz a g db) = Some r" using rz(1) by (simp add: get_order_row_def)
  from order_phase_order [OF assms(3) this order_phase_authz(2) [OF assms(1,4) rz]]
    order_phase_authz(1) [OF assms(1,4) rz] assms(5,6) show ?thesis by simp
qed

lemma order_phase_only:
  assumes "order_phase db j = Some Sending" "\<And>r. o_id (f r) = o_id r" "\<And>r. o_status (f r) = so"
  shows "order_phase (update_order j f db) k = (if k = j then status_phase so ''valid'' else order_phase db k)"
proof -
  obtain r z where rz: "get_order_row j db = Some r" "tget z_order_id j (authorizations db) = Some z"
    "status_phase (o_status r) (z_status z) = Some Sending"
    using assms(1) by (rule order_phase_Some)
  moreover have "z_status z = ''valid''" using rz(3) by (auto simp: status_phase_def split: if_splits)
  ultimately show ?thesis using order_phase_order [OF assms(2) rz(1,2)] assms(3) by simp
qed

section \<open>The effects of the relay on the phases\<close>

lemma phase_ack:
  assumes "paired (ap_authz_id plan) (ap_order_id plan) db"
    "order_phase db (ap_order_id plan) = Some (if ap_authz_pending plan then Awaiting else Checking)"
    "ap_authz_pending plan \<longrightarrow> ap_order_pending plan"
  shows "order_phase (ack_update plan db) k = (if k = ap_order_id plan then Some Checking else order_phase db k)"
proof (cases "ap_authz_pending plan")
  case True
  have "order_phase (update_order (ap_order_id plan) (\<lambda>r. r\<lparr>o_status := ''processing''\<rparr>)
      (update_authz (ap_authz_id plan) (\<lambda>r. r\<lparr>z_status := ''processing''\<rparr>) db)) k =
      (if k = ap_order_id plan then status_phase ''processing'' ''processing'' else order_phase db k)"
    by (rule order_phase_pair [OF assms(1,2)]) simp_all
  with True assms(3) show ?thesis by (simp add: ack_update_def Let_def status_phase_def)
qed (use assms in \<open>simp add: ack_update_def\<close>)

lemma phase_fail:
  assumes "paired a j db" "order_phase db j = Some p"
  shows "order_phase (fail_authz a j e db) k = (if k = j then Some Failed else order_phase db k)"
proof -
  have "order_phase (fail_authz a j e db) k = (if k = j then status_phase ''invalid'' ''invalid'' else order_phase db k)"
    unfolding fail_authz_def by (rule order_phase_pair [OF assms]) simp_all
  then show ?thesis by (simp add: status_phase_def)
qed

lemma phase_rc_finish:
  assumes "paired a j db" "order_phase db j = Some Checking"
  shows "order_phase (rc_finish a j outcome db) k =
    (if k = j then Some (case outcome of Inr _ \<Rightarrow> Prepared | Inl _ \<Rightarrow> Failed) else order_phase db k)"
proof -
  obtain r where r: "get_order_row j db = Some r" using assms(2) by (rule order_phase_Some)
  obtain z where z: "z \<in> set (authorizations db)" "z_id z = a" "z_order_id z = j" using assms(1) by (auto simp: paired_def)
  have one: "distinct (map z_id (authorizations db))" "distinct (map z_order_id (authorizations db))"
    using assms(1) by (auto simp: paired_def one_authz_def)
  have g: "get_authz_row a db = Some z" using z one by (simp add: get_authz_row_def tget_eq_Some_iff)
  have "z_id y = a" if "y \<in> set (authorizations db)" "z_order_id y = j" for y
    using paired_tget [OF assms(1), of j y] that one(2) by (simp add: tget_eq_Some_iff)
  then have f: "rc_finish a j (Inr ()) db = update_order j (\<lambda>r. r\<lparr>o_status := ''ready''\<rparr>)
      (update_authz a (\<lambda>r. r\<lparr>z_status := ''valid''\<rparr>) db)"
    by (intro rc_finish_success_eq [OF g r]) auto
  have "order_phase (update_order j (\<lambda>r. r\<lparr>o_status := ''ready''\<rparr>) (update_authz a (\<lambda>r. r\<lparr>z_status := ''valid''\<rparr>) db)) k =
      (if k = j then status_phase ''ready'' ''valid'' else order_phase db k)"
    by (rule order_phase_pair [OF assms]) simp_all
  with f g r phase_fail [OF assms] show ?thesis
    by (cases outcome) (simp_all add: rc_finish_def [of _ _ "Inl _"] status_phase_def)
qed

lemma phase_claim:
  assumes "order_phase db i \<noteq> None" "\<exists>r \<in> set (orders db). o_id r = i \<and> o_status r = ''ready''" "distinct (map o_id (orders db))"
  shows "order_phase db i = Some Prepared"
    and "order_phase (snd (claim_order i db)) k = (if k = i then Some Sending else order_phase db k)"
proof -
  obtain r where r: "get_order_row i db = Some r" "o_status r = ''ready''"
    using assms(2,3) by (auto simp: get_order_row_def tget_eq_Some_iff)
  obtain z where z: "tget z_order_id i (authorizations db) = Some z" using assms(1) by (auto elim: order_phase_Some)
  show p: "order_phase db i = Some Prepared"
    using assms(1) r z by (auto simp: order_phase_def status_phase_def split: if_splits)
  then have zv: "z_status z = ''valid''" using r z by (auto simp: order_phase_def status_phase_def split: if_splits)
  have "tupdate (\<lambda>r. o_id r = i \<and> o_status r = ''ready'') (\<lambda>r. r\<lparr>o_status := ''processing''\<rparr>) (orders db) =
      tupdate (\<lambda>r. o_id r = i) (\<lambda>r. r\<lparr>o_status := ''processing''\<rparr>) (orders db)"
    using r assms(3) by (auto simp: tupdate_def get_order_row_def tget_eq_Some_iff distinct_map dest: inj_onD)
  then have "snd (claim_order i db) = update_order i (\<lambda>r. r\<lparr>o_status := ''processing''\<rparr>) db"
    by (simp add: claim_order_db update_order_def)
  with order_phase_order [of "\<lambda>r. r\<lparr>o_status := ''processing''\<rparr>", OF _ r(1) z] zv
  show "order_phase (snd (claim_order i db)) k = (if k = i then Some Sending else order_phase db k)"
    by (simp add: status_phase_def)
qed

lemma phase_new_order:
  assumes "uuid4 D 0 \<notin> set (map o_id (orders db))" "\<forall>z \<in> set (authorizations db). z_order_id z \<in> set (map o_id (orders db))"
  shows "order_phase (with_order D acct i db) k = (if k = uuid4 D 0 then Some Awaiting else order_phase db k)"
proof -
  have "tget z_order_id (uuid4 D 0) (authorizations db) = None" using assms by (auto simp: tget_None_iff)
  moreover have "tget o_id (uuid4 D 0) (orders db) = None" using assms(1) by (simp add: tget_None_iff)
  ultimately show ?thesis
    by (auto simp: order_phase_def with_order_def get_order_row_def tget_append tget_Cons status_phase_def split: option.splits)
qed

lemma phase_reset:
  assumes "order_phase db i = Some p"
  shows "order_phase (reset_processing_orders db) i = Some (if p \<in> {Checking, Sending} then Failed else p)"
proof -
  obtain r z where rz: "get_order_row i db = Some r" "tget z_order_id i (authorizations db) = Some z"
    "status_phase (o_status r) (z_status z) = Some p" using assms by (rule order_phase_Some)
  have "get_order_row i (reset_processing_orders db) =
      Some (if o_status r = ''processing'' then r\<lparr>o_status := ''invalid'', o_error := Some interrupted_order_error\<rparr> else r)"
    using rz(1) by (simp add: get_order_row_def reset_processing_orders_def order_error.tget_tupdate)
  moreover have "tget z_order_id i (authorizations (reset_processing_orders db)) =
      Some (if z_status z = ''processing'' then z\<lparr>z_status := ''invalid''\<rparr> else z)"
    using rz(2) by (simp add: reset_processing_orders_def keyed_update.tget_tupdate [of z_order_id] keyed_update_def)
  ultimately show ?thesis using rz(3)
    by (auto simp: order_phase_def status_phase_def split: if_splits)
qed

end
