(* ===== verification/Lifecycle.thy ===== *)
theory Lifecycle
  imports Phases
begin

text \<open>
  The running relay refines the machine of \<open>Phases\<close>.  A job is about one order and keeps it in one
  phase.  In a run in which no order has two validations in flight at once (a client that does not
  acknowledge a challenge again while it is being validated), every order has at most one job, and
  every step leaves the phase of every order alone or takes it along one edge of the machine: finished
  and failed orders stay so, and an order is handed to the upstream client at most once.
\<close>

section \<open>Jobs and phases\<close>

text \<open>The order a job is about, and the phase the order has while the job is open.\<close>

definition job_needs :: "job \<Rightarrow> (string \<times> phase) option" where
  "job_needs j = (case j of
     AckOpen p \<Rightarrow> Some (ap_order_id p, if ap_authz_pending p then Awaiting else Checking)
   | Task t \<Rightarrow> (case t of RunChallenge a i \<Rightarrow> Some (i, Checking) | ProcessFinalize i d c \<Rightarrow> Some (i, Sending))
   | Validating p \<Rightarrow> Some (rp_order_id p, Checking)
   | Waiting i d c \<Rightarrow> Some (i, Sending)
   | Issuing i d c \<Rightarrow> Some (i, Sending)
   | Returned i r \<Rightarrow> Some (i, Sending)
   | Stored i c \<Rightarrow> Some (i, Sending)
   | _ \<Rightarrow> None)"

lemma job_needs_simps [simp]:
  "job_needs (AckOpen ap) = Some (ap_order_id ap, if ap_authz_pending ap then Awaiting else Checking)"
  "job_needs (Task (RunChallenge a i)) = Some (i, Checking)" "job_needs (Task (ProcessFinalize i d c)) = Some (i, Sending)"
  "job_needs (Validating rp) = Some (rp_order_id rp, Checking)" "job_needs (Waiting i d c) = Some (i, Sending)"
  "job_needs (Issuing i d c) = Some (i, Sending)" "job_needs (Returned i out) = Some (i, Sending)"
  "job_needs (Stored i k) = Some (i, Sending)" "job_needs (Authed jp acct) = None" "job_needs (Verified pl acct) = None"
  "job_needs (AccountOpen np) = None" "job_needs (OrderOpen D acct ids) = None" "job_needs (KeyOpen acct row key) = None"
  "job_needs NonceOpen = None" "job_needs (FinalizeOpen fp) = None"
  by (simp_all add: job_needs_def)

definition about :: "string \<Rightarrow> job \<Rightarrow> bool" where
  "about i j \<longleftrightarrow> (\<exists>p. job_needs j = Some (i, p))"

definition in_flight :: "string \<Rightarrow> job \<Rightarrow> bool" where
  "in_flight i j \<longleftrightarrow> (\<exists>p \<in> {Awaiting, Checking}. job_needs j = Some (i, p))"

definition single_flight :: "job list \<Rightarrow> bool" where
  "single_flight js \<longleftrightarrow> (\<forall>i. length (filter (in_flight i) js) \<le> 1)"

lemma single_flight_short [simp]: "single_flight []" "single_flight [j]"
  by (simp_all add: single_flight_def)

definition careful_step ::
  "'k libs \<Rightarrow> settings \<Rightarrow> string \<Rightarrow> (string \<Rightarrow> string list) \<Rightarrow> relay \<Rightarrow> relay \<Rightarrow> bool" where
  "careful_step L cfg ver bases s t \<longleftrightarrow> relay_step L cfg ver bases s t \<and> single_flight (rl_jobs t)"

definition job_in_phase :: "database \<Rightarrow> job \<Rightarrow> bool" where
  "job_in_phase db j \<longleftrightarrow> (\<forall>i p. job_needs j = Some (i, p) \<longrightarrow> order_phase db i = Some p) \<and>
     (case j of AckOpen p \<Rightarrow> ap_authz_pending p \<longrightarrow> ap_order_pending p | _ \<Rightarrow> True)"

definition dispatches :: "string \<Rightarrow> event list \<Rightarrow> event list" where
  "dispatches i log = filter (\<lambda>e. case e of Dispatched k _ _ \<Rightarrow> k = i | _ \<Rightarrow> False) log"

definition sent_ok :: "database \<Rightarrow> event list \<Rightarrow> bool" where
  "sent_ok db log \<longleftrightarrow> (\<forall>i. dispatches i log = [] \<or>
     (length (dispatches i log) = 1 \<and> (\<exists>p \<in> {Sending, Finished, Failed}. order_phase db i = Some p)))"

definition life_inv :: "relay \<Rightarrow> bool" where
  "life_inv s \<longleftrightarrow> one_authz (rl_db s) \<and> (\<forall>r \<in> set (orders (rl_db s)). order_phase (rl_db s) (o_id r) \<noteq> None) \<and>
     (\<forall>j \<in> set (rl_jobs s). job_in_phase (rl_db s) j) \<and>
     (\<forall>i. length (filter (about i) (rl_jobs s)) \<le> 1) \<and> sent_ok (rl_db s) (rl_log s)"

text \<open>What one step of the relay does to the phases: nothing, or one edge of the machine.\<close>

definition phases_follow :: "database \<Rightarrow> database \<Rightarrow> bool" where
  "phases_follow db db' \<longleftrightarrow> (\<forall>i p. order_phase db i = Some p \<longrightarrow>
     (\<exists>q. order_phase db' i = Some q \<and> phase_step\<^sup>=\<^sup>= p q))"

lemma phases_follow_refl: "order_phase db' = order_phase db \<Longrightarrow> phases_follow db db'"
  by (simp add: phases_follow_def)

lemma late_phases: "phase_step\<^sup>=\<^sup>= p q \<Longrightarrow> p \<in> {Sending, Finished, Failed} \<Longrightarrow> q \<in> {Sending, Finished, Failed}"
  by auto

lemma dispatches_append [simp]: "dispatches i (xs @ ys) = dispatches i xs @ dispatches i ys"
  by (simp add: dispatches_def)

lemma sent_ok_follow:
  assumes "sent_ok db log" "phases_follow db db'" "\<And>k. dispatches k log' = dispatches k log"
  shows "sent_ok db' log'"
  unfolding sent_ok_def assms(3)
proof
  fix i
  consider "dispatches i log = []"
    | p where "length (dispatches i log) = 1" "p \<in> {Sending, Finished, Failed}" "order_phase db i = Some p"
    using assms(1) unfolding sent_ok_def by blast
  then show "dispatches i log = [] \<or>
      (length (dispatches i log) = 1 \<and> (\<exists>p \<in> {Sending, Finished, Failed}. order_phase db' i = Some p))"
  proof cases
    case 2
    then obtain q where "order_phase db' i = Some q" "phase_step\<^sup>=\<^sup>= p q" using assms(2) by (auto simp: phases_follow_def)
    with 2 late_phases show ?thesis by blast
  qed simp
qed

text \<open>Steps that leave the two tables and the jobs that matter alone.\<close>

definition relevant :: "job list \<Rightarrow> job list" where
  "relevant js = filter (\<lambda>j. job_needs j \<noteq> None) js"

lemma relevant_simps [simp]: "relevant [] = []" "relevant (j # js) = (if job_needs j = None then relevant js else j # relevant js)"
  "relevant (xs @ ys) = relevant xs @ relevant ys"
  by (simp_all add: relevant_def)

lemma filter_about_relevant: "filter (about i) (relevant js) = filter (about i) js"
  by (induction js) (auto simp: about_def)

lemma irrelevant_in_phase: "job_needs j = None \<Longrightarrow> job_in_phase db j"
  by (cases j) (simp_all add: job_in_phase_def)

lemma in_phase_relevant:
  assumes "\<forall>j \<in> set js. job_in_phase db j" "relevant js' = relevant js"
    "\<And>i p. order_phase db i = Some p \<Longrightarrow> order_phase db' i = Some p"
  shows "\<forall>j \<in> set js'. job_in_phase db' j"
proof
  fix j assume "j \<in> set js'"
  show "job_in_phase db' j"
  proof (cases "job_needs j = None")
    case False
    with \<open>j \<in> set js'\<close> have "j \<in> set (relevant js')" by (simp add: relevant_def)
    then have "j \<in> set js" unfolding assms(2) by (simp add: relevant_def)
    with assms(1,3) show ?thesis by (auto simp: job_in_phase_def)
  qed (rule irrelevant_in_phase)
qed

lemma phases_total:
  assumes "\<forall>r \<in> set (orders db). order_phase db (o_id r) \<noteq> None" "phases_follow db db'"
    "map o_id (orders db') = map o_id (orders db)"
  shows "\<forall>r \<in> set (orders db'). order_phase db' (o_id r) \<noteq> None"
proof
  fix r assume "r \<in> set (orders db')"
  then have "o_id r \<in> set (map o_id (orders db))" using assms(3) by (metis image_eqI list.set_map)
  with assms(1) have "order_phase db (o_id r) \<noteq> None" by auto
  with assms(2) show "order_phase db' (o_id r) \<noteq> None" by (auto simp: phases_follow_def)
qed

lemma life_frame:
  assumes inv: "life_inv s" and db: "orders (rl_db t) = orders (rl_db s)" "authorizations (rl_db t) = authorizations (rl_db s)"
    and jobs: "relevant (rl_jobs t) = relevant (rl_jobs s)" and log: "rl_log t = rl_log s"
  shows "life_inv t \<and> phases_follow (rl_db s) (rl_db t)"
proof -
  note ph = order_phase_cong [OF db]
  have "length (filter (about i) (rl_jobs t)) \<le> 1" for i
    using inv jobs by (metis filter_about_relevant life_inv_def)
  moreover have "\<forall>j \<in> set (rl_jobs t). job_in_phase (rl_db t) j"
    using inv by (intro in_phase_relevant [OF _ jobs, of "rl_db s"]) (simp_all add: life_inv_def ph)
  ultimately show ?thesis using inv db log by (simp add: life_inv_def one_authz_def sent_ok_def ph phases_follow_refl)
qed

text \<open>Steps of the one job that is about an order.\<close>

lemma life_job:
  assumes inv: "life_inv s" and jobs: "rl_jobs s = js @ j # ks" "rl_jobs t = js @ ks @ new" and j: "job_needs j = Some (i, p)"
    and new: "new = [] \<or> (\<exists>j'. new = [j'] \<and> job_needs j' = Some (i, q) \<and> (\<forall>ap. j' \<noteq> AckOpen ap))"
    and ph: "order_phase (rl_db t) i = Some q" "\<And>k. k \<noteq> i \<Longrightarrow> order_phase (rl_db t) k = order_phase (rl_db s) k"
    and st: "phase_step\<^sup>=\<^sup>= p q"
    and db: "map o_id (orders (rl_db t)) = map o_id (orders (rl_db s))" "one_authz (rl_db t)"
    and log: "\<And>k. dispatches k (rl_log t) = dispatches k (rl_log s)"
  shows "life_inv t \<and> phases_follow (rl_db s) (rl_db t)"
proof -
  have pi: "order_phase (rl_db s) i = Some p" using inv jobs j by (simp add: life_inv_def job_in_phase_def)
  have no: "filter (about i) (js @ ks) = []"
    using inv jobs(1) j spec [of "\<lambda>i. length (filter (about i) (rl_jobs s)) \<le> 1" i] by (simp add: life_inv_def about_def)
  have one: "length (filter (about k) (rl_jobs t)) \<le> 1" for k
  proof (cases "k = i")
    case True
    with no new show ?thesis by (auto simp: jobs(2))
  next
    case False
    then have "filter (about k) new = []" "\<not> about k j" using new j by (auto simp: about_def)
    then have "filter (about k) (rl_jobs t) = filter (about k) (rl_jobs s)" by (simp add: jobs)
    with inv show ?thesis by (simp add: life_inv_def)
  qed
  have ip: "job_in_phase (rl_db t) j'" if "j' \<in> set (rl_jobs t)" for j'
  proof (cases "j' \<in> set new")
    case True
    with new ph(1) show ?thesis by (cases j') (auto simp: job_in_phase_def)
  next
    case False
    with that have m: "j' \<in> set (js @ ks)" by (auto simp: jobs(2))
    then have "\<not> about i j'" using no by (metis filter_empty_conv)
    moreover have "job_in_phase (rl_db s) j'" using inv m jobs(1) by (auto simp: life_inv_def)
    ultimately show ?thesis using ph(2) by (auto simp: job_in_phase_def about_def)
  qed
  have fo: "phases_follow (rl_db s) (rl_db t)"
    unfolding phases_follow_def
  proof (intro allI impI)
    fix k p'
    assume "order_phase (rl_db s) k = Some p'"
    then show "\<exists>q. order_phase (rl_db t) k = Some q \<and> phase_step\<^sup>=\<^sup>= p' q"
      using ph pi st by (cases "k = i") auto
  qed
  have os: "\<forall>r \<in> set (orders (rl_db t)). order_phase (rl_db t) (o_id r) \<noteq> None"
    using inv by (intro phases_total [OF _ fo db(1)]) (simp add: life_inv_def)
  have "sent_ok (rl_db t) (rl_log t)" using inv fo log by (auto simp: life_inv_def intro: sent_ok_follow)
  with one ip os fo db(2) show ?thesis by (simp add: life_inv_def)
qed

section \<open>Steps that start something\<close>

lemma job_needs_phase: "job_needs j = Some (i, p) \<Longrightarrow> p \<in> {Awaiting, Checking, Sending}"
  by (cases j) (auto simp: job_needs_def split: task.splits if_splits)

lemma no_job:
  assumes "life_inv s" "\<And>p. order_phase (rl_db s) i = Some p \<Longrightarrow> p \<notin> {Awaiting, Checking, Sending}"
  shows "filter (about i) (rl_jobs s) = []"
  unfolding filter_empty_conv
proof
  fix j assume j: "j \<in> set (rl_jobs s)"
  show "\<not> about i j"
  proof
    assume "about i j"
    then obtain p where p: "job_needs j = Some (i, p)" by (auto simp: about_def)
    with assms(1) j have "order_phase (rl_db s) i = Some p" by (auto simp: life_inv_def job_in_phase_def)
    with assms(2) job_needs_phase [OF p] show False by blast
  qed
qed

lemma life_ack_open:
  assumes inv: "life_inv s" and jobs: "rl_jobs s = js @ v # ks" and v: "job_needs v = None"
    and p: "ack_prepare a acct (rl_db s) = Inr plan" and sf: "single_flight (js @ ks @ [AckOpen plan])"
  shows "life_inv (s\<lparr>rl_jobs := js @ ks @ [AckOpen plan]\<rparr>)"
proof -
  let ?i = "ap_order_id plan"
  obtain z ord where z: "get_authz_row a (rl_db s) = Some z" "get_order_row (z_order_id z) (rl_db s) = Some ord"
    "z_status z = ''pending'' \<or> z_status z = ''processing''" "?i = z_order_id z"
    "ap_authz_pending plan \<longleftrightarrow> z_status z = ''pending''" "ap_order_pending plan \<longleftrightarrow> o_status ord = ''pending''"
    using p by (rule ack_prepare_Inr)
  have ph: "order_phase (rl_db s) ?i \<noteq> None"
    using inv get_order_static [OF z(2)] by (auto simp: life_inv_def z(4))
  have "tget z_order_id ?i (authorizations (rl_db s)) = Some z"
    using inv get_authz_static [OF z(1)] by (simp add: life_inv_def one_authz_def tget_eq_Some_iff z(4))
  with ph z have ip: "job_in_phase (rl_db s) (AckOpen plan)"
    by (auto simp: job_in_phase_def order_phase_def status_phase_def split: if_splits)
  then have pi: "order_phase (rl_db s) ?i \<in> {Some Awaiting, Some Checking}" by (auto simp: job_in_phase_def)
  have "\<not> about ?i j" if j: "j \<in> set (js @ ks)" for j
  proof
    assume "about ?i j"
    then obtain q where q: "job_needs j = Some (?i, q)" by (auto simp: about_def)
    moreover have "job_in_phase (rl_db s) j" using inv j jobs by (auto simp: life_inv_def)
    ultimately have "in_flight ?i j" using pi by (auto simp: job_in_phase_def in_flight_def)
    then have "filter (in_flight ?i) (js @ ks) \<noteq> []" using j by (metis filter_empty_conv)
    moreover have "in_flight ?i (AckOpen plan)" by (simp add: in_flight_def)
    ultimately have "1 < length (filter (in_flight ?i) (js @ ks @ [AckOpen plan]))" by auto
    with sf show False unfolding single_flight_def by (metis leD)
  qed
  then have no: "filter (about ?i) (js @ ks) = []" by (simp add: filter_empty_conv)
  have "length (filter (about k) (js @ ks @ [AckOpen plan])) \<le> 1" for k
  proof (cases "k = ?i")
    case True
    with no show ?thesis by auto
  next
    case False
    then have "filter (about k) (js @ ks @ [AckOpen plan]) = filter (about k) (rl_jobs s)"
      using v by (simp add: jobs about_def)
    with inv show ?thesis by (simp add: life_inv_def)
  qed
  with inv ip show ?thesis by (auto simp: life_inv_def jobs)
qed

lemma life_finalize_close:
  assumes inv: "life_inv s" and jobs: "rl_jobs s = js @ FinalizeOpen plan # ks" and dist: "distinct (map o_id (orders (rl_db s)))"
    and c: "finalize_commit cfg plan (rl_db s) = (Inr (res, ts), db')"
  shows "life_inv (s\<lparr>rl_db := db', rl_jobs := js @ ks @ map Task ts, rl_log := rl_log s @ dispatched ts\<rparr>) \<and>
    phases_follow (rl_db s) db'"
proof -
  let ?i = "fp_order_id plan"
  from c have ready: "\<exists>r \<in> set (orders (rl_db s)). o_id r = ?i \<and> o_status r = ''ready''"
    and db': "db' = snd (claim_order ?i (rl_db s))"
    and ts: "ts = [ProcessFinalize ?i (fp_domain plan) (fp_csr_der plan)]" by (auto simp: finalize_commit_Inr)
  have "order_phase (rl_db s) ?i \<noteq> None" using inv ready by (auto simp: life_inv_def)
  note ph = phase_claim [OF this ready dist]
  have no: "filter (about ?i) (rl_jobs s) = []" by (rule no_job [OF inv]) (simp add: ph(1))
  have fo: "phases_follow (rl_db s) db'" using ph by (auto simp: phases_follow_def db')
  have keys: "map o_id (orders db') = map o_id (orders (rl_db s))" "authorizations db' = authorizations (rl_db s)"
    by (simp_all add: db' claim_order_db map_tupdate)
  have os: "\<forall>r \<in> set (orders db'). order_phase db' (o_id r) \<noteq> None"
    using inv by (intro phases_total [OF _ fo keys(1)]) (simp add: life_inv_def)
  have away: "\<forall>j \<in> set (rl_jobs s). \<not> about ?i j" using no by (simp add: filter_empty_conv)
  have ip: "job_in_phase db' j" if "j \<in> set (js @ ks)" for j
  proof -
    have "job_in_phase (rl_db s) j" "\<not> about ?i j" using inv that away by (auto simp: life_inv_def jobs)
    then show ?thesis by (auto simp: job_in_phase_def about_def db' ph(2))
  qed
  have one: "length (filter (about k) (js @ ks @ map Task ts)) \<le> 1" for k
  proof (cases "k = ?i")
    case True
    with no show ?thesis by (simp add: jobs ts about_def)
  next
    case False
    then have "filter (about k) (js @ ks @ map Task ts) = filter (about k) (rl_jobs s)" by (simp add: jobs ts about_def)
    with inv show ?thesis by (simp add: life_inv_def)
  qed
  have sent: "sent_ok db' (rl_log s @ dispatched ts)"
  proof -
    have "dispatches ?i (rl_log s) = []" using inv ph(1) by (auto simp: life_inv_def sent_ok_def)
    moreover have "sent_ok db' (rl_log s)" using inv fo by (auto simp: life_inv_def intro: sent_ok_follow)
    ultimately show ?thesis
      by (auto simp: sent_ok_def dispatched_def dispatches_def ts db' ph(2))
  qed
  have "job_in_phase db' (Task (ProcessFinalize ?i (fp_domain plan) (fp_csr_der plan)))"
    by (simp add: job_in_phase_def db' ph(2))
  with inv os ip one sent fo keys show ?thesis by (auto simp: life_inv_def ts one_authz_def)
qed

lemma life_new_order:
  assumes inv: "life_inv s" and wf: "skel_wf (skeleton (rl_db s))"
    and same: "orders db1 = orders (rl_db s)" "authorizations db1 = authorizations (rl_db s)"
    and new: "uuid4 D 0 \<notin> set (map o_id (orders db1))" "uuid4 D 1 \<notin> set (map z_id (authorizations db1))"
    and t: "rl_db t = with_order D acct i db1" "relevant (rl_jobs t) = relevant (rl_jobs s)" "rl_log t = rl_log s"
  shows "life_inv t \<and> phases_follow (rl_db s) (rl_db t)"
proof -
  have owner: "\<forall>z \<in> set (authorizations db1). z_order_id z \<in> set (map o_id (orders db1))"
    using wf unfolding skel_wf_def same by (auto simp: skeleton_def zorder_def zstat_def ostat_def image_image)
  have ph: "order_phase (rl_db t) k = (if k = uuid4 D 0 then Some Awaiting else order_phase (rl_db s) k)" for k
    using phase_new_order [OF new(1) owner, of acct i k] order_phase_cong [OF same] by (simp add: t(1))
  have none: "order_phase (rl_db s) (uuid4 D 0) = None"
  proof -
    have "tget o_id (uuid4 D 0) (orders (rl_db s)) = None" using new(1) same(1) by (simp add: tget_None_iff)
    then show ?thesis by (simp add: order_phase_def get_order_row_def)
  qed
  then have fo: "phases_follow (rl_db s) (rl_db t)" by (auto simp: phases_follow_def ph)
  have "\<forall>j \<in> set (rl_jobs t). job_in_phase (rl_db t) j"
    using inv none by (intro in_phase_relevant [OF _ t(2), of "rl_db s"]) (auto simp: life_inv_def ph)
  moreover have "length (filter (about k) (rl_jobs t)) \<le> 1" for k
    using inv t(2) by (metis filter_about_relevant life_inv_def)
  moreover have "one_authz (rl_db t)" using inv new owner by (auto simp: life_inv_def one_authz_def t(1) with_order_def same)
  moreover have "sent_ok (rl_db t) (rl_log t)" using inv fo t(3) by (auto simp: life_inv_def intro: sent_ok_follow)
  moreover have "\<forall>r \<in> set (orders (rl_db t)). order_phase (rl_db t) (o_id r) \<noteq> None"
  proof
    fix r assume "r \<in> set (orders (rl_db t))"
    then have "r \<in> set (orders (rl_db s)) \<or> o_id r = uuid4 D 0" by (auto simp: t(1) with_order_def same)
    with inv show "order_phase (rl_db t) (o_id r) \<noteq> None" by (auto simp: life_inv_def ph)
  qed
  ultimately show ?thesis using fo by (simp add: life_inv_def)
qed

lemma life_restart:
  assumes inv: "life_inv s"
  shows "life_inv (s\<lparr>rl_db := reset_processing_orders (rl_db s), rl_jobs := []\<rparr>) \<and>
    phases_follow (rl_db s) (reset_processing_orders (rl_db s))"
proof -
  have fo: "phases_follow (rl_db s) (reset_processing_orders (rl_db s))"
    unfolding phases_follow_def
  proof (intro allI impI)
    fix i p assume "order_phase (rl_db s) i = Some p"
    from phase_reset [OF this]
    show "\<exists>q. order_phase (reset_processing_orders (rl_db s)) i = Some q \<and> phase_step\<^sup>=\<^sup>= p q"
      by (cases p) auto
  qed
  have keys: "map o_id (orders (reset_processing_orders (rl_db s))) = map o_id (orders (rl_db s))"
    "map z_id (authorizations (reset_processing_orders (rl_db s))) = map z_id (authorizations (rl_db s))"
    "map z_order_id (authorizations (reset_processing_orders (rl_db s))) = map z_order_id (authorizations (rl_db s))"
    by (simp_all add: reset_processing_orders_def map_tupdate)
  have "\<forall>r \<in> set (orders (reset_processing_orders (rl_db s))). order_phase (reset_processing_orders (rl_db s)) (o_id r) \<noteq> None"
    using inv by (intro phases_total [OF _ fo keys(1)]) (simp add: life_inv_def)
  with inv fo keys show ?thesis by (auto simp: life_inv_def one_authz_def intro: sent_ok_follow)
qed

section \<open>Every careful step\<close>

lemma paired_job:
  assumes "life_inv s" "(a, j, d, tok) \<in> set (snd (skeleton (rl_db s)))"
  shows "paired a j (rl_db s)"
  using assms by (auto simp: paired_def life_inv_def skeleton_def zstat_def)

lemma one_authz_update:
  "one_authz (rc_finish a j out db) = one_authz db" "one_authz (ack_update plan db) = one_authz db"
  "one_authz (fail_authz a j e db) = one_authz db"
  by (auto simp: one_authz_def rc_finish_def ack_update_def Let_def map_tupdate split: option.splits sum.splits)

lemma order_keys_update:
  "map o_id (orders (rc_finish a j out db)) = map o_id (orders db)" "map o_id (orders (ack_update plan db)) = map o_id (orders db)"
  "map o_id (orders (fail_authz a j e db)) = map o_id (orders db)"
  by (auto simp: rc_finish_def ack_update_def Let_def map_tupdate split: option.splits sum.splits)

lemma life_plain_request:
  assumes "life_inv s" "relay_inv L cfg s" "\<not> splits_up ep" "route L cfg ver D lr ep req (rl_db s) = (rep, db')"
  shows "life_inv (s\<lparr>rl_db := db'\<rparr>) \<and> phases_follow (rl_db s) db'"
  using route_plain_db [OF assms(3,4)]
proof (elim disjE exE conjE)
  assume "orders db' = orders (rl_db s)" "authorizations db' = authorizations (rl_db s)"
  with life_frame [OF assms(1), of "s\<lparr>rl_db := db'\<rparr>"] show ?thesis by simp
next
  fix payload acct i db1
  assume a: "orders db1 = orders (rl_db s)" "authorizations db1 = authorizations (rl_db s)"
    "order_accepted L cfg D payload acct db1 i" "db' = with_order D acct i db1"
  have "skel_wf (skeleton (rl_db s))" using assms(2) by (simp add: relay_inv_def)
  from life_new_order [OF assms(1) this a(1,2), of D "s\<lparr>rl_db := db'\<rparr>" acct i] a(3,4)
  show ?thesis by (simp add: order_accepted_def)
qed

lemma life_order_close:
  assumes "life_inv s" "relay_inv L cfg s" "rl_jobs s = js @ OrderOpen D acct ids # ks"
    "new_order_commit cfg D acct ids (rl_db s) = (r, db')"
  shows "life_inv (s\<lparr>rl_db := db', rl_jobs := js @ ks\<rparr>) \<and> phases_follow (rl_db s) db'"
proof -
  obtain i where i: "ids = [i]" using relay_inv_job [OF assms(2,3)] by (auto simp: job_ok_def)
  have wf: "skel_wf (skeleton (rl_db s))" using assms(2) by (simp add: relay_inv_def)
  from new_order_commit_db [OF assms(4) [unfolded i]] show ?thesis
  proof (elim disjE conjE)
    assume "db' = rl_db s"
    with life_frame [OF assms(1), of "s\<lparr>rl_db := db', rl_jobs := js @ ks\<rparr>"] assms(3) show ?thesis by simp
  next
    assume n: "uuid4 D 0 \<notin> set (map o_id (orders (rl_db s)))" "uuid4 D 1 \<notin> set (map z_id (authorizations (rl_db s)))"
      "db' = with_order D acct i (rl_db s)"
    from life_new_order [OF assms(1) wf refl refl n(1,2), of "s\<lparr>rl_db := db', rl_jobs := js @ ks\<rparr>" acct i] n(3) assms(3)
    show ?thesis by simp
  qed
qed

lemma life_validated:
  assumes inv: "life_inv s" and rinv: "relay_inv L cfg s" and jobs: "rl_jobs s = js @ Validating plan # ks"
    and es: "\<And>k. dispatches k es = []"
  shows "life_inv (s\<lparr>rl_db := rc_finish (rp_authz_id plan) (rp_order_id plan) out (rl_db s), rl_jobs := js @ ks, rl_log := rl_log s @ es\<rparr>)
    \<and> phases_follow (rl_db s) (rc_finish (rp_authz_id plan) (rp_order_id plan) out (rl_db s))"
proof -
  have pa: "paired (rp_authz_id plan) (rp_order_id plan) (rl_db s)"
    using relay_inv_job [OF rinv jobs] by (intro paired_job [OF inv]) (auto simp: job_ok_def)
  have ph: "order_phase (rl_db s) (rp_order_id plan) = Some Checking" using inv jobs by (simp add: life_inv_def job_in_phase_def)
  note fin = phase_rc_finish [OF pa ph]
  let ?t = "s\<lparr>rl_db := rc_finish (rp_authz_id plan) (rp_order_id plan) out (rl_db s), rl_jobs := js @ ks, rl_log := rl_log s @ es\<rparr>"
  have "life_inv ?t \<and> phases_follow (rl_db s) (rl_db ?t)"
    by (rule life_job [OF inv jobs, where new = "[]" and i = "rp_order_id plan" and p = Checking
          and q = "case out of Inr _ \<Rightarrow> Prepared | Inl _ \<Rightarrow> Failed"])
       (use fin inv es in \<open>auto simp: one_authz_update order_keys_update life_inv_def split: sum.splits\<close>)
  then show ?thesis by simp
qed

lemma life_stopped:
  assumes inv: "life_inv s" and rinv: "relay_inv L cfg s" and jobs: "rl_jobs s = js @ Task (RunChallenge a j) # ks"
    and b: "rc_begin L a j (rl_db s) = (r, db')"
  shows "life_inv (s\<lparr>rl_db := db', rl_jobs := js @ ks\<rparr>) \<and> phases_follow (rl_db s) db'"
proof -
  have pa: "paired a j (rl_db s)"
    using relay_inv_job [OF rinv jobs] by (auto simp: job_ok_def task_ok_def intro: paired_job [OF inv])
  have ph: "order_phase (rl_db s) j = Some Checking" using inv jobs by (simp add: life_inv_def job_in_phase_def)
  let ?t = "s\<lparr>rl_db := db', rl_jobs := js @ ks\<rparr>"
  from rc_begin_db [OF b] obtain q where "order_phase db' j = Some q" "q \<in> {Checking, Failed}"
    "\<And>k. k \<noteq> j \<Longrightarrow> order_phase db' k = order_phase (rl_db s) k" "one_authz db' = one_authz (rl_db s)"
    "map o_id (orders db') = map o_id (orders (rl_db s))"
    using ph phase_fail [OF pa ph] one_authz_update(3) order_keys_update(3) by (elim disjE conjE exE) auto
  then have "life_inv ?t \<and> phases_follow (rl_db s) (rl_db ?t)"
    by (intro life_job [OF inv jobs, where new = "[]" and i = j and p = Checking and q = q]) (use inv in \<open>auto simp: life_inv_def\<close>)
  then show ?thesis by simp
qed

text \<open>Steps of an issuance: only its end changes the order, and nothing else does.\<close>

lemma life_issue:
  assumes inv: "life_inv s" and jobs: "rl_jobs s = js @ j # ks" and j: "job_needs j = Some (i, Sending)"
    and db: "orders db' = tupdate (\<lambda>r. o_id r = i) f (orders (rl_db s))" "authorizations db' = authorizations (rl_db s)"
      "\<And>r. o_id (f r) = o_id r" "\<And>r. o_status (f r) = st" and st: "st \<in> {''valid'', ''invalid''}" and es: "\<And>k. dispatches k es = []"
  shows "life_inv (s\<lparr>rl_db := db', rl_jobs := js @ ks, rl_log := rl_log s @ es\<rparr>) \<and> phases_follow (rl_db s) db'"
proof -
  have ph: "order_phase (rl_db s) i = Some Sending" using inv jobs j by (simp add: life_inv_def job_in_phase_def)
  have "order_phase db' = order_phase (update_order i f (rl_db s))" by (rule order_phase_cong) (simp_all add: db)
  then have new: "order_phase db' k = (if k = i then status_phase st ''valid'' else order_phase (rl_db s) k)" for k
    using order_phase_only [where f = f, OF ph db(3,4)] by simp
  let ?t = "s\<lparr>rl_db := db', rl_jobs := js @ ks, rl_log := rl_log s @ es\<rparr>"
  have "life_inv ?t \<and> phases_follow (rl_db s) (rl_db ?t)"
    by (rule life_job [OF inv jobs, where new = "[]" and i = i and p = Sending and q = "if st = ''valid'' then Finished else Failed"])
       (use j inv st es new db in \<open>auto simp: status_phase_def life_inv_def one_authz_def map_tupdate\<close>)
  then show ?thesis by simp
qed

lemma life_swap:
  assumes inv: "life_inv s" and jobs: "rl_jobs s = js @ j # ks" and j: "job_needs j = Some (i, p)"
    and db: "orders db' = orders (rl_db s)" "authorizations db' = authorizations (rl_db s)" and es: "\<And>k. dispatches k es = []"
    and new: "new = [] \<or> (\<exists>j'. new = [j'] \<and> job_needs j' = Some (i, p) \<and> (\<forall>ap. j' \<noteq> AckOpen ap))"
  shows "life_inv (s\<lparr>rl_db := db', rl_jobs := js @ ks @ new, rl_log := rl_log s @ es\<rparr>) \<and> phases_follow (rl_db s) db'"
proof -
  have ph: "order_phase (rl_db s) i = Some p" using inv jobs j by (simp add: life_inv_def job_in_phase_def)
  let ?t = "s\<lparr>rl_db := db', rl_jobs := js @ ks @ new, rl_log := rl_log s @ es\<rparr>"
  have "life_inv ?t \<and> phases_follow (rl_db s) (rl_db ?t)"
    by (rule life_job [OF inv jobs, where new = new and i = i and p = p and q = p])
       (use j inv es new ph order_phase_cong [OF db] db in \<open>simp_all add: life_inv_def one_authz_def\<close>)
  then show ?thesis by simp
qed

lemma life_ack_close:
  assumes inv: "life_inv s" and rinv: "relay_inv L cfg s" and jobs: "rl_jobs s = js @ AckOpen plan # ks"
  shows "life_inv (s\<lparr>rl_db := ack_update plan (rl_db s),
      rl_jobs := js @ ks @ [Task (RunChallenge (ap_authz_id plan) (ap_order_id plan))]\<rparr>) \<and>
    phases_follow (rl_db s) (ack_update plan (rl_db s))"
proof -
  let ?p = "if ap_authz_pending plan then Awaiting else Checking"
  have pa: "paired (ap_authz_id plan) (ap_order_id plan) (rl_db s)"
    using relay_inv_job [OF rinv jobs] by (auto simp: job_ok_def intro: paired_job [OF inv])
  have "job_in_phase (rl_db s) (AckOpen plan)" using inv jobs by (simp add: life_inv_def)
  then have ph: "order_phase (rl_db s) (ap_order_id plan) = Some ?p" "ap_authz_pending plan \<longrightarrow> ap_order_pending plan"
    by (simp_all add: job_in_phase_def)
  note ack = phase_ack [OF pa ph]
  let ?t = "s\<lparr>rl_db := ack_update plan (rl_db s),
      rl_jobs := js @ ks @ [Task (RunChallenge (ap_authz_id plan) (ap_order_id plan))]\<rparr>"
  have "life_inv ?t \<and> phases_follow (rl_db s) (rl_db ?t)"
    by (rule life_job [OF inv jobs, where new = "[Task (RunChallenge (ap_authz_id plan) (ap_order_id plan))]"
          and i = "ap_order_id plan" and p = ?p and q = Checking])
       (use ack inv in \<open>auto simp: one_authz_update order_keys_update life_inv_def\<close>)
  then show ?thesis by simp
qed

lemma life_pf_finish:
  assumes inv: "life_inv s" and jobs: "rl_jobs s = js @ Returned i outcome # ks"
    and f: "pf_finish L bases D i outcome (rl_db s) = (r, db')"
  shows "life_inv (s\<lparr>rl_db := db', rl_jobs := js @ ks\<rparr>) \<and> phases_follow (rl_db s) db'"
  using pf_finish_db [OF f]
proof (elim disjE exE conjE)
  assume "db' = rl_db s"
  with life_swap [OF inv jobs, of i Sending db' "[]" "[]"] show ?thesis by (simp add: dispatches_def)
next
  fix e assume "db' = update_order i
      (\<lambda>r. r\<lparr>o_status := ''invalid'', o_error := Some (json_dumps (acme_problem bases e))\<rparr>) (rl_db s)"
  with life_issue [OF inv jobs, of i db' "\<lambda>r. r\<lparr>o_status := ''invalid'', o_error := Some (json_dumps (acme_problem bases e))\<rparr>"
      "''invalid''" "[]"] show ?thesis by (simp add: dispatches_def)
next
  fix pem assume "db' = update_order i (\<lambda>r. r\<lparr>o_cert_id := Some (uuid4 D 0), o_status := ''valid''\<rparr>)
     ((rl_db s)\<lparr>certificates := certificates (rl_db s) @
        [new_cert_row L (uuid4 D 0) (clock D 1) i pem (cert_expiry_from_pem L (clock D 0) pem)]\<rparr>)"
  with life_issue [OF inv jobs, of i db' "\<lambda>r. r\<lparr>o_cert_id := Some (uuid4 D 0), o_status := ''valid''\<rparr>" "''valid''" "[]"]
  show ?thesis by (simp add: dispatches_def)
qed

lemma life_step:
  assumes "relay_step L cfg ver bases s t" "single_flight (rl_jobs t)" "relay_inv L cfg s" "life_inv s"
  shows "life_inv t \<and> phases_follow (rl_db s) (rl_db t)"
  using assms
proof (induction rule: relay_step.induct)
  case (plain_request ep D lr req s rep db')
  then show ?case using life_plain_request [of s L cfg ep ver D lr req rep db'] by simp
next
  case (issue_nonce v now s r db')
  then show ?case using generate_nonce_frame [of cfg v now "rl_db s"] by (intro life_frame) auto
next
  case (prune now s r db')
  then show ?case by (intro life_frame) (auto simp: prune_round_def prune_nonces_def)
next
  case (order_close s js D acct ids ks r db')
  then show ?case using life_order_close [of s L cfg js D acct ids ks r db'] by simp
next
  case (ack_open s js payload acct ks i plan)
  then show ?case using life_ack_open [of s js "Verified payload acct" ks i acct plan] by (simp add: phases_follow_refl)
next
  case (ack_close s js plan ks res ts db')
  then show ?case using life_ack_close [of s L cfg js plan ks] by (auto simp: ack_commit_Inr)
next
  case (finalize_close s js plan ks res ts db')
  have "distinct (map o_id (orders (rl_db s)))"
    using finalize_close(4) by (auto simp: relay_inv_def skel_wf_def skeleton_def ostat_def comp_def)
  with finalize_close life_finalize_close [of s js plan ks cfg res ts db'] show ?case by simp
next
  case (finalize_lost s js plan ks e db')
  then have "db' = rl_db s" by (auto dest: finalize_commit_Inl)
  with finalize_lost show ?case by (intro life_frame) auto
next
  case (challenge_start s js i j ks plan db' ord a)
  have "db' = rl_db s" "rp_order_id plan = j" using challenge_start(2) by (rule rc_begin_plan, simp)+
  with challenge_start life_swap [of s js "Task (RunChallenge i j)" ks j Checking db' "[Begun plan (a_id a) (a_public_key a)]" "[Validating plan]"]
  show ?case by (simp add: dispatches_def)
next
  case (challenge_stop s js i j ks r db')
  then show ?case using life_stopped [of s L cfg js i j ks r db'] by simp
next
  case (challenge_finish s js plan ks nets outcome)
  then show ?case
    using life_validated [of s L cfg js plan ks "case outcome of Inr _ \<Rightarrow> [Validated plan nets] | Inl _ \<Rightarrow> []" outcome]
    by (simp add: dispatches_def split: sum.splits)
next
  case (issue_start s js i d c ks)
  then show ?case using life_swap [of s js "Task (ProcessFinalize i d c)" ks i Sending "rl_db s" "[]"
        "if pf_begin i (rl_db s) then [Waiting i d c] else []"] by (simp add: dispatches_def)
next
  case (issue_lock s js i d c ks)
  then show ?case using life_swap [of s js "Waiting i d c" ks i Sending "rl_db s" "[]" "[Issuing i d c]"]
    by (simp add: dispatches_def)
next
  case (issue_return s js i d c ks outcome)
  then show ?case using life_swap [of s js "Issuing i d c" ks i Sending "rl_db s"
        "case outcome of Inr pem \<Rightarrow> [Issued i d pem] | Inl _ \<Rightarrow> []" "[Returned i outcome]"]
    by (simp add: dispatches_def split: sum.splits)
next
  case (issue_finish s js i outcome ks D r db')
  then show ?case using life_pf_finish [of s js i outcome ks L bases D r db'] by simp
next
  case (issue_store s js i pem ks D k db')
  have "orders db' = orders (rl_db s)" "authorizations db' = authorizations (rl_db s)" using pf_store_db [OF issue_store(2)] by auto
  with issue_store life_swap [of s js "Returned i (Inr pem)" ks i Sending db' "[]" "[Stored i k]"] show ?case
    by (simp add: dispatches_def)
next
  case (issue_done s js i k ks)
  then show ?case using life_issue [of s js "Stored i k" ks i "pf_done i k (rl_db s)"
        "\<lambda>r. r\<lparr>o_cert_id := Some k, o_status := ''valid''\<rparr>" "''valid''" "[]"] by (simp add: dispatches_def pf_done_def)
next
  case (restart s db')
  then have "db' = reset_processing_orders (rl_db s)" by (auto simp: lifespan_start_def split: if_splits)
  with restart life_restart [of s] show ?case by simp
qed (rule life_frame; auto dest: insert_nonce_frame consume_nonce_value_frame dest!: new_account_commit_db key_change_commit_db)+

lemma life_init: "life_inv relay_init"
  by (simp add: life_inv_def relay_init_def empty_db_def one_authz_def sent_ok_def dispatches_def)

text \<open>The refinement: careful runs are runs of the abstract machine, for every order at once.\<close>

interpretation careful: refinement relay_init "careful_step L cfg ver bases"
    "\<lambda>s. life_inv s \<and> relay_inv L cfg s" "\<lambda>s. order_phase (rl_db s)" phase_step for L cfg ver bases
proof
  show "life_inv relay_init \<and> relay_inv L cfg relay_init" using life_init relay_inv_init by blast
next
  fix s t
  assume "life_inv s \<and> relay_inv L cfg s" "careful_step L cfg ver bases s t"
  then show "life_inv t \<and> relay_inv L cfg t"
    using life_step [of L cfg ver bases s t] relay_step_inv [of L cfg ver bases s t] by (simp add: careful_step_def)
next
  fix s t i p
  assume "life_inv s \<and> relay_inv L cfg s" "careful_step L cfg ver bases s t" "order_phase (rl_db s) i = Some p"
  then show "\<exists>q. order_phase (rl_db t) i = Some q \<and> phase_step\<^sup>=\<^sup>= p q"
    using life_step [of L cfg ver bases s t] by (simp add: careful_step_def phases_follow_def)
qed

text \<open>Careful runs are runs.\<close>

lemma careful_reachable:
  assumes "(careful_step L cfg ver bases)\<^sup>*\<^sup>* relay_init s"
  shows "reachable L cfg ver bases s"
proof -
  have "careful_step L cfg ver bases \<le> relay_step L cfg ver bases" by (auto simp: careful_step_def)
  from rtranclp_mono [OF this] assms show ?thesis unfolding reachable_def by blast
qed

text \<open>An uninterrupted verification, with nothing else going on.\<close>

lemma careful_verified:
  assumes "verify_jws L cfg now req (rl_db s) = (Inr (payload, acct), db')" "rl_jobs s = []"
  shows "(careful_step L cfg ver bases)\<^sup>*\<^sup>* s (s\<lparr>rl_db := db', rl_jobs := [Verified payload acct]\<rparr>)"
proof -
  from verified_stepE [OF assms(1), of ver bases] obtain p where
    "relay_step L cfg ver bases s (s\<lparr>rl_jobs := rl_jobs s @ [Authed p acct]\<rparr>)"
    "relay_step L cfg ver bases (s\<lparr>rl_jobs := rl_jobs s @ [Authed p acct]\<rparr>)
       (s\<lparr>rl_db := db', rl_jobs := rl_jobs s @ [Verified payload acct]\<rparr>)" .
  with assms(2) have "careful_step L cfg ver bases s (s\<lparr>rl_jobs := [Authed p acct]\<rparr>)"
    "careful_step L cfg ver bases (s\<lparr>rl_jobs := [Authed p acct]\<rparr>) (s\<lparr>rl_db := db', rl_jobs := [Verified payload acct]\<rparr>)"
    by (simp_all add: careful_step_def)
  then show ?thesis by (rule converse_rtranclp_into_rtranclp [OF _ r_into_rtranclp])
qed

end
