(* ===== verification/Engine.thy ===== *)
theory Engine
  imports DnsLoader Jws
begin

text \<open>
  The process-wide objects: the settings (\<open>get_settings\<close> of \<^verbatim>\<open>config.py\<close>), the prefix of the account URLs
  (\<^verbatim>\<open>services/jws.py\<close>), the database engine and the session factory (\<^verbatim>\<open>db/engine.py\<close>).  Each is built on
  first use and kept, by \<open>lru_cache\<close> or in a global variable; the locale \<open>memo_cell\<close> states what such a
  cell promises and is interpreted for the four of them.  The lemmas show that a process builds at most
  one engine, from the settings it read first, however its parts ask for it, that the prefix is the one
  of these settings, and that every session is closed again.
\<close>

section \<open>State\<close>

datatype pool = DefaultPool | StaticPool

record engine =
  en_url :: string
  en_pool :: pool
  en_check_same_thread :: "bool option"

record session_factory =
  sf_engine :: engine
  sf_expire_on_commit :: bool

record process =
  pr_env :: environment
  pr_settings :: "settings option"
  pr_prefix :: "string option"
  pr_engine :: "engine option"
  pr_factory :: "session_factory option"
  pr_created :: "engine list"
  pr_open :: nat

type_synonym 'a procm = "(exc, process, 'a) comp"

section \<open>Cached construction\<close>

text \<open>\<open>lru_cache\<close> on a function without arguments: a call that raises is not cached.\<close>

definition cached :: "('s \<Rightarrow> 'a option) \<Rightarrow> ('a \<Rightarrow> 's \<Rightarrow> 's) \<Rightarrow> ('e, 's, 'a) comp \<Rightarrow> ('e, 's, 'a) comp" where
  "cached get put build = (\<lambda>s. case get s of
     Some x \<Rightarrow> (Inr x, s)
   | None \<Rightarrow> (case build s of (Inl e, s') \<Rightarrow> (Inl e, s') | (Inr x, s') \<Rightarrow> (Inr x, put x s')))"

locale memo_cell =
  fixes get :: "'s \<Rightarrow> 'a option" and put :: "'a \<Rightarrow> 's \<Rightarrow> 's" and build :: "('e, 's, 'a) comp"
  assumes get_put: "get (put x s) = Some x"
begin

lemma cached_hit: "get s = Some x \<Longrightarrow> cached get put build s = (Inr x, s)"
  by (simp add: cached_def)

lemma cached_fills: "cached get put build s = (Inr x, s') \<Longrightarrow> get s' = Some x"
  by (auto simp: cached_def get_put split: option.splits prod.splits sum.splits)

lemma cached_stable:
  assumes "cached get put build s = (Inr x, s')"
  shows "cached get put build s' = (Inr x, s')"
  by (rule cached_hit) (rule cached_fills [OF assms])

end

section \<open>The four cells\<close>

text \<open>\<open>load\<close> reads the settings from the environment (pydantic).\<close>

definition get_settings :: "(environment \<Rightarrow> exc + settings) \<Rightarrow> settings procm" where
  "get_settings load = cached pr_settings (\<lambda>x p. p\<lparr>pr_settings := Some x\<rparr>)
     (bindM (readM pr_env) (\<lambda>env. liftM (load env)))"

text \<open>\<open>_account_url_prefix\<close>, with the global variable that holds its value.\<close>

definition cached_url_prefix :: "(environment \<Rightarrow> exc + settings) \<Rightarrow> string procm" where
  "cached_url_prefix load = cached pr_prefix (\<lambda>x p. p\<lparr>pr_prefix := Some x\<rparr>)
     (bindM (get_settings load) (\<lambda>cfg. returnM (account_url_prefix cfg)))"

definition make_engine :: "string \<Rightarrow> engine" where
  "make_engine url =
     (if contains '':memory:'' url
      then \<lparr>en_url = url, en_pool = StaticPool, en_check_same_thread = Some False\<rparr>
      else \<lparr>en_url = url, en_pool = DefaultPool, en_check_same_thread = None\<rparr>)"

definition create_async_engine :: "string \<Rightarrow> engine procm" where
  "create_async_engine url = (\<lambda>p. (Inr (make_engine url), p\<lparr>pr_created := pr_created p @ [make_engine url]\<rparr>))"

definition get_engine :: "(environment \<Rightarrow> exc + settings) \<Rightarrow> engine procm" where
  "get_engine load = cached pr_engine (\<lambda>x p. p\<lparr>pr_engine := Some x\<rparr>)
     (bindM (get_settings load) (\<lambda>cfg. create_async_engine (database_url cfg)))"

definition get_sessionmaker :: "(environment \<Rightarrow> exc + settings) \<Rightarrow> session_factory procm" where
  "get_sessionmaker load = cached pr_factory (\<lambda>x p. p\<lparr>pr_factory := Some x\<rparr>)
     (bindM (get_engine load) (\<lambda>e. returnM \<lparr>sf_engine = e, sf_expire_on_commit = False\<rparr>))"

interpretation settings_cell: memo_cell pr_settings "\<lambda>x p. p\<lparr>pr_settings := Some x\<rparr>"
    "bindM (readM pr_env) (\<lambda>env. liftM (load env))" for load
  by unfold_locales simp

interpretation prefix_cell: memo_cell pr_prefix "\<lambda>x p. p\<lparr>pr_prefix := Some x\<rparr>"
    "bindM (get_settings load) (\<lambda>cfg. returnM (account_url_prefix cfg))" for load
  by unfold_locales simp

interpretation engine_cell: memo_cell pr_engine "\<lambda>x p. p\<lparr>pr_engine := Some x\<rparr>"
    "bindM (get_settings load) (\<lambda>cfg. create_async_engine (database_url cfg))" for load
  by unfold_locales simp

interpretation factory_cell: memo_cell pr_factory "\<lambda>x p. p\<lparr>pr_factory := Some x\<rparr>"
    "bindM (get_engine load) (\<lambda>e. returnM \<lparr>sf_engine = e, sf_expire_on_commit = False\<rparr>)" for load
  by unfold_locales simp

text \<open>The attributes of the module that are built on access.\<close>

datatype attribute = EngineAttr engine | FactoryAttr session_factory

definition module_getattr :: "(environment \<Rightarrow> exc + settings) \<Rightarrow> string \<Rightarrow> attribute procm" where
  "module_getattr load name =
     (if name = ''engine'' then bindM (get_engine load) (\<lambda>e. returnM (EngineAttr e))
      else if name = ''AsyncSessionLocal'' then bindM (get_sessionmaker load) (\<lambda>f. returnM (FactoryAttr f))
      else throwM (PyError ''AttributeError''))"

text \<open>\<open>get_db\<close>: the session is closed when the handler returns and when it raises.\<close>

definition get_db :: "(environment \<Rightarrow> exc + settings) \<Rightarrow> (engine \<Rightarrow> 'a procm) \<Rightarrow> 'a procm" where
  "get_db load handler = bindM (get_sessionmaker load) (\<lambda>f p.
     case handler (sf_engine f) (p\<lparr>pr_open := Suc (pr_open p)\<rparr>) of
       (r, p') \<Rightarrow> (r, p'\<lparr>pr_open := pr_open p' - 1\<rparr>))"

section \<open>One engine per process\<close>

definition process_start :: "environment \<Rightarrow> process" where
  "process_start env = \<lparr>pr_env = env, pr_settings = None, pr_prefix = None, pr_engine = None, pr_factory = None,
     pr_created = [], pr_open = 0\<rparr>"

definition engine_ok :: "process \<Rightarrow> bool" where
  "engine_ok p \<longleftrightarrow> pr_created p = (case pr_engine p of None \<Rightarrow> [] | Some e \<Rightarrow> [e]) \<and>
     (\<forall>e. pr_engine p = Some e \<longrightarrow> (\<exists>cfg. pr_settings p = Some cfg \<and> e = make_engine (database_url cfg))) \<and>
     (\<forall>f. pr_factory p = Some f \<longrightarrow> pr_engine p = Some (sf_engine f)) \<and>
     (\<forall>x. pr_prefix p = Some x \<longrightarrow> (\<exists>cfg. pr_settings p = Some cfg \<and> x = account_url_prefix cfg))"

lemma engine_ok_start: "engine_ok (process_start env)"
  by (simp add: engine_ok_def process_start_def)

lemma get_settings_ok:
  assumes "get_settings load p = (r, p')" "engine_ok p"
  shows "engine_ok p'" "pr_engine p' = pr_engine p" "pr_created p' = pr_created p" "pr_factory p' = pr_factory p"
    "pr_open p' = pr_open p" "pr_env p' = pr_env p" "pr_prefix p' = pr_prefix p" "\<And>cfg. r = Inr cfg \<Longrightarrow> pr_settings p' = Some cfg"
    "\<And>cfg. pr_settings p = Some cfg \<Longrightarrow> pr_settings p' = Some cfg"
  using assms by (auto simp: get_settings_def cached_def bindM_apply engine_ok_def split: option.splits sum.splits)

lemma cached_url_prefix_ok:
  assumes "cached_url_prefix load p = (r, p')" "engine_ok p"
  shows "engine_ok p'" "pr_open p' = pr_open p" "pr_engine p' = pr_engine p"
    "\<And>x. r = Inr x \<Longrightarrow> \<exists>cfg. pr_settings p' = Some cfg \<and> x = account_url_prefix cfg"
proof -
  obtain r1 p1 where s: "get_settings load p = (r1, p1)" by fastforce
  note s1 = get_settings_ok [OF s assms(2)]
  have g: "cached_url_prefix load p = (case pr_prefix p of Some x \<Rightarrow> (Inr x, p)
      | None \<Rightarrow> (case r1 of Inl e \<Rightarrow> (Inl e, p1)
        | Inr cfg \<Rightarrow> (Inr (account_url_prefix cfg), p1\<lparr>pr_prefix := Some (account_url_prefix cfg)\<rparr>)))"
    by (simp add: cached_url_prefix_def cached_def bindM_apply s split: option.splits sum.splits)
  show "engine_ok p'" "pr_open p' = pr_open p" "pr_engine p' = pr_engine p"
    "\<And>x. r = Inr x \<Longrightarrow> \<exists>cfg. pr_settings p' = Some cfg \<and> x = account_url_prefix cfg"
    using assms g s1 by (auto simp: engine_ok_def split: option.splits sum.splits)
qed

lemma get_engine_ok:
  assumes "get_engine load p = (r, p')" "engine_ok p"
  shows "engine_ok p'" "pr_open p' = pr_open p" "pr_env p' = pr_env p" "\<And>e. r = Inr e \<Longrightarrow> pr_engine p' = Some e"
    "\<And>e. pr_engine p = Some e \<Longrightarrow> pr_engine p' = Some e" "pr_factory p' = pr_factory p"
proof -
  obtain r1 p1 where s: "get_settings load p = (r1, p1)" by fastforce
  note s1 = get_settings_ok [OF s assms(2)]
  have g: "get_engine load p = (case pr_engine p of Some e \<Rightarrow> (Inr e, p)
      | None \<Rightarrow> (case r1 of Inl e \<Rightarrow> (Inl e, p1)
        | Inr cfg \<Rightarrow> (Inr (make_engine (database_url cfg)),
            p1\<lparr>pr_created := pr_created p1 @ [make_engine (database_url cfg)], pr_engine := Some (make_engine (database_url cfg))\<rparr>)))"
    by (simp add: get_engine_def cached_def bindM_apply s create_async_engine_def split: option.splits sum.splits)
  show "engine_ok p'" "pr_open p' = pr_open p" "pr_env p' = pr_env p" "\<And>e. r = Inr e \<Longrightarrow> pr_engine p' = Some e"
    "\<And>e. pr_engine p = Some e \<Longrightarrow> pr_engine p' = Some e" "pr_factory p' = pr_factory p"
    using assms g s1 by (auto simp: engine_ok_def split: option.splits sum.splits)
qed

lemma get_sessionmaker_ok:
  assumes "get_sessionmaker load p = (r, p')" "engine_ok p"
  shows "engine_ok p'" "pr_open p' = pr_open p" "pr_env p' = pr_env p"
    "\<And>f. r = Inr f \<Longrightarrow> pr_engine p' = Some (sf_engine f)"
    "\<And>e. pr_engine p = Some e \<Longrightarrow> pr_engine p' = Some e"
proof -
  obtain r1 p1 where s: "get_engine load p = (r1, p1)" by fastforce
  note s1 = get_engine_ok [OF s assms(2)]
  have g: "get_sessionmaker load p = (case pr_factory p of Some f \<Rightarrow> (Inr f, p)
      | None \<Rightarrow> (case r1 of Inl e \<Rightarrow> (Inl e, p1)
        | Inr e \<Rightarrow> (Inr \<lparr>sf_engine = e, sf_expire_on_commit = False\<rparr>,
            p1\<lparr>pr_factory := Some \<lparr>sf_engine = e, sf_expire_on_commit = False\<rparr>\<rparr>)))"
    by (simp add: get_sessionmaker_def cached_def bindM_apply s split: option.splits sum.splits)
  show "engine_ok p'" "pr_open p' = pr_open p" "pr_env p' = pr_env p"
    "\<And>f. r = Inr f \<Longrightarrow> pr_engine p' = Some (sf_engine f)"
    "\<And>e. pr_engine p = Some e \<Longrightarrow> pr_engine p' = Some e"
    using assms g s1 by (auto simp: engine_ok_def split: option.splits sum.splits)
qed

text \<open>
  Any sequence of uses: reading an attribute, running a handler in a session that returns or raises,
  and a change of the environment in between.  The result lists the engines that were handed out.
\<close>

datatype use = ReadSettings | ReadPrefix | UseEngine | ReadAttr string | InSession "exc + unit" | SetEnv environment

definition handed :: "exc + 'a \<Rightarrow> ('a \<Rightarrow> engine) \<Rightarrow> engine list" where
  "handed r f = (case r of Inr x \<Rightarrow> [f x] | Inl _ \<Rightarrow> [])"

definition attribute_engine :: "attribute \<Rightarrow> engine" where
  "attribute_engine a = (case a of EngineAttr e \<Rightarrow> e | FactoryAttr f \<Rightarrow> sf_engine f)"

definition run_use :: "(environment \<Rightarrow> exc + settings) \<Rightarrow> use \<Rightarrow> process \<Rightarrow> engine list \<times> process" where
  "run_use load u p = (case u of
     ReadSettings \<Rightarrow> ([], snd (get_settings load p))
   | ReadPrefix \<Rightarrow> ([], snd (cached_url_prefix load p))
   | UseEngine \<Rightarrow> (case get_engine load p of (r, p') \<Rightarrow> (handed r id, p'))
   | ReadAttr name \<Rightarrow> (case module_getattr load name p of (r, p') \<Rightarrow> (handed r attribute_engine, p'))
   | InSession r \<Rightarrow> (case get_db load (\<lambda>e p'. (map_sum id (\<lambda>_. e) r, p')) p of (r', p') \<Rightarrow> (handed r' id, p'))
   | SetEnv env \<Rightarrow> ([], p\<lparr>pr_env := env\<rparr>))"

fun run_uses :: "(environment \<Rightarrow> exc + settings) \<Rightarrow> use list \<Rightarrow> process \<Rightarrow> engine list \<times> process" where
  "run_uses load [] p = ([], p)"
| "run_uses load (u # us) p =
     (case run_use load u p of (es, p1) \<Rightarrow> (case run_uses load us p1 of (es', p2) \<Rightarrow> (es @ es', p2)))"

text \<open>What a use guarantees: the invariant, no session left open, and only the engine of the process handed out.\<close>

definition use_ok :: "process \<Rightarrow> engine list \<Rightarrow> process \<Rightarrow> bool" where
  "use_ok p es p' \<longleftrightarrow> engine_ok p' \<and> pr_open p' = pr_open p \<and> (\<forall>e \<in> set es. pr_engine p' = Some e) \<and>
     (\<forall>e. pr_engine p = Some e \<longrightarrow> pr_engine p' = Some e)"

lemma module_getattr_ok:
  assumes "module_getattr load name p = (r, p')" "engine_ok p"
  shows "use_ok p (handed r attribute_engine) p'"
proof -
  obtain r1 q1 where g: "get_engine load p = (r1, q1)" by fastforce
  obtain r2 q2 where f: "get_sessionmaker load p = (r2, q2)" by fastforce
  note ok = get_engine_ok [OF g assms(2)] get_sessionmaker_ok [OF f assms(2)]
  show ?thesis
    using assms ok
    by (cases r1; cases r2)
       (auto simp: module_getattr_def bindM_apply g f use_ok_def handed_def attribute_engine_def split: if_splits)
qed

lemma get_db_ok:
  assumes "get_db load (\<lambda>e p'. (map_sum id (\<lambda>_. e) r, p')) p = (r', p')" "engine_ok p"
  shows "use_ok p (handed r' id) p'"
proof -
  obtain r2 q2 where f: "get_sessionmaker load p = (r2, q2)" by fastforce
  note ok = get_sessionmaker_ok [OF f assms(2)]
  show ?thesis
  proof (cases r2)
    case (Inl e)
    with assms(1) ok show ?thesis by (auto simp: get_db_def bindM_apply f handed_def use_ok_def)
  next
    case (Inr x)
    have "p' = q2\<lparr>pr_open := pr_open q2\<rparr>" "set (handed r' id) \<subseteq> {sf_engine x}"
      using assms(1) Inr by (cases r; auto simp: get_db_def bindM_apply f handed_def)+
    with ok(1,2,5) ok(4) [OF Inr] show ?thesis by (auto simp: use_ok_def engine_ok_def)
  qed
qed

lemma run_use_ok:
  assumes "run_use load u p = (es, p')" "engine_ok p"
  shows "use_ok p es p'"
proof (cases u)
  case ReadSettings
  obtain r q where "get_settings load p = (r, q)" by fastforce
  with get_settings_ok [OF this assms(2)] assms(1) ReadSettings show ?thesis by (simp add: run_use_def use_ok_def)
next
  case ReadPrefix
  obtain r q where "cached_url_prefix load p = (r, q)" by fastforce
  with cached_url_prefix_ok [OF this assms(2)] assms(1) ReadPrefix show ?thesis by (simp add: run_use_def use_ok_def)
next
  case UseEngine
  obtain r q where "get_engine load p = (r, q)" by fastforce
  with get_engine_ok [OF this assms(2)] assms(1) UseEngine show ?thesis
    by (auto simp: run_use_def handed_def use_ok_def split: sum.splits)
next
  case (ReadAttr name)
  with assms module_getattr_ok show ?thesis by (fastforce simp: run_use_def split: prod.splits)
next
  case (InSession r)
  with assms get_db_ok show ?thesis by (fastforce simp: run_use_def split: prod.splits)
next
  case (SetEnv env)
  with assms show ?thesis by (auto simp: run_use_def engine_ok_def use_ok_def)
qed

lemma run_uses_ok:
  assumes "run_uses load us p = (es, p')" "engine_ok p"
  shows "use_ok p es p'"
  using assms
proof (induction us arbitrary: p es)
  case (Cons u us)
  obtain es1 p1 es2 where s: "run_use load u p = (es1, p1)" "run_uses load us p1 = (es2, p')" "es = es1 @ es2"
    using Cons.prems(1) by (auto split: prod.splits)
  note a = run_use_ok [OF s(1) Cons.prems(2)]
  note b = Cons.IH [OF s(2)]
  show ?case using a b s(3) by (auto simp: use_ok_def)
qed (simp add: use_ok_def)

text \<open>
  A process builds at most one engine, and everything that asks for one gets that one, built from the
  settings the process read first; no session stays open.
\<close>

lemma one_engine:
  assumes "run_uses load us (process_start env) = (es, p)"
  shows "length (pr_created p) \<le> 1" "\<forall>e \<in> set es. pr_created p = [e] \<and> pr_engine p = Some e" "pr_open p = 0"
    "\<forall>e \<in> set es. \<exists>cfg. pr_settings p = Some cfg \<and> e = make_engine (database_url cfg)"
  using run_uses_ok [OF assms engine_ok_start]
  by (auto simp: use_ok_def engine_ok_def process_start_def split: option.splits)

text \<open>
  Whenever the prefix is asked for, also after the environment changed, it is the one computed from the
  settings in use: keeping it is no different from computing it again.
\<close>

lemma prefix_of_settings:
  assumes "run_uses load us (process_start env) = (es, p)" "cached_url_prefix load p = (Inr x, p')"
  shows "\<exists>cfg. get_settings load p' = (Inr cfg, p') \<and> x = account_url_prefix cfg"
proof -
  have "engine_ok p" using run_uses_ok [OF assms(1) engine_ok_start] by (simp add: use_ok_def)
  from cached_url_prefix_ok(4) [OF assms(2) this refl] obtain cfg
    where "pr_settings p' = Some cfg" "x = account_url_prefix cfg" by blast
  with settings_cell.cached_hit [of p' cfg load] show ?thesis unfolding get_settings_def by blast
qed

text \<open>In-memory databases are per connection, so their engine keeps a single one.\<close>

lemma memory_engine_shared: "contains '':memory:'' url \<longleftrightarrow> en_pool (make_engine url) = StaticPool"
  by (simp add: make_engine_def)

end
