(* ===== verification/Renewal.thy ===== *)
theory Renewal
  imports Serve
begin

text \<open>
  The renewal loop of \<^verbatim>\<open>services/relay_cert.py\<close> over time.  \<open>wake k\<close> is the time at which the sleep
  before round \<open>k\<close> ends.  The loop has no end of its own: \<open>renewal_loop n\<close> is its state after \<open>n\<close> rounds,
  an error when an exception has ended it before.  The lemmas show for how long the loop may fail without
  the relay ever presenting an expired certificate, and that an error of the reload ends it for good.
\<close>

section \<open>The loop\<close>

fun renewal_loop ::
  "'k libs \<Rightarrow> 'p keygen \<Rightarrow> (nat \<Rightarrow> string \<Rightarrow> string \<Rightarrow> exc + string) \<Rightarrow> (string \<Rightarrow> string \<Rightarrow> exc + unit) \<Rightarrow>
   settings \<Rightarrow> (nat \<Rightarrow> datetime) \<Rightarrow> (nat \<Rightarrow> 'p) \<Rightarrow> nat \<Rightarrow> (exc, tls_state, unit) comp" where
  "renewal_loop L K order load cfg wake priv 0 = returnM ()"
| "renewal_loop L K order load cfg wake priv (Suc n) =
     bindM (renewal_loop L K order load cfg wake priv n)
       (\<lambda>_. renewal_round L K (order n) load cfg (wake n) (priv n))"

text \<open>The answer of the authority in round \<open>k\<close>.\<close>

definition round_order ::
  "'p keygen \<Rightarrow> (nat \<Rightarrow> string \<Rightarrow> string \<Rightarrow> exc + string) \<Rightarrow> settings \<Rightarrow> (nat \<Rightarrow> 'p) \<Rightarrow> nat \<Rightarrow> exc + string" where
  "round_order K order cfg priv k = order k (relay_domain cfg) (kg_csr K (priv k) (relay_domain cfg))"

text \<open>The pair in use is the pair on disk, and its certificate is good until \<open>until\<close>.\<close>

definition presents :: "'k libs \<Rightarrow> settings \<Rightarrow> tls_state \<Rightarrow> datetime \<Rightarrow> bool" where
  "presents L cfg s until \<longleftrightarrow> (\<exists>pem key sn. tl_live s = Some (pem, key) \<and> text_at (tl_files s) (cert_path cfg) = Some pem \<and>
     pem_leaf L pem = Some (sn, until))"

lemma presents_remaining:
  "presents L cfg s until \<Longrightarrow> relay_cert_remaining L cfg now (tl_files s) = Some (until - now)"
  by (auto simp: presents_def relay_cert_remaining_def text_at_def split: option.splits)

text \<open>What a round does: nothing, nothing because the authority failed, or a new pair everywhere.\<close>

lemma renewal_round_presents:
  assumes "presents L cfg s until" "renewal_round L K order load cfg now priv s = (r, t)"
    "\<And>pem. order (relay_domain cfg) (kg_csr K priv (relay_domain cfg)) = Inr pem \<Longrightarrow>
       load pem (kg_pem K priv) = Inr () \<and> (\<exists>sn na. pem_leaf L pem = Some (sn, na) \<and> now + renew_threshold \<le> na)"
  shows "r = Inr () \<and> ((t = s \<and> now + renew_threshold \<le> until) \<or>
    (t = s \<and> (\<exists>e. order (relay_domain cfg) (kg_csr K priv (relay_domain cfg)) = Inl e)) \<or>
    (\<exists>na. presents L cfg t na \<and> now + renew_threshold \<le> na))"
proof -
  note rem = presents_remaining [OF assms(1), of now]
  consider "now + renew_threshold \<le> until" | e where "order (relay_domain cfg) (kg_csr K priv (relay_domain cfg)) = Inl e"
    | pem where "until - now < renew_threshold" "order (relay_domain cfg) (kg_csr K priv (relay_domain cfg)) = Inr pem"
    by (cases "order (relay_domain cfg) (kg_csr K priv (relay_domain cfg))") fastforce+
  then show ?thesis
  proof cases
    case 1
    then have "renewal_round L K order load cfg now priv s = (Inr (), s)" using rem by (intro renewal_round_idle) auto
    with 1 assms(2) show ?thesis by auto
  next
    case (2 e)
    from renewal_round_failed [of order cfg K priv e L load now s, OF this] assms(2) 2 show ?thesis by auto
  next
    case (3 pem)
    obtain sn na where p: "load pem (kg_pem K priv) = Inr ()" "pem_leaf L pem = Some (sn, na)" "now + renew_threshold \<le> na"
      using assms(3) [OF 3(2)] by blast
    note renewed = renewal_round_renews [OF rem 3 p(1) assms(2)]
    moreover have "tl_live s \<noteq> None" using assms(1) by (auto simp: presents_def)
    ultimately have "presents L cfg t na" using p(2) by (auto simp: presents_def)
    with renewed p(3) show ?thesis by blast
  qed
qed

section \<open>The certificate in use never expires\<close>

text \<open>
  Rounds come at most \<open>period\<close> apart, of any \<open>m\<close> consecutive attempts one succeeds, and what is issued is
  loadable and good for longer than the threshold.  \<open>g\<close> is the last round after which the certificate
  had the threshold left; since then every attempt has failed.
\<close>

lemma renewal_loop_inv:
  assumes start: "presents L cfg s until" "now + renew_threshold \<le> until"
    and issued: "\<And>k pem. round_order K order cfg priv k = Inr pem \<Longrightarrow>
       load pem (kg_pem K (priv k)) = Inr () \<and> (\<exists>sn na. pem_leaf L pem = Some (sn, na) \<and> wake k + renew_threshold \<le> na)"
  shows "\<exists>t na g. renewal_loop L K order load cfg wake priv n s = (Inr (), t) \<and> presents L cfg t na \<and> g \<le> n \<and>
    (case g of 0 \<Rightarrow> now | Suc j \<Rightarrow> wake j) + renew_threshold \<le> na \<and>
    (\<forall>k. g \<le> k \<longrightarrow> k < n \<longrightarrow> (\<exists>e. round_order K order cfg priv k = Inl e))"
proof (induction n)
  case 0
  with start show ?case by (auto intro: exI [of _ 0])
next
  case (Suc n)
  then obtain t na g where t: "renewal_loop L K order load cfg wake priv n s = (Inr (), t)" "presents L cfg t na" "g \<le> n"
    "(case g of 0 \<Rightarrow> now | Suc j \<Rightarrow> wake j) + renew_threshold \<le> na"
    "\<forall>k. g \<le> k \<longrightarrow> k < n \<longrightarrow> (\<exists>e. round_order K order cfg priv k = Inl e)" by blast
  obtain r u where u: "renewal_round L K (order n) load cfg (wake n) (priv n) t = (r, u)" by fastforce
  have loop: "renewal_loop L K order load cfg wake priv (Suc n) s = (r, u)" by (simp add: bindM_apply t(1) u)
  have "r = Inr () \<and> ((u = t \<and> wake n + renew_threshold \<le> na) \<or> (u = t \<and> (\<exists>e. round_order K order cfg priv n = Inl e)) \<or>
      (\<exists>na. presents L cfg u na \<and> wake n + renew_threshold \<le> na))"
    unfolding round_order_def by (rule renewal_round_presents [OF t(2) u]) (use issued [of n] in \<open>simp add: round_order_def\<close>)
  then consider "r = Inr ()" "u = t" "wake n + renew_threshold \<le> na" | e where "r = Inr ()" "u = t" "round_order K order cfg priv n = Inl e"
    | na' where "r = Inr ()" "presents L cfg u na'" "wake n + renew_threshold \<le> na'" by blast
  then show ?case
  proof cases
    case 1
    with t(2) loop show ?thesis by (intro exI [of _ u] exI [of _ na] exI [of _ "Suc n"]) auto
  next
    case 2
    with t loop show ?thesis
      by (intro exI [of _ u] exI [of _ na] exI [of _ g]) (auto simp: less_Suc_eq)
  next
    case 3
    with loop show ?thesis by (intro exI [of _ u] exI [of _ na'] exI [of _ "Suc n"]) auto
  qed
qed

lemma wake_bound:
  assumes "wake 0 \<le> now + period" "\<And>k. wake (Suc k) \<le> wake k + period"
  shows "wake (g + d) \<le> (case g of 0 \<Rightarrow> now | Suc j \<Rightarrow> wake j) + int (Suc d) * period"
proof (induction d)
  case 0
  show ?case using assms(1) assms(2) [of "g - 1"] by (cases g) auto
next
  case (Suc d)
  have "wake (g + Suc d) \<le> wake (g + d) + period" using assms(2) [of "g + d"] by simp
  with Suc show ?case by (simp add: algebra_simps)
qed

lemma renewal_keeps_valid:
  assumes start: "presents L cfg s until" "now + renew_threshold \<le> until"
    and issued: "\<And>k pem. round_order K order cfg priv k = Inr pem \<Longrightarrow>
       load pem (kg_pem K (priv k)) = Inr () \<and> (\<exists>sn na. pem_leaf L pem = Some (sn, na) \<and> wake k + renew_threshold \<le> na)"
    and often: "\<And>k. \<exists>j < m. \<exists>pem. round_order K order cfg priv (k + j) = Inr pem"
    and time: "wake 0 \<le> now + period" "\<And>k. wake (Suc k) \<le> wake k + period" "0 \<le> period" "int m * period \<le> renew_threshold"
  shows "\<exists>t na. renewal_loop L K order load cfg wake priv n s = (Inr (), t) \<and> presents L cfg t na \<and> wake n \<le> na"
proof -
  obtain t na g where t: "renewal_loop L K order load cfg wake priv n s = (Inr (), t)" "presents L cfg t na" "g \<le> n"
    "(case g of 0 \<Rightarrow> now | Suc j \<Rightarrow> wake j) + renew_threshold \<le> na"
    "\<forall>k. g \<le> k \<longrightarrow> k < n \<longrightarrow> (\<exists>e. round_order K order cfg priv k = Inl e)"
    using renewal_loop_inv [of L cfg s until now K order priv load wake n, OF start issued] by blast
  obtain j pem where j: "j < m" "round_order K order cfg priv (g + j) = Inr pem" using often [of g] by blast
  have "\<not> g + j < n" using t(5) j(2) by (metis Inl_Inr_False le_add1)
  then have "Suc (n - g) \<le> m" using j(1) t(3) by simp
  then have "int (Suc (n - g)) * period \<le> int m * period" using time(3) by (intro mult_right_mono) simp_all
  moreover have "wake n \<le> (case g of 0 \<Rightarrow> now | Suc j \<Rightarrow> wake j) + int (Suc (n - g)) * period"
    using wake_bound [of wake now period g "n - g", OF time(1,2)] t(3) by simp
  ultimately have "wake n \<le> na" using time(4) t(4) by linarith
  with t(1,2) show ?thesis by blast
qed

section \<open>An error of the reload ends the loop\<close>

lemma renewal_loop_dead:
  assumes "renewal_loop L K order load cfg wake priv n s = (Inl e, t)" "n \<le> n'"
  shows "renewal_loop L K order load cfg wake priv n' s = (Inl e, t)"
  using assms(2,1) by (induction n' rule: dec_induct) (simp_all add: bindM_apply)

text \<open>
  The renewed pair is on disk, the old one stays in use, and no later round changes anything.
\<close>

lemma failed_reload_stops_renewal:
  assumes "presents L cfg s until" "until - wake 0 < renew_threshold" "round_order K order cfg priv 0 = Inr pem"
    "load pem (kg_pem K (priv 0)) = Inl e"
  shows "\<exists>t. tl_live t = tl_live s \<and> text_at (tl_files t) (cert_path cfg) = Some pem \<and>
    (\<forall>n. renewal_loop L K order load cfg wake priv (Suc n) s = (Inl e, t))"
proof -
  let ?fs = "write_relay_cert (cert_path cfg) (key_path cfg) pem (kg_pem K (priv 0)) (tl_files s)"
  obtain c where c: "?fs (cert_path cfg) = Some c" "f_text c = pem"
    using write_relay_cert_result(1) [of cfg pem "kg_pem K (priv 0)" "tl_files s"] by auto
  have "renewal_round L K (order 0) load cfg (wake 0) (priv 0) s = reload_context load cfg (s\<lparr>tl_files := ?fs\<rparr>)"
    using presents_remaining [OF assms(1), of "wake 0"] assms(2,3)
    by (simp add: renewal_round_def issue_relay_cert_def round_order_def)
  also have "\<dots> = (Inl e, s\<lparr>tl_files := ?fs\<rparr>)"
    using assms(1,4) c write_relay_cert_result(2) [of cfg pem "kg_pem K (priv 0)" "tl_files s"]
    by (auto simp: reload_context_def presents_def)
  finally have one: "renewal_loop L K order load cfg wake priv (Suc 0) s = (Inl e, s\<lparr>tl_files := ?fs\<rparr>)" by (simp add: bindM_apply)
  show ?thesis
    by (rule exI [of _ "s\<lparr>tl_files := ?fs\<rparr>"]) (use renewal_loop_dead [OF one] c in \<open>simp_all add: text_at_def del: renewal_loop.simps\<close>)
qed

end
