(* ===== verification/Demo.thy ===== *)
theory Demo
  imports Session Startup Lifecycle Engine Renewal
begin

text \<open>
  A complete run of the relay, step by step: four nonces, registration, an order, the challenge, its
  validation, the finalize request and the start of the issuance.  The state it ends in and a few
  states on the way are the concrete inputs on which the theorems are exercised.
\<close>

abbreviation demo_step :: "relay \<Rightarrow> relay \<Rightarrow> bool" where
  "demo_step \<equiv> careful_step demo_libs demo_cfg ''1'' (\<lambda>_. [])"

definition demo_state :: "database \<Rightarrow> job list \<Rightarrow> event list \<Rightarrow> relay" where
  "demo_state db js es = \<lparr>rl_db = db, rl_jobs = js, rl_log = es\<rparr>"


definition demo_expected :: string where
  "demo_expected = ''tok.'' @ b64url_encode demo_sig"

definition demo_net :: network where
  "demo_net = \<lparr>getaddrinfo = (\<lambda>_. Addresses [(True, ''10.0.0.5'')]),
     http_get = (\<lambda>_ _. HttpResponse 200 demo_expected)\<rparr>"

definition demo_plan :: rc_plan where
  "demo_plan = \<lparr>rp_authz_id = ''az'', rp_order_id = ''ord'', rp_domain = ''a.test'', rp_token = ''tok'',
     rp_expected = demo_expected\<rparr>"

definition demo_ack_plan :: ack_plan where
  "demo_ack_plan = \<lparr>ap_authz_id = ''az'', ap_order_id = ''ord'', ap_authz_pending = True,
     ap_order_pending = True, ap_token = ''tok''\<rparr>"

definition demo_finalize_plan :: finalize_plan where
  "demo_finalize_plan = \<lparr>fp_order_id = ''ord'', fp_domain = ''a.test'', fp_csr_der = ''csr'',
     fp_identifiers = [identifier_json demo_identifier], fp_expires_at = Some (days 1)\<rparr>"

lemmas nonce_eval = consume_nonce_cases nonce_live_def nonce_match_def nonce_cutoff_def seconds_def tupdate_def

lemma demo_steps_nonces:
  "demo_step\<^sup>*\<^sup>* relay_init
     (demo_state (demo_db [demo_nonce ''n1'', demo_nonce ''n2'', demo_nonce ''n3'', demo_nonce ''n4''] [] [] []) [] [])"
proof -
  have step: "demo_step (demo_state (demo_db ns [] [] []) [] []) (demo_state (demo_db (ns @ [demo_nonce v]) [] [] []) [] [])"
    if "v \<notin> set (map n_value ns)" "length ns < 10000" for ns v
    using relay_step.issue_nonce [of demo_cfg v 0 "demo_state (demo_db ns [] [] []) [] []" "Inr (Some v)"
        "demo_db (ns @ [demo_nonce v]) [] [] []"] that
    by (simp add: careful_step_def demo_state_def generate_nonce_cases demo_defs)
  have "relay_init = demo_state (demo_db [] [] [] []) [] []"
    by (simp add: relay_init_def demo_state_def demo_db_def empty_db_def)
  then show ?thesis
    using step [of "''n1''" "[]"] step [of "''n2''" "[demo_nonce ''n1'']"]
      step [of "''n3''" "[demo_nonce ''n1'', demo_nonce ''n2'']"]
      step [of "''n4''" "[demo_nonce ''n1'', demo_nonce ''n2'', demo_nonce ''n3'']"]
    by (simp add: demo_nonce_def)
qed

lemma demo_plain:
  assumes "route demo_libs demo_cfg ''1'' D lr ep req db = (rep, db')" "\<not> splits_up ep"
  shows "demo_step (demo_state db [] es) (demo_state db' [] es)"
  using relay_step.plain_request [of ep demo_libs demo_cfg "''1''" D lr req "demo_state db [] es" rep db'] assms
  by (simp add: careful_step_def demo_state_def)

lemma demo_verified:
  assumes "verify_jws demo_libs demo_cfg now req db = (Inr (payload, acct), db')"
  shows "demo_step\<^sup>*\<^sup>* (demo_state db [] es) (demo_state db' [Verified payload acct] es)"
  using careful_verified [of demo_libs demo_cfg now req "demo_state db [] es" payload acct db' "''1''" "\<lambda>_. []"] assms
  by (simp add: demo_state_def)

lemma demo_ack_open:
  assumes "ack_prepare i acct db = Inr plan"
  shows "demo_step (demo_state db [Verified payload acct] es) (demo_state db [AckOpen plan] es)"
  using relay_step.ack_open [where s = "demo_state db [Verified payload acct] es" and js = "[]" and ks = "[]" and plan = plan
      and cfg = demo_cfg and L = demo_libs and ver = "''1''" and bases = "\<lambda>_. []" and i = i and acct = acct
      and payload = payload] assms
  by (simp add: careful_step_def demo_state_def)

lemma demo_finalize_open:
  assumes "finalize_prepare demo_libs i payload acct db = Inr plan"
  shows "demo_step (demo_state db [Verified payload acct] es) (demo_state db [FinalizeOpen plan] es)"
  using relay_step.finalize_open [where s = "demo_state db [Verified payload acct] es" and js = "[]" and ks = "[]" and plan = plan
      and cfg = demo_cfg and L = demo_libs and ver = "''1''" and bases = "\<lambda>_. []" and i = i and acct = acct
      and payload = payload] assms
  by (simp add: careful_step_def demo_state_def)

lemma demo_ack_close:
  assumes "ack_commit demo_cfg plan db = (Inr (res, ts), db')" "length ts = 1"
  shows "demo_step (demo_state db [AckOpen plan] es) (demo_state db' (map Task ts) es)"
  using relay_step.ack_close [where s = "demo_state db [AckOpen plan] es" and js = "[]" and ks = "[]" and plan = plan
      and cfg = demo_cfg and L = demo_libs and ver = "''1''" and bases = "\<lambda>_. []" and res = res and ts = ts and db' = db'] assms
  by (cases ts) (simp_all add: careful_step_def demo_state_def)

lemma demo_finalize_close:
  assumes "finalize_commit demo_cfg plan db = (Inr (res, ts), db')" "length ts = 1"
  shows "demo_step (demo_state db [FinalizeOpen plan] es) (demo_state db' (map Task ts) (es @ dispatched ts))"
  using relay_step.finalize_close [where s = "demo_state db [FinalizeOpen plan] es" and js = "[]" and ks = "[]" and plan = plan
      and cfg = demo_cfg and L = demo_libs and ver = "''1''" and bases = "\<lambda>_. []" and res = res and ts = ts and db' = db'] assms
  by (cases ts) (simp_all add: careful_step_def demo_state_def)

lemma demo_verify_new_account:
  "verify_jws demo_libs demo_cfg 0 demo_new_account
     (demo_db [demo_nonce ''n1'', demo_nonce ''n2'', demo_nonce ''n3'', demo_nonce ''n4''] [] [] []) =
   (Inr (JObj [], ''''), demo_db [demo_spent ''n1'', demo_nonce ''n2'', demo_nonce ''n3'', demo_nonce ''n4''] [] [] [])"
  unfolding demo_new_account_def
  by (subst verify_make_request [where alg = "''ES256''" and n = "''n1''" and key = demo_sig and acct = "''''"])
     (auto simp: demo_header_ok demo_jwk_def demo_key_def demo_resolve_jwk [unfolded demo_jwk_def demo_key_def]
       nonce_eval demo_defs)

lemma demo_verify_kid:
  assumes "accounts db = [demo_account]" "nonce_live demo_cfg 0 db n" "wf_json payload"
  shows "verify_jws demo_libs demo_cfg 0 (make_request url (demo_header url n demo_kid) payload demo_sig) db =
    (Inr (payload, ''acct''), snd (consume_nonce demo_cfg 0 n db))"
  using assms
  by (intro verify_make_request [where key = demo_sig and alg = "''ES256''"])
     (simp_all add: demo_header_ok demo_resolve_kid, simp_all add: demo_kid_def demo_header_ok)

lemma demo_route_account:
  "route demo_libs demo_cfg ''1'' (demo_draws [''acct'']) (\<lambda>_ _. Inr ()) NewAccount demo_new_account
      (demo_db [demo_nonce ''n1'', demo_nonce ''n2'', demo_nonce ''n3'', demo_nonce ''n4''] [] [] []) =
    (Inr (Inr (account_reply demo_cfg ''acct'' ''valid'' None 201), []),
     demo_db [demo_spent ''n1'', demo_nonce ''n2'', demo_nonce ''n3'', demo_nonce ''n4''] [demo_account] [] [])"
proof -
  have "bindE (request_dict demo_new_account) extract_jwk = Inr demo_key"
    unfolding demo_new_account_def
    by (rule extract_jwk_make) (simp_all add: demo_header_def demo_jwk_def demo_key_def)
  with demo_verify_new_account show ?thesis
    by (simp add: route_def plain_def new_account_def new_account_body_def bindM_apply register_account_def
        find_account_by_key_def scalar_one_or_none_def insert_account_def tinsert_def new_account_row_def
        dump_contact_def demo_draws_def demo_db_def demo_account_def demo_sig_def)
qed

lemma demo_step_account:
  "demo_step
     (demo_state (demo_db [demo_nonce ''n1'', demo_nonce ''n2'', demo_nonce ''n3'', demo_nonce ''n4''] [] [] []) [] [])
     (demo_state (demo_db [demo_spent ''n1'', demo_nonce ''n2'', demo_nonce ''n3'', demo_nonce ''n4''] [demo_account] [] []) [] [])"
  by (rule demo_plain [OF demo_route_account]) (simp add: splits_up_def)

definition demo_order_payload :: json where
  "demo_order_payload = JObj [(''identifiers'', JArr [identifier_json demo_identifier])]"

lemma demo_accepted:
  assumes "orders db = []" "authorizations db = []" "allowed_domain_list cfg = []"
  shows "order_accepted demo_libs cfg (demo_draws [''ord'', ''az'']) demo_order_payload acct db demo_identifier"
  using assms linorder_le_less_linear [of "order_rate_limit cfg" 0]
  by (simp add: order_accepted_def recent_orders_def tcount_def demo_order_payload_def demo_draws_def)
     (simp add: demo_identifier_def strip_def lstrip_if_def rstrip_if_def py_space_def)

lemma demo_cfg_no_policy: "allowed_domain_list (demo_cfg\<lparr>order_rate_limit := n\<rparr>) = []"
  by (simp add: demo_cfg_def default_settings_def allowed_domain_list_def)

lemma demo_step_order:
  "demo_step
     (demo_state (demo_db [demo_spent ''n1'', demo_nonce ''n2'', demo_nonce ''n3'', demo_nonce ''n4''] [demo_account] [] []) [] [])
     (demo_state (demo_db [demo_spent ''n1'', demo_spent ''n2'', demo_nonce ''n3'', demo_nonce ''n4''] [demo_account]
        [demo_order ''pending''] [demo_authz ''pending'']) [] [])"
proof -
  let ?db = "demo_db [demo_spent ''n1'', demo_nonce ''n2'', demo_nonce ''n3'', demo_nonce ''n4''] [demo_account] [] []"
  let ?db1 = "demo_db [demo_spent ''n1'', demo_spent ''n2'', demo_nonce ''n3'', demo_nonce ''n4''] [demo_account] [] []"
  let ?D = "demo_draws [''ord'', ''az'']" and ?p = "JObj [(''identifiers'', JArr [identifier_json demo_identifier])]"
  have v: "verify_jws demo_libs demo_cfg 0 demo_new_order ?db = (Inr (?p, ''acct''), ?db1)"
    unfolding demo_new_order_def by (subst demo_verify_kid) (simp_all add: nonce_eval demo_defs)
  have "order_accepted demo_libs demo_cfg ?D ?p ''acct'' ?db1 demo_identifier"
    using demo_accepted [of ?db1 demo_cfg "''acct''"] by (simp add: demo_db_def demo_order_payload_def)
  then have "new_order_body demo_libs demo_cfg ?D demo_new_order (?p, ''acct'') ?db1 =
      (Inr (new_order_response demo_cfg ?D demo_identifier), with_order ?D ''acct'' demo_identifier ?db1)"
    by (subst new_order_body_Inr) blast
  moreover have "with_order ?D ''acct'' demo_identifier ?db1 =
      demo_db [demo_spent ''n1'', demo_spent ''n2'', demo_nonce ''n3'', demo_nonce ''n4''] [demo_account]
        [demo_order ''pending''] [demo_authz ''pending'']"
    by (simp add: with_order_def demo_db_def demo_order_def demo_authz_def new_order_row_def new_authz_row_def)
  ultimately have "route demo_libs demo_cfg ''1'' ?D (\<lambda>_ _. Inr ()) NewOrder demo_new_order ?db =
      (Inr (Inr (new_order_response demo_cfg ?D demo_identifier), []),
       demo_db [demo_spent ''n1'', demo_spent ''n2'', demo_nonce ''n3'', demo_nonce ''n4''] [demo_account]
        [demo_order ''pending''] [demo_authz ''pending''])"
    using v by (simp add: route_def plain_def new_order_def bindM_apply demo_draws_def)
  then show ?thesis by (rule demo_plain) (simp add: splits_up_def)
qed

text \<open>From here on the nonces \<open>n1\<close> and \<open>n2\<close> are spent, the account and the order exist.\<close>

abbreviation demo_at :: "nonce_row \<Rightarrow> nonce_row \<Rightarrow> string \<Rightarrow> string \<Rightarrow> database" where
  "demo_at a b so sz \<equiv> demo_db [demo_spent ''n1'', demo_spent ''n2'', a, b] [demo_account] [demo_order so] [demo_authz sz]"

lemma demo_order_sel [simp]:
  "o_id (demo_order st) = ''ord''" "o_account_id (demo_order st) = ''acct''" "o_status (demo_order st) = st"
  "o_identifiers (demo_order st) = dump_identifiers [demo_identifier]" "o_expires_at (demo_order st) = Some (days 1)"
  by (simp_all add: demo_order_def demo_draws_def)

lemma demo_authz_sel [simp]:
  "z_id (demo_authz st) = ''az''" "z_order_id (demo_authz st) = ''ord''" "z_identifier (demo_authz st) = ''a.test''"
  "z_status (demo_authz st) = st" "z_challenge_token (demo_authz st) = Some ''tok''"
  by (simp_all add: demo_authz_def demo_draws_def demo_identifier_def)

lemma demo_account_sel [simp]: "a_id demo_account = ''acct''" "a_public_key demo_account = demo_sig"
  by (simp_all add: demo_account_def)

lemma demo_get [simp]:
  "get_order_row ''ord'' (demo_at a b so sz) = Some (demo_order so)"
  "get_authz_row ''az'' (demo_at a b so sz) = Some (demo_authz sz)"
  "get_account ''acct'' (demo_at a b so sz) = Some demo_account"
  by (simp_all add: get_order_row_def get_authz_row_def get_account_def tget_def demo_db_def demo_account_def)

lemma demo_upd [simp]:
  "update_order ''ord'' (\<lambda>r. r\<lparr>o_status := st\<rparr>) (demo_at a b so sz) = demo_at a b st sz"
  "update_authz ''az'' (\<lambda>r. r\<lparr>z_status := st\<rparr>) (demo_at a b so sz) = demo_at a b so st"
  by (simp_all add: update_order_def update_authz_def tupdate_def demo_db_def)
     (simp_all add: demo_order_def demo_authz_def)

lemma demo_step_ack:
  "demo_step\<^sup>*\<^sup>* (demo_state (demo_at (demo_nonce ''n3'') (demo_nonce ''n4'') ''pending'' ''pending'') [] [])
     (demo_state (demo_at (demo_spent ''n3'') (demo_nonce ''n4'') ''processing'' ''processing'')
        [Task (RunChallenge ''az'' ''ord'')] [])"
proof -
  have v: "verify_jws demo_libs demo_cfg 0 demo_ack (demo_at (demo_nonce ''n3'') (demo_nonce ''n4'') ''pending'' ''pending'') =
      (Inr (JObj [], ''acct''), demo_at (demo_spent ''n3'') (demo_nonce ''n4'') ''pending'' ''pending'')"
    unfolding demo_ack_def by (subst demo_verify_kid) (simp_all add: nonce_eval demo_defs)
  have p: "ack_prepare ''az'' ''acct'' (demo_at (demo_spent ''n3'') (demo_nonce ''n4'') ''pending'' ''pending'') = Inr demo_ack_plan"
    by (simp add: ack_prepare_def require_authz_owner_def demo_ack_plan_def)
  have c: "ack_commit demo_cfg demo_ack_plan (demo_at (demo_spent ''n3'') (demo_nonce ''n4'') ''pending'' ''pending'') =
      (Inr (Inr (ack_response demo_cfg demo_ack_plan), [RunChallenge ''az'' ''ord'']),
       demo_at (demo_spent ''n3'') (demo_nonce ''n4'') ''processing'' ''processing'')"
    by (simp add: ack_commit_Inr ack_update_def demo_ack_plan_def Let_def)
  note demo_verified [OF v, of "[]"]
  moreover have "demo_step (demo_state (demo_at (demo_spent ''n3'') (demo_nonce ''n4'') ''pending'' ''pending'') [Verified (JObj []) ''acct''] [])
      (demo_state (demo_at (demo_spent ''n3'') (demo_nonce ''n4'') ''pending'' ''pending'') [AckOpen demo_ack_plan] [])"
    by (rule demo_ack_open [OF p])
  moreover have "demo_step (demo_state (demo_at (demo_spent ''n3'') (demo_nonce ''n4'') ''pending'' ''pending'') [AckOpen demo_ack_plan] [])
      (demo_state (demo_at (demo_spent ''n3'') (demo_nonce ''n4'') ''processing'' ''processing'') [Task (RunChallenge ''az'' ''ord'')] [])"
    using demo_ack_close [OF c, of "[]"] by simp
  ultimately show ?thesis by (simp add: rtranclp.rtrancl_into_rtrancl)
qed

lemma demo_expected_eval: "demo_expected = ''tok.eyJrdHkiOiJvY3QifQ''"
  by code_simp

lemma demo_address: "\<not> is_blocked ''10.0.0.5''"
  by (simp add: is_blocked_iff ip_address_def parse_ipv4_def parse_octet_def is_digit_def char_digit_def
      of_digits_def blocked_addr_def)

lemma demo_fetch: "fetch_and_compare (HttpResponse 200 demo_expected) ''a.test'' demo_expected 5 = Inr ()"
  unfolding demo_expected_eval by code_simp

lemma demo_validate: "validate_http01 demo_cfg (\<lambda>_. demo_net) ''a.test'' ''tok'' demo_expected = Inr ()"
  by (simp add: validate_http01_def numeral_3_eq_3 http01_attempt_def attempt_validation_def resolve_and_check_def
      demo_net_def demo_address demo_fetch)

lemma demo_step_challenge:
  "demo_step\<^sup>*\<^sup>*
     (demo_state (demo_at a b ''processing'' ''processing'') [Task (RunChallenge ''az'' ''ord'')] [])
     (demo_state (demo_at a b ''ready'' ''valid'') []
        [Begun demo_plan ''acct'' demo_sig, Validated demo_plan (\<lambda>_. demo_net)])"
proof -
  let ?db = "demo_at a b ''processing'' ''processing''"
  have b: "rc_begin demo_libs ''az'' ''ord'' ?db = (Inr (Some demo_plan), ?db)"
    by (simp add: rc_begin_def key_authorization_def demo_plan_def demo_expected_def)
  have f: "rc_finish ''az'' ''ord'' (Inr ()) ?db = demo_at a b ''ready'' ''valid''"
    by (subst rc_finish_success_eq [of _ _ "demo_authz ''processing''" _ "demo_order ''processing''"])
       (simp_all, simp add: demo_db_def)
  have "demo_step (demo_state ?db [Task (RunChallenge ''az'' ''ord'')] [])
      (demo_state ?db [Validating demo_plan] [Begun demo_plan ''acct'' demo_sig])"
    using b relay_step.challenge_start [of "demo_state ?db [Task (RunChallenge ''az'' ''ord'')] []" "[]" "''az''" "''ord''" "[]"
        demo_libs demo_plan ?db "demo_order ''processing''" demo_account demo_cfg "''1''" "\<lambda>_. []"]
    by (simp add: careful_step_def demo_state_def)
  moreover have "demo_step (demo_state ?db [Validating demo_plan] [Begun demo_plan ''acct'' demo_sig])
      (demo_state (demo_at a b ''ready'' ''valid'') []
        [Begun demo_plan ''acct'' demo_sig, Validated demo_plan (\<lambda>_. demo_net)])"
    using f demo_validate
      relay_step.challenge_finish [of "demo_state ?db [Validating demo_plan] [Begun demo_plan ''acct'' demo_sig]" "[]" demo_plan "[]"
        demo_cfg "\<lambda>_. demo_net" "Inr ()" demo_libs "''1''" "\<lambda>_. []"]
    by (simp add: careful_step_def demo_state_def demo_plan_def)
  ultimately show ?thesis by simp
qed

definition demo_log :: "event list" where
  "demo_log = [Begun demo_plan ''acct'' demo_sig, Validated demo_plan (\<lambda>_. demo_net)]"

lemma demo_finalize_prepare:
  "finalize_prepare demo_libs ''ord'' (JObj [(''csr'', JStr (b64url_encode ''csr''))]) ''acct''
     (demo_at a b ''ready'' sz) = Inr demo_finalize_plan"
  by (simp add: finalize_prepare_def require_order_owner_def b64_of_json_def first_domain_def
      demo_finalize_plan_def) (simp add: identifier_json_def demo_identifier_def)

lemma demo_claim: "claim_order ''ord'' (demo_at a b ''ready'' sz) = (Inr 1, demo_at a b ''processing'' sz)"
  by (simp add: claim_order_def Let_def tcount_def tupdate_def demo_db_def) (simp add: demo_order_def)

lemma demo_finalize_commit:
  "finalize_commit demo_cfg demo_finalize_plan (demo_at a b ''ready'' sz) =
     (Inr (finalize_response demo_cfg demo_finalize_plan (demo_at a b ''processing'' sz),
        [ProcessFinalize ''ord'' ''a.test'' ''csr'']), demo_at a b ''processing'' sz)"
  by (simp add: finalize_commit_def demo_finalize_plan_def demo_claim bindM_apply)

lemma demo_step_finalize:
  "demo_step\<^sup>*\<^sup>* (demo_state (demo_at (demo_spent ''n3'') (demo_nonce ''n4'') ''ready'' ''valid'') [] demo_log)
     (demo_state (demo_at (demo_spent ''n3'') (demo_spent ''n4'') ''processing'' ''valid'')
        [Task (ProcessFinalize ''ord'' ''a.test'' ''csr'')] (demo_log @ [Dispatched ''ord'' ''a.test'' ''csr'']))"
proof -
  let ?db1 = "demo_at (demo_spent ''n3'') (demo_spent ''n4'') ''ready'' ''valid''"
  have v: "verify_jws demo_libs demo_cfg 0 demo_finalize (demo_at (demo_spent ''n3'') (demo_nonce ''n4'') ''ready'' ''valid'') =
      (Inr (JObj [(''csr'', JStr (b64url_encode ''csr''))], ''acct''), ?db1)"
    unfolding demo_finalize_def by (subst demo_verify_kid) (simp_all add: nonce_eval demo_defs)
  note demo_verified [OF v, of demo_log]
  moreover have "demo_step (demo_state ?db1 [Verified (JObj [(''csr'', JStr (b64url_encode ''csr''))]) ''acct''] demo_log)
      (demo_state ?db1 [FinalizeOpen demo_finalize_plan] demo_log)"
    by (rule demo_finalize_open [OF demo_finalize_prepare])
  moreover have "demo_step (demo_state ?db1 [FinalizeOpen demo_finalize_plan] demo_log)
      (demo_state (demo_at (demo_spent ''n3'') (demo_spent ''n4'') ''processing'' ''valid'')
        [Task (ProcessFinalize ''ord'' ''a.test'' ''csr'')] (demo_log @ [Dispatched ''ord'' ''a.test'' ''csr'']))"
    using demo_finalize_close [OF demo_finalize_commit] by (simp add: dispatched_def)
  ultimately show ?thesis by (simp add: rtranclp.rtrancl_into_rtrancl)
qed

lemma demo_step_issue:
  "demo_step\<^sup>*\<^sup>* (demo_state (demo_at a b ''processing'' sz) [Task (ProcessFinalize ''ord'' ''a.test'' ''csr'')] es)
     (demo_state (demo_at a b ''processing'' sz) [Issuing ''ord'' ''a.test'' ''csr''] es)"
proof -
  let ?db = "demo_at a b ''processing'' sz"
  have "demo_step (demo_state ?db [Task (ProcessFinalize ''ord'' ''a.test'' ''csr'')] es)
      (demo_state ?db [Waiting ''ord'' ''a.test'' ''csr''] es)"
    using relay_step.issue_start [of "demo_state ?db [Task (ProcessFinalize ''ord'' ''a.test'' ''csr'')] es" "[]"
        "''ord''" "''a.test''" "''csr''" "[]"]
    by (simp add: careful_step_def demo_state_def pf_begin_def)
  moreover have "demo_step (demo_state ?db [Waiting ''ord'' ''a.test'' ''csr''] es)
      (demo_state ?db [Issuing ''ord'' ''a.test'' ''csr''] es)"
    using relay_step.issue_lock [of "demo_state ?db [Waiting ''ord'' ''a.test'' ''csr''] es" "[]"
        "''ord''" "''a.test''" "''csr''" "[]"]
    by (simp add: careful_step_def demo_state_def)
  ultimately show ?thesis by simp
qed

text \<open>The state with the order under issuance, and the state after the certificate arrived.\<close>

definition demo_issuing :: relay where
  "demo_issuing = demo_state (demo_at (demo_spent ''n3'') (demo_spent ''n4'') ''processing'' ''valid'')
     [Issuing ''ord'' ''a.test'' ''csr''] (demo_log @ [Dispatched ''ord'' ''a.test'' ''csr''])"

lemma demo_issuing_run: "demo_step\<^sup>*\<^sup>* relay_init demo_issuing"
proof -
  note chain = demo_steps_nonces demo_step_account demo_step_order demo_step_ack
    demo_step_challenge [of "demo_spent ''n3''" "demo_nonce ''n4''", folded demo_log_def]
    demo_step_finalize demo_step_issue [of "demo_spent ''n3''" "demo_spent ''n4''" "''valid''"
      "demo_log @ [Dispatched ''ord'' ''a.test'' ''csr'']"]
  show ?thesis
    unfolding demo_issuing_def using chain by (meson rtranclp.rtrancl_into_rtrancl rtranclp_trans)
qed

lemma demo_issuing_reachable: "reachable demo_libs demo_cfg ''1'' (\<lambda>_. []) demo_issuing"
  by (rule careful_reachable [OF demo_issuing_run])

definition demo_cert :: cert_row where
  "demo_cert = \<lparr>c_id = ''crt'', c_order_id = ''ord'', c_pem_chain = ''pem'', c_issued_at = 0, c_expires_at = 0,
     c_serial = Some (serial_hex 7)\<rparr>"

definition demo_returned :: relay where
  "demo_returned = demo_issuing\<lparr>rl_jobs := [Returned ''ord'' (Inr ''pem'')],
     rl_log := rl_log demo_issuing @ [Issued ''ord'' ''a.test'' ''pem'']\<rparr>"

definition demo_issued :: relay where
  "demo_issued =
     demo_issuing\<lparr>rl_db := update_order ''ord'' (\<lambda>r. r\<lparr>o_cert_id := Some ''crt'', o_status := ''valid''\<rparr>)
          ((rl_db demo_issuing)\<lparr>certificates := [demo_cert]\<rparr>),
        rl_jobs := [], rl_log := rl_log demo_issuing @ [Issued ''ord'' ''a.test'' ''pem'']\<rparr>"

lemma demo_issued_run: "demo_step\<^sup>*\<^sup>* demo_issuing demo_issued"
proof -
  have "pf_finish demo_libs (\<lambda>_. []) (demo_draws [''crt'']) ''ord'' (Inr ''pem'') (rl_db demo_returned) =
      (Inr (), rl_db demo_issued)"
    by (subst pf_finish_Inr_valid [of _ _ "demo_order ''processing''"])
       (simp_all add: demo_returned_def demo_issuing_def demo_state_def demo_issued_def demo_draws_def new_cert_row_def demo_cert_def
         leaf_serial_hex_def cert_expiry_from_pem_def, simp_all add: demo_db_def)
  then have "demo_step demo_returned demo_issued"
    using relay_step.issue_finish [of demo_returned "[]" "''ord''" "Inr ''pem''" "[]" demo_libs "\<lambda>_. []"
        "demo_draws [''crt'']"]
    by (simp add: careful_step_def demo_issued_def) (simp add: demo_returned_def demo_issuing_def demo_state_def)
  moreover have "demo_step demo_issuing demo_returned"
    using relay_step.issue_return [of demo_issuing "[]" "''ord''" "''a.test''" "''csr''" "[]" demo_libs demo_cfg "''1''" "\<lambda>_. []"
        "Inr ''pem''"]
    by (simp add: careful_step_def demo_returned_def) (simp add: demo_issuing_def demo_state_def)
  ultimately show ?thesis by simp
qed

lemma demo_issued_reachable: "reachable demo_libs demo_cfg ''1'' (\<lambda>_. []) demo_issued"
  using careful_reachable [OF rtranclp_trans [OF demo_issuing_run demo_issued_run]] .

section \<open>A key roll-over\<close>

definition demo_key2 :: json where
  "demo_key2 = JObj [(''kty'', JStr ''new'')]"

definition demo_inner_header :: "(string \<times> json) list" where
  "demo_inner_header = [(''alg'', JStr ''ES256''), (''url'', JStr ''https://relay.test/acme/key-change''), (''jwk'', demo_key2)]"

definition demo_inner_payload :: "(string \<times> json) list" where
  "demo_inner_payload = [(''account'', JStr (account_url demo_cfg ''acct'')), (''oldKey'', demo_key)]"

definition demo_inner :: "(string \<times> json) list" where
  "demo_inner = [(''protected'', JStr (b64url_encode (json_dumps (JObj demo_inner_header)))),
     (''payload'', JStr (b64url_encode (json_dumps (JObj demo_inner_payload)))),
     (''signature'', JStr (b64url_encode (canonical_jwk demo_key2)))]"

definition demo_key_change :: request where
  "demo_key_change = make_request ''https://relay.test/acme/key-change'' [] (JObj demo_inner) demo_sig"

lemma demo_inner_wf:
  "wf_json (JObj demo_inner_header)" "wf_json (JObj demo_inner_payload)"
  by (simp_all add: demo_inner_header_def demo_inner_payload_def demo_key_def demo_key2_def)

lemma demo_verify_inner:
  "verify_inner_jws demo_libs demo_inner (account_url demo_cfg ''acct'') demo_sig ''https://relay.test/acme/key-change'' = Inr demo_key2"
proof -
  note nz = json_dumps_nonempty [OF demo_inner_wf(1), THEN b64url_encode_nonempty]
  have s: "canonical_jwk demo_key2 \<noteq> []" by (simp add: canonical_jwk_def demo_key2_def)
  have k: "jwk_from_json demo_libs demo_key2 = Some (canonical_jwk demo_key2)" by (simp add: demo_key2_def)
  have sel: "dict_get ''protected'' (JStr '''') demo_inner = JStr (b64url_encode (json_dumps (JObj demo_inner_header)))"
    "dict_get ''payload'' (JStr '''') demo_inner = JStr (b64url_encode (json_dumps (JObj demo_inner_payload)))"
    "dict_get ''signature'' (JStr '''') demo_inner = JStr (b64url_encode (canonical_jwk demo_key2))"
    by (simp_all add: demo_inner_def dict_get_def)
  have dec: "decode_json_b64 e (JStr (b64url_encode (json_dumps (JObj demo_inner_header)))) = Inr (JObj demo_inner_header)"
    "decode_json_b64 e (JStr (b64url_encode (json_dumps (JObj demo_inner_payload)))) = Inr (JObj demo_inner_payload)" for e
    using demo_inner_wf by (simp_all add: decode_json_b64_def b64_of_json_def del: wf_json.simps)
  have sig: "inner_signature_ok demo_libs ''ES256'' demo_key2
      (JStr (b64url_encode (json_dumps (JObj demo_inner_header)))) (JStr (b64url_encode (json_dumps (JObj demo_inner_payload))))
      (JStr (b64url_encode (canonical_jwk demo_key2)))"
    using urlsafe_ascii_encode by (simp add: inner_signature_ok_def b64_of_json_def k)
  have hd: "check_alg w (dict_get ''alg'' (JStr '''') demo_inner_header) = Inr ''ES256''"
    "inner_new_jwk ''https://relay.test/acme/key-change'' demo_inner_header = Inr demo_key2" for w
    by (simp_all add: demo_inner_header_def dict_get_def check_alg_def allowed_algs_def inner_new_jwk_def demo_key2_def)
  have pl: "check_inner_payload (account_url demo_cfg ''acct'') demo_sig (JObj demo_inner_payload) = Inr ()"
    by (simp add: check_inner_payload_def demo_inner_payload_def dict_get_def demo_sig_def) (simp add: demo_key_def)
  show ?thesis
    unfolding verify_inner_jws_def Let_def sel using nz s b64url_encode_nonempty [OF s]
    by (simp add: dec hd sig pl)
qed

lemma demo_key_change_check:
  "key_change_check demo_libs demo_cfg demo_key_change (JObj demo_inner) ''acct'' (demo_db ns [demo_account] os zs) =
     Inr (demo_account, canonical_jwk demo_key2)"
proof -
  have "canonical_jwk demo_key2 \<noteq> demo_sig"
  proof
    assume "canonical_jwk demo_key2 = demo_sig"
    then have "json_loads (canonical_jwk demo_key2) = Some demo_key" by simp
    then show False using canonical_jwk_loads [of demo_key2] by (simp add: demo_key2_def demo_key_def)
  qed
  with demo_verify_inner show ?thesis
    by (simp add: key_change_check_def demo_db_def scalar_one_or_none_def demo_key_change_def make_request_def Let_def)
qed

section \<open>A certificate authority\<close>

definition demo_order_body :: string where
  "demo_order_body = json_dumps (JObj [(''authorizations'', JArr [JStr ''az1'']), (''finalize'', JStr ''f1'')])"

definition demo_answer :: "string \<Rightarrow> exc + acme_resp" where
  "demo_answer url =
     (if url = ''no'' then Inr \<lparr>re_location = Some ''o1'', re_content = demo_order_body\<rparr>
      else if url = ''f1'' then Inl (AcmeExc ''AcmeError'' ''orderNotReady'')
      else if url = ''o1'' then Inr \<lparr>re_location = None, re_content = json_dumps (JObj [(''certificate'', JStr ''c1'')])\<rparr>
      else Inr \<lparr>re_location = None, re_content = ''pem''\<rparr>)"

text \<open>Orders have the state \<open>st\<close>; a finalize request finds its order finalized already.\<close>

definition demo_ca :: "string \<Rightarrow> unit gufo" where
  "demo_ca st = \<lparr>g_post = (\<lambda>url _ w. (demo_answer url, w)), g_new_order_url = returnM ''no'',
     g_revoke_url = returnM ''rv'', g_check_bound = returnM (), g_identifiers = (\<lambda>d. [d]),
     g_order_status = (\<lambda>_. Inr st), g_key_authorization = ac_token, g_pem_to_der = id, g_csr_pem = Some,
     g_sha256 = id, dns_set_txt = (\<lambda>_ _ _. returnM ()), dns_delete_txt = (\<lambda>_ _. returnM ())\<rparr>"

definition demo_le :: "unit le_state" where
  "demo_le = \<lparr>le_order_urls = [], le_domain_locks = [], le_sent = [], le_world = ()\<rparr>"

definition demo_le_sent :: "(string \<times> json option) list \<Rightarrow> unit le_state" where
  "demo_le_sent ps = demo_le\<lparr>le_sent := ps\<rparr>"

lemma demo_order_loads:
  "json_loads demo_order_body = Some (JObj [(''authorizations'', JArr [JStr ''az1'']), (''finalize'', JStr ''f1'')])"
  by (simp add: demo_order_body_def)

lemma demo_le_post:
  "le_post (demo_ca st) url p (demo_le_sent ps) = (demo_answer url, demo_le_sent (ps @ [(url, p)]))"
  by (simp add: le_post_def liftW_def demo_ca_def demo_le_sent_def demo_le_def)

lemma demo_le_urls [simp]: "le_order_urls (demo_le_sent ps) = []"
  by (simp add: demo_le_sent_def demo_le_def)

lemma demo_new_order:
  "le_new_order (demo_ca st) ''a'' (demo_le_sent []) =
     (Inr \<lparr>ao_authorizations = [(''a'', JStr ''az1'')], ao_finalize = ''f1''\<rparr>,
      (demo_le_sent [(''no'', Some (identifiers_payload [''a'']))])\<lparr>le_order_urls := [(''f1'', ''o1'')]\<rparr>)"
proof -
  have ca: "g_identifiers (demo_ca st) ''a'' = [''a'']" "liftW (g_check_bound (demo_ca st)) s = (Inr (), s)"
    "liftW (g_new_order_url (demo_ca st)) s = (Inr ''no'', s)" for s
    by (simp_all add: demo_ca_def liftW_def returnM_def)
  have ans: "demo_answer ''no'' = Inr \<lparr>re_location = Some ''o1'', re_content = demo_order_body\<rparr>"
    by (simp add: demo_answer_def)
  show ?thesis
    by (simp add: le_new_order_def Let_def bindM_apply ca demo_le_post ans resp_json_def demo_order_loads text_item_def
        json_item_def json_text_def json_list_def capture_order_url_def dict_set_def guardM_apply)
qed

section \<open>A host list server\<close>

definition demo_cred :: namecheap_settings where
  "demo_cred = namecheap_init ''u'' ''k'' '''' ''i''"

definition demo_txt :: host_record where
  "demo_txt = txt_record ''x'' ''v''"

definition demo_view :: "bool \<Rightarrow> host_record list" where
  "demo_view w = (if w then [demo_txt] else [])"

definition demo_xml :: "string \<Rightarrow> xml option" where
  "demo_xml s = Some (Elem ''ApiResponse'' [(''Status'', ''OK'')] None
     (if s = ''1'' then [Elem (nc_ns @ ''host'') [(''Name'', ''x''), (''Type'', ''TXT''), (''Address'', ''v''), (''TTL'', ''120'')] None []]
      else []))"

text \<open>The world says whether the one record is there; any other list is refused.\<close>

definition demo_http :: "bool http" where
  "demo_http call w = (case hc_body call of
     FormBody ps \<Rightarrow>
       if posted_hosts ps = [] then (Inr \<lparr>hr_status = 200, hr_text = ''0''\<rparr>, False)
       else if posted_hosts ps = [demo_txt] then (Inr \<lparr>hr_status = 200, hr_text = ''0''\<rparr>, True)
       else (Inr \<lparr>hr_status = 500, hr_text = ''''\<rparr>, w)
   | _ \<Rightarrow> (Inr \<lparr>hr_status = 200, hr_text = if w then ''1'' else ''0''\<rparr>, w))"

definition demo_api :: "http_call list \<Rightarrow> bool \<Rightarrow> bool api" where
  "demo_api cs w = \<lparr>api_sent = cs, api_world = w\<rparr>"

lemma demo_parse:
  "parse_reply demo_xml \<lparr>hr_status = 200, hr_text = t\<rparr> = Inr (the (demo_xml t))"
  "parse_reply demo_xml \<lparr>hr_status = 500, hr_text = t\<rparr> = Inl (PyError ''HTTPStatusError'')"
  by (simp_all add: parse_reply_def raise_for_status_def is_success_def demo_xml_def check_status_def)

lemma demo_hosts: "hosts_of_xml (the (demo_xml (if w then ''1'' else ''0''))) = demo_view w"
  by (simp add: hosts_of_xml_def demo_xml_def demo_view_def demo_txt_def txt_record_def host_of_elem_def attr_def)

lemma demo_reads: "reads_hosts demo_http demo_xml demo_cred ''a'' ''b'' demo_view"
  unfolding reads_hosts_def
  by (auto simp: demo_http_def get_hosts_call_def demo_parse demo_hosts simp del: if_split)

lemma demo_replaces: "replaces_hosts demo_http demo_xml ''a'' ''b'' demo_view"
  unfolding replaces_hosts_def by (auto simp: demo_http_def demo_parse demo_view_def split: if_splits)

lemma demo_get_hosts:
  "get_hosts demo_http demo_xml demo_cred ''a'' ''b'' (demo_api cs w) =
     (Inr (demo_view w), demo_api (cs @ [get_hosts_call demo_cred ''a'' ''b'']) w)"
  by (simp add: get_hosts_def bindM_apply send_def demo_http_def get_hosts_call_def demo_parse demo_hosts demo_api_def del: if_split)

lemma demo_set_hosts:
  "set_hosts demo_http demo_xml demo_cred ''a'' ''b'' (demo_view w) (demo_api cs w') =
     (Inr (), demo_api (cs @ [set_hosts_call demo_cred ''a'' ''b'' (demo_view w)]) w)"
proof -
  have "posted_hosts (base_params demo_cred ''namecheap.domains.dns.setHosts'' ''a'' ''b'' @ host_params 1 (demo_view w)) = demo_view w"
    by (rule posted_hosts_params)
  then have "demo_http (set_hosts_call demo_cred ''a'' ''b'' (demo_view w)) w' = (Inr \<lparr>hr_status = 200, hr_text = ''0''\<rparr>, w)"
    unfolding demo_http_def set_hosts_call_def by (cases w) (simp_all add: demo_view_def)
  then show ?thesis by (simp add: set_hosts_def bindM_apply send_def demo_parse demo_api_def)
qed

lemma demo_split: "split_domain ''a.b'' = Inr (''a'', ''b'')"
  by (simp add: split_domain_def)

lemma demo_rel: "removesuffix ''x.a.b'' (''.'' @ ''a.b'') = ''x''"
  by code_simp

lemma demo_namecheap_set:
  "\<exists>cs. namecheap_set_txt demo_http demo_xml demo_cred ''a.b'' ''x.a.b'' ''v'' (demo_api [] False) = (Inr (), demo_api cs True)"
  using demo_set_hosts [of True]
  unfolding namecheap_set_txt_def demo_split demo_rel Let_def
  by (auto simp: bindM_apply demo_get_hosts demo_view_def demo_txt_def)

lemma demo_namecheap_delete:
  "\<exists>t. namecheap_delete_txt demo_http demo_xml demo_cred ''a.b'' ''x.a.b'' (demo_api cs True) = (Inr (), t)"
  using demo_set_hosts [of False]
  unfolding namecheap_delete_txt_def demo_split demo_rel Let_def
  by (auto simp: bindM_apply demo_get_hosts demo_view_def demo_txt_def txt_record_def other_host_def)


section \<open>A migration\<close>

definition demo_alembic :: alembic where
  "demo_alembic = \<lparr>al_upgrade = (\<lambda>s. if sc_version s = Some rev_0002 then Inr s
       else bindE (if sc_version s = None then upgrade_0001 s else Inr s) (\<lambda>s1.
            bindE (upgrade_0002 s1) (\<lambda>s2. Inr (s2\<lparr>sc_version := Some rev_0002\<rparr>)))),
     al_stamp = (\<lambda>r s. Inr (s\<lparr>sc_version := Some r\<rparr>))\<rparr>"

lemma demo_alembic_ok: "alembic_ok demo_alembic"
  by (simp add: alembic_ok_def demo_alembic_def rev_0001_def rev_0002_def)

definition demo_alembic_lib :: alembic_lib where
  "demo_alembic_lib = \<lparr>al_package = ''/app/jackdaw'', al_refs = (\<lambda>_. Inl (PyError ''InterpolationMissingOptionError'')),
     al_commands = (\<lambda>_. demo_alembic)\<rparr>"

lemma demo_alembic_at:
  "alembic_at demo_alembic_lib (database_url demo_cfg)" "alembic_at demo_alembic_lib ''sqlite+aiosqlite:///x.db''"
  using demo_alembic_ok by (simp_all add: alembic_at_def demo_alembic_lib_def demo_cfg_def default_settings_def)

text \<open>A database of an early release: no serial column, no error column, one index.\<close>

definition demo_old_schema :: schema where
  "demo_old_schema =
     change_columns ''orders'' (filter (\<lambda>x. fst x \<noteq> ''error''))
       (change_columns ''certificates'' (filter (\<lambda>x. fst x \<noteq> ''serial''))
         (schema_0001\<lparr>sc_indexes := [(''ix_nonces_created_at'', ''nonces'', ''created_at'')]\<rparr>))"

lemma demo_old_schema_pre: "pre_alembic demo_old_schema"
  by code_simp

section \<open>A start\<close>

definition demo_keygen :: "string keygen" where
  "demo_keygen = \<lparr>kg_csr = \<lambda>p d. p @ d, kg_pem = \<lambda>p. p\<rparr>"

definition demo_acme_lib :: "(string, string acme_client) acme_lib" where
  "demo_acme_lib = \<lparr>al_load_pem = Inr, al_new_account = \<lambda>_ _. Inr ()\<rparr>"

definition demo_app :: "schema \<Rightarrow> string app_state" where
  "demo_app sc = \<lparr>ap_schema = sc, ap_db = demo_db [] [] [demo_order ''processing''] [], ap_files = (\<lambda>_. None),
     ap_has_context = False, ap_client = None, ap_background = []\<rparr>"

lemma demo_pem_inverse: "pem_inverse demo_keygen demo_acme_lib"
  by (simp add: pem_inverse_def demo_keygen_def demo_acme_lib_def)

lemma demo_key_path: "le_account_key_path demo_cfg \<notin> relay_paths demo_cfg"
  by code_simp

lemma demo_load:
  "\<exists>fs. load_or_create_account_key demo_keygen demo_acme_lib path k (\<lambda>_. None) = (Inr k, fs)"
  by (simp add: load_or_create_account_key_def)

lemma demo_open:
  "\<exists>fs. open_client demo_keygen demo_acme_lib (\<lambda>_. None) demo_cfg k (\<lambda>_. None) = (Inr (client_init demo_cfg Null k), fs)"
  using demo_load [of "le_account_key_path demo_cfg" k]
  by (auto simp: open_client_def init_account_def demo_acme_lib_def demo_cfg_def default_settings_def get_provider_def registry_def)

lemma demo_start:
  "known_schema demo_cfg (ap_schema (demo_app demo_old_schema))" "configure_logging demo_cfg = Inr ()" "le_verify_ssl demo_cfg"
  "get_provider (\<lambda>_. None) (dns_provider demo_cfg) = Inr Null"
  "\<exists>fs. load_or_create_account_key demo_keygen demo_acme_lib (le_account_key_path demo_cfg) k (ap_files (demo_app sc)) = (Inr k, fs)"
  "al_new_account demo_acme_lib c e = Inr ()" "pem_inverse demo_keygen demo_acme_lib"
  using demo_old_schema_pre demo_load demo_pem_inverse
  by (simp_all add: known_schema_def demo_app_def demo_cfg_def default_settings_def configure_logging_def log_levels_def
      upper_char_def demo_acme_lib_def get_provider_def registry_def contains_def startswith_def)

section \<open>A session and a renewal\<close>

definition demo_env :: "string server_env" where
  "demo_env = \<lparr>se_match = match_template, se_fallback = (\<lambda>_. json_response JNull 404 []),
     se_render = (\<lambda>st j. json_response j st []), se_libs = demo_libs, se_cfg = demo_cfg, se_version = ''1'',
     se_draws = (\<lambda>k. if k = 2 then demo_draws [''acct''] else demo_draws [''ord'', ''az'']),
     se_fresh = (\<lambda>k. replicate k CHR ''n''), se_now = (\<lambda>_. 0), se_revoke = (\<lambda>_ _. Inr ()), se_bases = (\<lambda>_. []),
     se_nets = (\<lambda>_. demo_net), se_issue = (\<lambda>d csr. Inr (d @ csr)), se_task_draws = demo_draws [''crt'']\<rparr>"

definition demo_client :: client where
  "demo_client = \<lparr>ac_alg = ''ES256'', ac_jwk = demo_key, ac_sign = (\<lambda>_. demo_sig)\<rparr>"

lemma demo_env_sel [simp]:
  "se_match demo_env = match_template" "se_libs demo_env = demo_libs" "se_cfg demo_env = demo_cfg"
  "se_draws demo_env 2 = demo_draws [''acct'']" "se_draws demo_env 3 = demo_draws [''ord'', ''az'']"
  "clock (se_draws demo_env k) j = 0" "se_fresh demo_env k = replicate k CHR ''n''" "se_now demo_env k = 0"
  "se_nets demo_env = (\<lambda>_. demo_net)" "se_issue demo_env d csr = Inr (d @ csr)" "se_task_draws demo_env = demo_draws [''crt'']"
  by (simp_all add: demo_env_def demo_draws_def)

lemma demo_client_sel [simp]: "ac_alg demo_client = ''ES256''" "ac_jwk demo_client = demo_key" "ac_sign demo_client inp = demo_sig"
  by (simp_all add: demo_client_def)

lemma demo_plain_base: "plain_base demo_cfg"
  by (rule plain_base_domain) (simp add: demo_cfg_def default_settings_def)

lemma demo_documented: "documented_match match_template"
  by (simp add: documented_match_def)

lemma demo_env_ok: "env_ok demo_env []"
  by (simp add: env_ok_def demo_documented demo_plain_base distinct_map inj_on_def seconds_def)

lemma demo_client_ok: "client_ok demo_env demo_client demo_sig"
  by (simp add: client_ok_def allowed_algs_def)

lemma demo_key_json: "wf_json demo_key" "demo_key \<noteq> JNull" "sort_json demo_key = demo_key"
  by (simp_all add: demo_key_def)

lemma demo_key_authorization: "key_authorization demo_libs ''tok'' demo_sig = Inr demo_expected"
  by (simp add: key_authorization_def demo_expected_def)

lemma demo_world_ok: "world_ok demo_env demo_key demo_identifier ''csr'' ''a.testcsr'' empty_db"
  using demo_validate demo_key_authorization
  by (auto simp: world_ok_def segment_ok_def demo_draws_def empty_db_def demo_identifier_def simp flip: demo_sig_def)

text \<open>Every second attempt to renew fails; a certificate names its life time by its length.\<close>

definition demo_renewal_libs :: "string libs" where
  "demo_renewal_libs = demo_libs\<lparr>pem_leaf := (\<lambda>p. Some (7, days (30 + int (length p))))\<rparr>"

definition demo_renewals :: "nat \<Rightarrow> string \<Rightarrow> string \<Rightarrow> exc + string" where
  "demo_renewals k _ _ = (if even k then Inl (PyError ''OSError'') else Inr (replicate (k + 1) CHR ''c''))"

definition demo_pair :: files where
  "demo_pair = write_relay_cert (cert_path demo_cfg) (key_path demo_cfg) '''' ''k'' (\<lambda>_. None)"

lemma demo_pair_served: "build_tls_server (\<lambda>_ _. Inr ()) demo_cfg demo_pair = Tls https_port '''' ''k''"
  using write_relay_cert_result(1,2) [of demo_cfg "''''" "''k''" "\<lambda>_. None"]
  by (auto simp: build_tls_server_def demo_pair_def)

end
