(* ===== verification/Spec2Isabelle.thy ===== *)
theory Spec2Isabelle
  imports Demo
begin

text \<open>
  Verification of Jackdaw, an ACME relay (RFC 8555).

  \<^bold>\<open>The program.\<close>  Hosts on a private network run ordinary ACME clients against the relay.  The relay
  checks their control of a name with an HTTP-01 validation of its own, then obtains the certificate
  from an upstream authority with one shared account, answering the authority's DNS-01 challenge
  through the API of a DNS provider.  A request is a JWS; \<^verbatim>\<open>services/jws.py\<close> verifies it and consumes
  its nonce, a route under \<^verbatim>\<open>routes/\<close> reads and writes the tables of \<^verbatim>\<open>db/models.py\<close> and may start a task
  of \<^verbatim>\<open>worker.py\<close>, and the middleware of \<^verbatim>\<open>main.py\<close> adds a fresh nonce to the response.  The tasks call
  \<^verbatim>\<open>services/http01.py\<close> and \<^verbatim>\<open>services/le_client.py\<close>; the latter calls the provider of \<^verbatim>\<open>dns/\<close>.
  \<^verbatim>\<open>serve.py\<close> obtains the relay's own certificate (\<^verbatim>\<open>services/relay_cert.py\<close>) before it listens, and
  \<^verbatim>\<open>db/engine.py\<close> migrates the schema at every start.  All paths are under \<^verbatim>\<open>src/src/jackdaw/\<close>.

  \<^bold>\<open>The theories\<close>, in the order of their imports, and what they model.
  \<^item> \<open>Prelude\<close>: computations with a state and exceptions (\<open>comp\<close>, \<open>bindM\<close>; an exception keeps what was
    committed), the string operations of Python, tables as lists of rows.  \<open>Base64\<close> and \<open>Json\<close>: the parts
    of \<open>base64\<close> and \<open>json\<close> in use, with their round trips, and \<open>canonical_jwk\<close> of \<^verbatim>\<open>_util.py\<close>.
    \<open>Config\<close>: \<^verbatim>\<open>config.py\<close>, \<^verbatim>\<open>acme_errors.py\<close>, the clock, the exceptions.  \<open>Models\<close>: one record per table
    of \<^verbatim>\<open>db/models.py\<close> and the record \<open>database\<close>.
  \<^item> \<open>Nonces\<close> (\<^verbatim>\<open>services/nonce.py\<close>), \<open>Schemas\<close> (\<^verbatim>\<open>schemas/acme.py\<close> and the record \<open>libs\<close> of the libraries
    the routes call), \<open>Jws\<close> (\<^verbatim>\<open>services/jws.py\<close>), \<open>Ownership\<close> (\<^verbatim>\<open>services/ownership.py\<close>).
  \<^item> \<open>Orders\<close>, \<open>Challenges\<close>, \<open>CertStore\<close>, \<open>Accounts\<close>: the handlers of \<^verbatim>\<open>routes/\<close>, each with its whole body,
    and \<^verbatim>\<open>services/cert_store.py\<close>.  A handler is verification followed by a body; the five handlers that
    write (\<open>new_account\<close>, \<open>key_change\<close>, \<open>new_order\<close>, \<open>finalize_order\<close>, \<open>acknowledge_challenge\<close>) are in addition
    cut into a part that reads (\<open>..._prepare\<close>, \<open>key_change_check\<close>) and a part that commits (\<open>..._commit\<close>),
    where other requests can come in between; the body is
    proved or defined to be their composition.
  \<^item> \<open>IpAddress\<close> and \<open>Http01\<close>: parsing of addresses and networks, and \<^verbatim>\<open>services/http01.py\<close>.
    \<open>LeClient\<close>: \<^verbatim>\<open>services/le_client.py\<close> over a record of the base class.  \<open>Worker\<close>: \<^verbatim>\<open>worker.py\<close>, both
    tasks cut at their network phase and at each commit.
  \<^item> \<open>App\<close>: the route table, the middleware, the static routes, recovery and pruning.
    \<open>Relay\<close>: the running relay as the step relation \<open>relay_step\<close> over the tables, the open jobs and a log;
    \<open>RelaySafety\<close> and \<open>RelayTables\<close> prove its invariants: the proofs of control, and the consistency and
    the types of the rows.  \<open>WellTyped\<close>: the handlers answer on such rows.  \<open>Phases\<close>: the abstract life cycle
    of an order (\<open>phase_step\<close>) and the effect of every operation on it.  \<open>Lifecycle\<close>: the relay refines it
    (\<open>careful_step\<close>: no second validation for an order is opened while one is in flight).  \<open>EndToEnd\<close>: the
    tables at each stage of one order, and what each route and task makes of them.
  \<^item> \<open>Routing\<close>: the path decorators of \<^verbatim>\<open>routes/\<close>, the order in which \<^verbatim>\<open>main.py\<close> includes the routers, and
    the application as a function of a whole request.  \<open>Session\<close>: a client that talks to this application
    over HTTP and takes every URL and nonce from the responses; the effect of each of its requests.
  \<^item> \<open>DnsApi\<close> (the calls, the replies and the interface \<open>dns_provider_api\<close> of \<^verbatim>\<open>dns/base.py\<close>), \<open>DnsRest\<close>
    (null, Porkbun, Cloudflare), \<open>Namecheap\<close>, \<open>Route53\<close>, \<open>DnsLoader\<close> (\<^verbatim>\<open>dns/loader.py\<close>).
  \<^item> \<open>RelayCert\<close> (\<^verbatim>\<open>services/relay_cert.py\<close>), \<open>Renewal\<close> (its renewal loop over time), \<open>LeAccount\<close> (the account of \<^verbatim>\<open>services/le_client.py\<close>), \<open>Serve\<close>
    (\<^verbatim>\<open>serve.py\<close>: the issuance before listening and the two listeners), \<open>Migrations\<close> (the migrations of
    \<^verbatim>\<open>db/engine.py\<close>, the Alembic configuration with \<^verbatim>\<open>migrations/env.py\<close>, and \<^verbatim>\<open>migrations/versions/\<close>), \<open>Engine\<close>
    (the engine, the session factory and the sessions of \<^verbatim>\<open>db/engine.py\<close>, the cached settings of
    \<^verbatim>\<open>config.py\<close> and the cached URL prefix of \<^verbatim>\<open>services/jws.py\<close>, as operations on the state of the process), \<open>Startup\<close> (\<open>lifespan\<close> of \<^verbatim>\<open>main.py\<close>).
  \<^item> \<open>Client\<close>: a client that builds signed requests.  \<open>Demo\<close>: concrete runs, on which the theorems with
    hypotheses are applied.

  \<^bold>\<open>State.\<close>  A table is the list of its rows in insertion order, a query a search in that order, an
  \<open>UPDATE ... WHERE\<close> a conditional update that counts its rows.  Python text is \<open>string\<close>, so code points are
  below 256.  Times are integers in microseconds.  Exceptions are values of \<open>exc\<close>.  Random values and
  fresh identifiers are arguments.

  \<^bold>\<open>Interleaving.\<close>  In \<open>relay_step\<close> a request is cut wherever the code awaits the database between two
  of its effects: after the check of the signature, after the nonce was consumed, between the look-ups
  and the commit of the handlers above, and before the nonce of the response.  A validation task is its
  first session, the network phase and its second session; an issuance is the look-up, the upstream
  flow, the commit of the certificate and the commit of the order.  Steps of different jobs, pruning and
  restarts come in any order; a restart drops all open jobs.  A step that
  issues for a domain needs the lock of that domain.  Writing the relay's certificate is a list of file
  operations that a crash may cut anywhere, also inside a write (\<open>crash\<close>).  The cycles of the Namecheap
  provider interleave under its locks (\<open>cycle_step\<close>).

  \<^bold>\<open>Code that is not in the repository\<close> is an argument: josepy, pydantic and the X.509 library in \<open>libs\<close>;
  gufo-acme in \<open>gufo\<close> and \<open>acme_lib\<close>; the resolver and the HTTP client of the validation in
  \<open>network\<close>; the HTTP client, the XML parser and the hash functions of the providers in
  \<open>dns_env\<close>; the environment; key generation in \<open>keygen\<close>; Alembic in \<open>alembic\<close>; the framework's matching of a
  path template in \<open>matcher\<close> and its own answers.  What a theorem needs of them is a hypothesis of its own:
  that a parameter of a template stands for one segment (\<open>documented_match\<close>), that a client signs what the
  library verifies (\<open>client_ok\<close>), that a printed key reads back (\<open>pem_inverse\<close>), that an upgrade runs the missing
  revisions in order (\<open>alembic_ok\<close>), that the Namecheap server keeps the list it is sent (\<open>reads_hosts\<close>,
  \<open>replaces_hosts\<close>).

  \<^bold>\<open>Bounds and fuel.\<close>  \<open>json_loads\<close> recurses with fuel twice the length of the text plus one, which is enough
  for every text: more fuel never changes the result (\<open>pval_fuel\<close>).  Polling is bounded by \<open>finalize_poll_attempts\<close> and
  validation by \<open>challenge_retries\<close>, as in the source.  The loop of \<open>ensure_relay_cert\<close> may run forever; it
  has fuel, and the theorem on it gives the fuel that is enough, one more than the number of failures.
  The renewal loop never ends by itself: \<open>renewal_loop n\<close> is its state after \<open>n\<close> rounds, and the theorem on it
  holds for every \<open>n\<close>.  The session of a client has ten requests; \<open>env_ok\<close> asks that the nonces of these are fresh.

  \<^bold>\<open>What is shown.\<close>  Safety of the running relay: no issuance and no certificate without a validation for
  the owner of the order, consistent tables, and typed rows on which reading never fails.  The life of an
  order: refinement of the abstract machine, at most one dispatch upstream, and the way to a certificate,
  over HTTP from the directory to the download, along URLs that lead back to their handlers.
  Authenticated requests: replay, authenticity, refused
  requests, honest requests, ownership.  Orders, challenges and addresses: when orders are created,
  claimed and validated, and which addresses are contacted; in the library also the rate limit
  (\<open>rate_limit_respected\<close>).  Nonces and accounts: single use, liveness, pruning, the size of the table,
  idempotent registration and roll-over of keys; in the library also the uniqueness of keys
  (\<open>new_account_body_keys\<close>, \<open>key_change_body_keys\<close>).  Certificates and the upstream client: revocation,
  zones, bounded polling, recovery, problem documents.  DNS providers: confinement of requests, XML and
  signatures of Route 53, refinement of a host list and no lost updates for Namecheap.  The relay's own
  certificate: crash safety, retries, and renewal before expiry; in the library also the ports
  (\<open>serve_events_tls\<close>).  Start-up: the schema reached, the work settled, idempotence; in the library also
  that a process has one engine for all its sessions (\<open>one_engine\<close>) and one URL prefix (\<open>prefix_of_settings\<close>).  The interfaces are locales: \<open>keyed_update\<close> for the tables,
  \<open>replay_guard\<close> for the nonce store, \<open>owner_guard\<close> for the ownership checks, \<open>authenticated_route\<close> for the
  handlers, \<open>dns_provider_api\<close> for the providers, \<open>refinement\<close> for the simulation of the life cycle and
  \<open>memo_cell\<close> for the cached objects of the process, each interpreted on the model's own operations.

  \<^bold>\<open>Limits of the code\<close> that are proved: a late second validation reopens an order (\<open>Worker\<close>); the URLs of an
  account and of its orders are served by no route, and a nonce cannot be fetched by GET (\<open>Routing\<close>);
  overlapping requests exceed the ceiling of the nonce table (\<open>Nonces\<close>); an error while a renewed certificate
  is loaded ends the renewal loop (\<open>Renewal\<close>); without attempts
  every validation succeeds (\<open>Http01\<close>); the mapped loopback address is allowed (\<open>Http01\<close>); a torn pair is
  served (\<open>Serve\<close>); seven attempts fit in the first hour (\<open>Serve\<close>); Porkbun deletions are not checked
  (\<open>DnsRest\<close>); a torn account key stops every start (\<open>LeAccount\<close>); two overlapping registrations of a key
  create two accounts (\<open>Accounts\<close>); overlapping new orders exceed the rate limit (\<open>Orders\<close>); a database URL
  with an encoded character stops every start (\<open>Migrations\<close>); the relay's own certificate is obtained
  without verification of the production directory before the guard of the life cycle (\<open>Startup\<close>).

  \<^bold>\<open>Not modelled.\<close>  The insides of uvicorn, SQLAlchemy and Alembic (libraries; what is started, created and
  configured with which arguments is modelled), logging beyond the check of the level, reading the settings
  from the environment (pydantic), and \<^verbatim>\<open>__main__.py\<close>, which calls \<open>main\<close>.  The classes \<open>JWSEnvelope\<close> and
  \<open>AcmeError\<close> of \<^verbatim>\<open>schemas/acme.py\<close> are used by no route.  File operations do not fail, and a migration
  that fails leaves no schema.
\<close>

section \<open>Safety of the running relay\<close>

text \<open>
  C1.  Proof of control before issuance.  Whenever the relay is issuing a certificate for a domain
  under an order, however requests, tasks and restarts were interleaved, an HTTP-01 validation of
  exactly that domain has succeeded for that order: the domain resolved to allowed addresses only
  and one of them served the key authorization of the key that the account owning the order had when
  the validation began.
\<close>

theorem issuance_needs_control:
  assumes "reachable L cfg ver bases s" "Issuing i d csr \<in> set (rl_jobs s)" "0 < challenge_retries cfg"
  shows "\<exists>plan nets k acct pk ord. Validated plan nets \<in> set (rl_log s) \<and> Begun plan acct pk \<in> set (rl_log s) \<and>
    rp_order_id plan = i \<and> rp_domain plan = d \<and> ord \<in> set (orders (rl_db s)) \<and> o_id ord = i \<and>
    o_account_id ord = acct \<and> key_authorization L (rp_token plan) pk = Inr (rp_expected plan) \<and>
    challenge_met cfg (nets k) d (rp_token plan) (rp_expected plan)"
proof -
  have inv: "relay_inv L cfg s" using assms(1) by (rule relay_inv_reachable)
  then have "job_ok L cfg (rl_log s) (skeleton (rl_db s)) (Issuing i d csr)"
    using assms(2) unfolding relay_inv_def by blast
  then have "authorized L cfg (rl_log s) (skeleton (rl_db s)) i d" by (simp add: job_ok_def)
  moreover have "skel_wf (skeleton (rl_db s))" using inv by (simp add: relay_inv_def)
  ultimately obtain plan nets acct pk ids where p: "Validated plan nets \<in> set (rl_log s)"
    "Begun plan acct pk \<in> set (rl_log s)" "rp_order_id plan = i" "rp_domain plan = d"
    "(i, acct, ids) \<in> set (fst (skeleton (rl_db s)))"
    "key_authorization L (rp_token plan) pk = Inr (rp_expected plan)"
    "validate_http01 cfg nets d (rp_token plan) (rp_expected plan) = Inr ()"
    by (rule authorized_validated)
  obtain k where "challenge_met cfg (nets k) d (rp_token plan) (rp_expected plan)"
    using validate_http01_met [OF p(7) assms(3)] by blast
  moreover obtain ord where "ord \<in> set (orders (rl_db s))" "o_id ord = i" "o_account_id ord = acct"
    using p(5) by (auto simp: skeleton_def ostat_def)
  ultimately show ?thesis using p(1-4,6) by blast
qed

theorem issuance_needs_control_witness:
  "\<exists>plan nets k acct pk ord. Validated plan nets \<in> set (rl_log demo_issuing) \<and>
    Begun plan acct pk \<in> set (rl_log demo_issuing) \<and> rp_order_id plan = ''ord'' \<and> rp_domain plan = ''a.test'' \<and>
    ord \<in> set (orders (rl_db demo_issuing)) \<and> o_id ord = ''ord'' \<and> o_account_id ord = acct \<and>
    key_authorization demo_libs (rp_token plan) pk = Inr (rp_expected plan) \<and>
    challenge_met demo_cfg (nets k) ''a.test'' (rp_token plan) (rp_expected plan)"
  by (rule issuance_needs_control [OF demo_issuing_reachable, of _ _ "''csr''"])
     (simp_all add: demo_issuing_def demo_state_def)





text \<open>
  C4.  Well-typed states do not go wrong.  In every reachable state the columns hold text of the types
  the handlers parse: reading an order, an authorization or a certificate is answered with 200 or
  refused with 403 or 404 and never ends in an unhandled exception, every owner is shown the order
  with the identifier it was created with, and a finalize or key-change request that reached its
  commit and claimed its order or key is answered with 200.
\<close>

theorem well_typed_states_answer:
  assumes "reachable L cfg ver bases s"
  shows "answers_or_refuses (fst (get_order_body cfg' i req (p, acct) (rl_db s))) \<and>
    answers_or_refuses (fst (get_authz_body cfg' i req (p, acct) (rl_db s))) \<and>
    answers_or_refuses (fst (download_cert_body i req (p, acct) (rl_db s))) \<and>
    (\<forall>r \<in> set (orders (rl_db s)). \<exists>d err. o_identifiers r = dump_identifiers [d] \<and>
       get_order_body cfg' (o_id r) req (p, o_account_id r) (rl_db s) =
         (Inr (json_response (order_json (order_body cfg' r d err (rl_db s))) 200 []), rl_db s)) \<and>
    (\<forall>plan res ts. FinalizeOpen plan \<in> set (rl_jobs s) \<and> fst (finalize_commit cfg' plan (rl_db s)) = Inr (res, ts) \<longrightarrow>
       (\<exists>r. res = Inr r \<and> rs_status r = 200)) \<and>
    (\<forall>acct' a k. KeyOpen acct' a k \<in> set (rl_jobs s) \<longrightarrow>
       (\<exists>r. fst (key_change_commit cfg' acct' a k (rl_db s)) = Inr r \<and> rs_status r = 200))"
proof -
  note inv = tables_inv_reachable [OF assms]
  show ?thesis
  proof (intro conjI ballI allI impI)
    fix r assume "r \<in> set (orders (rl_db s))"
    from get_order_owner [OF inv this]
    show "\<exists>d err. o_identifiers r = dump_identifiers [d] \<and> get_order_body cfg' (o_id r) req (p, o_account_id r) (rl_db s) =
        (Inr (json_response (order_json (order_body cfg' r d err (rl_db s))) 200 []), rl_db s)" by blast
  next
    fix plan res ts
    assume "FinalizeOpen plan \<in> set (rl_jobs s) \<and> fst (finalize_commit cfg' plan (rl_db s)) = Inr (res, ts)"
    then show "\<exists>r. res = Inr r \<and> rs_status r = 200" by (blast intro: finalize_commit_total [OF inv])
  qed (rule get_order_total [OF inv] get_authz_total [OF inv] download_total [OF inv] key_change_commit_total [OF inv], assumption?)+
qed

theorem well_typed_states_answer_witness:
  "\<exists>res. fst (get_order_body demo_cfg ''ord'' demo_ack (JNull, ''acct'') (rl_db demo_issued)) = Inr res \<and> rs_status res = 200"
proof -
  obtain r where "r \<in> set (orders (rl_db demo_issued))" "o_id r = ''ord''" "o_account_id r = ''acct''"
    by (simp add: demo_issued_def demo_issuing_def demo_state_def demo_db_def tupdate_def)
  with well_typed_states_answer [OF demo_issued_reachable, of demo_cfg "''ord''" demo_ack JNull "''acct''"] show ?thesis
    by (fastforce simp: json_response_def)
qed

section \<open>The life of an order\<close>

text \<open>
  C5.  Refinement of the order life cycle.  In a run in which no order has two validations in flight at
  once, every order has a phase, and the run takes it along the edges of the abstract machine only:
  awaiting, checking, prepared or failed, sending, finished or failed.  Finished and failed orders stay
  what they are.
\<close>

theorem orders_follow_lifecycle:
  assumes "(careful_step L cfg ver bases)\<^sup>*\<^sup>* relay_init s" "(careful_step L cfg ver bases)\<^sup>*\<^sup>* s t"
    "order_phase (rl_db s) i = Some p"
  shows "(\<exists>q. order_phase (rl_db t) i = Some q \<and> phase_step\<^sup>*\<^sup>* p q \<and> (p \<in> {Finished, Failed} \<longrightarrow> q = p)) \<and>
    (\<forall>r \<in> set (orders (rl_db t)). order_phase (rl_db t) (o_id r) \<noteq> None)"
proof -
  have s: "life_inv s \<and> relay_inv L cfg s" by (rule careful.invar_run [OF assms(1)]) (rule careful.invar_init)
  have "life_inv t" using careful.invar_run [OF assms(2) s] by blast
  moreover obtain q where "order_phase (rl_db t) i = Some q" "phase_step\<^sup>*\<^sup>* p q"
    using careful.run_simulates [OF assms(2) s assms(3)] by blast
  ultimately show ?thesis using phase_final [of p q] by (auto simp: life_inv_def)
qed

theorem orders_follow_lifecycle_witness:
  "\<exists>q. order_phase (rl_db demo_issued) ''ord'' = Some q \<and> phase_step\<^sup>*\<^sup>* Sending q"
proof -
  have "order_phase (rl_db demo_issuing) ''ord'' = Some Sending"
    by (simp add: order_phase_def demo_issuing_def demo_state_def)
       (simp add: demo_db_def tget_def status_phase_def)
  from orders_follow_lifecycle [OF demo_issuing_run demo_issued_run this] show ?thesis by blast
qed

text \<open>
  C6.  An order is handed to the upstream authority at most once, in such a run; when it was, it is
  being issued, finished or failed.
\<close>

theorem order_sent_upstream_once:
  assumes "(careful_step L cfg ver bases)\<^sup>*\<^sup>* relay_init s"
  shows "length (dispatches i (rl_log s)) \<le> 1 \<and>
    (dispatches i (rl_log s) \<noteq> [] \<longrightarrow> (\<exists>p \<in> {Sending, Finished, Failed}. order_phase (rl_db s) i = Some p))"
proof -
  have "life_inv s \<and> relay_inv L cfg s" by (rule careful.invar_run [OF assms]) (rule careful.invar_init)
  then have "sent_ok (rl_db s) (rl_log s)" by (simp add: life_inv_def)
  then show ?thesis unfolding sent_ok_def by (metis le_numeral_extra(4) list.size(3) zero_le_one)
qed

theorem order_sent_upstream_once_witness:
  "length (dispatches ''ord'' (rl_log demo_issuing)) \<le> 1 \<and>
   (\<exists>p \<in> {Sending, Finished, Failed}. order_phase (rl_db demo_issuing) ''ord'' = Some p)"
  using order_sent_upstream_once [OF demo_issuing_run, of "''ord''"]
  by (simp add: demo_issuing_def demo_state_def demo_log_def dispatches_def)

text \<open>
  C7.  A certificate can be had, over HTTP.  A client that knows the base URL, a new key and an acceptable
  name, and takes every other URL and every nonce from the responses, ends with exactly the chain that the
  upstream authority issued: it reads the directory, fetches a nonce, registers, orders, reads the
  authorization, answers the challenge its host serves, polls, finalizes with a readable request, polls
  again and downloads.  Each of its ten requests is found by the router, passes verification and carries
  the nonce for the next.
\<close>

theorem client_obtains_certificate:
  assumes "env_ok E (map n_value (nonces db))" "client_ok E C key"
    "wf_json (ac_jwk C)" "ac_jwk C \<noteq> JNull" "jwk_from_json (se_libs E) (ac_jwk C) = Some key"
    "jwk_from_json (se_libs E) (sort_json (ac_jwk C)) = Some key"
    "validate_new_account (se_libs E) account_payload = Some ar" "\<not> only_return_existing ar" "wf_json account_payload"
    "account_keys_ok db" "canonical_jwk (ac_jwk C) \<notin> set (map a_public_key (accounts db))"
    "order_accepted (se_libs E) (se_cfg E) (se_draws E 3) order_payload (uuid4 (se_draws E 2) 0) db i" "wf_json order_payload"
    "validate_finalize (se_libs E) csr_payload = Some csr" "b64url_decode csr = Some der" "wf_json csr_payload"
    "world_ok E (ac_jwk C) i der pem db" "cert_keys_ok db"
  shows "fst (acme_session E C account_payload order_payload csr_payload \<lparr>ss_db = db, ss_nonce = '''', ss_sent = 0\<rparr>) = Inr pem"
  by (rule acme_session_succeeds) (rule assms)+

theorem client_obtains_certificate_witness:
  "fst (acme_session demo_env demo_client (JObj []) demo_order_payload (JObj [(''csr'', JStr (b64url_encode ''csr''))])
     \<lparr>ss_db = empty_db, ss_nonce = '''', ss_sent = 0\<rparr>) = Inr ''a.testcsr''"
proof (rule client_obtains_certificate [where key = demo_sig and i = demo_identifier and csr = "b64url_encode ''csr''"
      and der = "''csr''" and ar = "\<lparr>terms_of_service_agreed = True, na_contact = None, only_return_existing = False\<rparr>"])
  show "order_accepted (se_libs demo_env) (se_cfg demo_env) (se_draws demo_env 3) demo_order_payload
      (uuid4 (se_draws demo_env 2) 0) empty_db demo_identifier"
    using demo_accepted [of empty_db demo_cfg] by (simp add: empty_db_def)
qed (use demo_env_ok demo_world_ok in \<open>simp_all add: demo_client_ok demo_key_json empty_db_def account_keys_ok_def cert_keys_ok_def
    demo_order_payload_def identifier_json_def\<close>)



section \<open>Authentication\<close>

text \<open>
  C9.  A request that was executed is never executed again.  After an authenticated route accepted a
  request, the same request is refused without effect by every authenticated route, whatever other
  requests, prunings and new nonces (other than the same value) come in between.
\<close>

theorem replay_refused:
  assumes "nonce_keys_ok db" "authenticated ep" "authenticated ep'"
    "route L cfg ver D lr ep req db = (Inr rep, db1)"
    "decode_jws req = Inr p" "request_nonce p = Some n" "\<forall>t. FreshNonce n t \<notin> set ops"
  shows "\<exists>e. route L cfg ver D' lr' ep' req (traffic L cfg ver ops db1) = (Inl e, traffic L cfg ver ops db1)"
proof -
  obtain p' n' where "decode_jws req = Inr p'" "request_nonce p' = Some n'" "nonce_spent db1 n'"
    using route_success_spends_all [OF assms(2,4,1)] .
  with assms(5,6) have "nonce_spent db1 n" by simp
  then have "nonce_spent (traffic L cfg ver ops db1) n" using assms(7) by (rule traffic_spent)
  then show ?thesis by (rule route_refused_all [OF assms(3,5,6)])
qed

theorem replay_refused_witness:
  "\<exists>e. route demo_libs demo_cfg ''1'' (demo_draws [''x'', ''y'']) (\<lambda>_ _. Inr ()) NewOrder demo_new_account
     (traffic demo_libs demo_cfg ''1'' [PruneRound 5]
       (demo_db [demo_spent ''n1'', demo_nonce ''n2'', demo_nonce ''n3'', demo_nonce ''n4''] [demo_account] [] [])) =
     (Inl e, traffic demo_libs demo_cfg ''1'' [PruneRound 5]
       (demo_db [demo_spent ''n1'', demo_nonce ''n2'', demo_nonce ''n3'', demo_nonce ''n4''] [demo_account] [] []))"
proof (rule replay_refused [OF _ _ _ demo_route_account])
  let ?h = "demo_header ''https://relay.test/acme/new-account'' ''n1'' demo_jwk"
  show "decode_jws demo_new_account = Inr (made_parts ?h (JObj []) demo_sig ''ES256'')"
    unfolding demo_new_account_def
    by (rule decode_make_request [where n = "''n1''"]) (simp_all add: demo_header_ok demo_jwk_def demo_key_def)
  show "request_nonce (made_parts ?h (JObj []) demo_sig ''ES256'') = Some ''n1''"
    by (simp add: request_nonce_def made_parts_def demo_header_def dict_get_def nonce_text_def)
qed (simp_all add: nonce_keys_ok_def demo_defs authenticated_def)



text \<open>
  C11.  A refused request does not burn the nonce: verification leaves the database alone on every
  error except an undecodable payload, which is only read once the signature and the nonce are checked.
\<close>

theorem refused_request_keeps_nonce:
  assumes "verify_jws L cfg now req db = (Inl e, db')"
    "e \<noteq> HTTPException 400 (JStr ''Invalid JWS payload encoding'')"
  shows "db' = db"
  using verify_jws_Inl [OF assms(1)] assms(2) by blast

theorem refused_request_keeps_nonce_witness:
  "\<exists>db'. verify_jws demo_libs demo_cfg 0 demo_new_order empty_db =
     (Inl (HTTPException 401 (JStr ''Account not found'')), db') \<and> db' = empty_db"
proof -
  let ?u = "''https://relay.test/acme/new-order''"
  have d: "decode_jws demo_new_order = Inr (made_parts (demo_header ?u ''n2'' demo_kid)
      (JObj [(''identifiers'', JArr [identifier_json demo_identifier])]) demo_sig ''ES256'')"
    unfolding demo_new_order_def
    by (rule decode_make_request [where n = "''n2''"]) (simp_all add: demo_header_ok demo_kid_def)
  have "resolve_key_and_account demo_libs demo_cfg (demo_header ?u ''n2'' demo_kid) empty_db =
      Inl (HTTPException 401 (JStr ''Account not found''))"
    by (simp add: resolve_key_and_account_def demo_header_def demo_kid_def dict_get_def Let_def
        account_url_prefix_def startswith_def rstrip_if_def kid_account_def scalar_one_or_none_def empty_db_def)
  with d have v: "verify_jws demo_libs demo_cfg 0 demo_new_order empty_db =
      (Inl (HTTPException 401 (JStr ''Account not found'')), empty_db)"
    by (simp add: verify_jws_def made_parts_def)
  with refused_request_keeps_nonce [OF v] show ?thesis by simp
qed





section \<open>Orders\<close>




section \<open>Challenges and background tasks\<close>

text \<open>
  C16.  What the validation task does with its outcome, when nothing interferes: success makes the
  authorization valid and the order ready; failure makes both invalid and records the problem
  document that the client will be shown.
\<close>

theorem run_challenge_outcome:
  assumes "get_authz_row i db = Some z" "get_order_row j db = Some ord" "z_challenge_token z = Some tok"
    "get_account (o_account_id ord) db = Some a" "key_authorization L tok (a_public_key a) = Inr expected"
    "\<forall>y \<in> set (authorizations db). z_order_id y = j \<longrightarrow> z_id y \<noteq> i \<longrightarrow> z_status y = ''valid''"
    "run_challenge L cfg nets i j db = (r, db')"
  shows "case validate_http01 cfg nets (z_identifier z) tok expected of
      Inr _ \<Rightarrow> map_option o_status (get_order_row j db') = Some ''ready'' \<and>
        map_option z_status (get_authz_row i db') = Some ''valid''
    | Inl e \<Rightarrow> map_option o_status (get_order_row j db') = Some ''invalid'' \<and>
        map_option (\<lambda>r. (z_status r, z_error r)) (get_authz_row i db') =
          Some (''invalid'', Some (json_dumps (validation_problem e)))"
proof -
  have "db' = rc_finish i j (validate_http01 cfg nets (z_identifier z) tok expected) db"
    using assms by (simp add: run_challenge_def rc_begin_def bindM_apply)
  then show ?thesis
    using rc_finish_success [OF assms(1,2,6)] rc_finish_failure [OF assms(1,2)]
    by (cases "validate_http01 cfg nets (z_identifier z) tok expected") simp_all
qed

theorem run_challenge_outcome_witness:
  "\<exists>db'. run_challenge demo_libs demo_cfg (\<lambda>_. demo_net) ''az'' ''ord''
      (demo_at (demo_spent ''n3'') (demo_nonce ''n4'') ''processing'' ''processing'') = (Inr (), db') \<and>
    map_option o_status (get_order_row ''ord'' db') = Some ''ready''"
proof -
  let ?db = "demo_at (demo_spent ''n3'') (demo_nonce ''n4'') ''processing'' ''processing''"
  have k: "key_authorization demo_libs ''tok'' (a_public_key demo_account) = Inr demo_expected"
    by (simp add: key_authorization_def demo_expected_def)
  obtain r db' where e: "run_challenge demo_libs demo_cfg (\<lambda>_. demo_net) ''az'' ''ord'' ?db = (r, db')" by fastforce
  then have r: "r = Inr ()" using k by (simp add: run_challenge_def rc_begin_def bindM_apply)
  have "\<forall>y \<in> set (authorizations ?db). z_order_id y = ''ord'' \<longrightarrow> z_id y \<noteq> ''az'' \<longrightarrow> z_status y = ''valid''"
    by (simp add: demo_db_def)
  from run_challenge_outcome [where z = "demo_authz ''processing''" and ord = "demo_order ''processing''", OF _ _ _ _ k this e]
    demo_validate r e show ?thesis by simp
qed

text \<open>
  C17.  The retry loop: with at least one attempt configured, validation succeeds exactly when some
  attempt succeeds after attempts that all failed with a validation error; any other exception
  ends it at once.
\<close>

theorem validate_http01_retries:
  assumes "0 < challenge_retries cfg"
  shows "validate_http01 cfg nets d tok expected = Inr () \<longleftrightarrow>
    (\<exists>k < nat (challenge_retries cfg). http01_attempt cfg nets d tok expected k = Inr () \<and>
       (\<forall>i < k. \<exists>detail ty. http01_attempt cfg nets d tok expected i = Inl (Http01ValidationError detail ty)))"
proof -
  obtain n where n: "nat (challenge_retries cfg) = Suc n" using assms by (cases "nat (challenge_retries cfg)") auto
  show ?thesis unfolding validate_http01_def n http01_loop_Inr by (auto simp: less_Suc_eq_le)
qed

theorem validate_http01_retries_witness:
  "\<exists>k < 3. http01_attempt demo_cfg (\<lambda>_. demo_net) ''a.test'' ''tok'' demo_expected k = Inr ()"
  using validate_http01_retries [of demo_cfg "\<lambda>_. demo_net" "''a.test''" "''tok''" demo_expected] demo_validate by auto

text \<open>
  C18.  Which addresses the relay refuses to contact, as ranges: 127/8, 169.254/16, 0/8, everything from
  224.0.0.0 up, the IPv6 loopback, fe80::/10, ff00::/8, and every text that is no address.
\<close>

theorem blocked_ranges:
  "is_blocked s \<longleftrightarrow> (case ip_address s of
     None \<Rightarrow> True
   | Some (IPv4 w) \<Rightarrow> unat w div 2 ^ 24 = 127 \<or> unat w div 2 ^ 16 = 169 * 256 + 254 \<or> unat w div 2 ^ 24 = 0 \<or>
       224 * 2 ^ 24 \<le> unat w
   | Some (IPv6 w) \<Rightarrow> unat w = 1 \<or> unat w div 2 ^ 118 = 0xFE80 div 2 ^ 6 \<or> 0xFF * 2 ^ 120 \<le> unat w)"
  by (simp add: is_blocked_iff blocked_addr_def Let_def split: option.splits ip_addr.splits)

text \<open>
  C19.  The pinned address: resolution succeeds only when every address of the answer is readable and
  outside the blocked ranges, and it returns the first IPv4 address, or the first address if there is none.
\<close>

theorem resolution_is_checked:
  assumes "resolve_and_check net h = Inr ip"
  shows "\<exists>results. getaddrinfo net h = Addresses results \<and> ip \<in> snd ` set results \<and>
    (\<forall>r \<in> set results. \<exists>a. ip_address (snd r) = Some a \<and> \<not> blocked_addr a) \<and>
    ip = (case find fst results of Some (_, a) \<Rightarrow> a | None \<Rightarrow> snd (hd results))"
proof -
  obtain results where r: "getaddrinfo net h = Addresses results" "ip \<in> snd ` set results"
    "\<forall>(f, a) \<in> set results. \<not> is_blocked a"
    "ip = (case find fst results of Some (_, a) \<Rightarrow> a | None \<Rightarrow> snd (hd results))"
    using assms by (rule resolve_and_check_Inr)
  have "\<exists>a. ip_address (snd x) = Some a \<and> \<not> blocked_addr a" if "x \<in> set results" for x
    using r(3) that by (cases "ip_address (snd x)") (auto simp: is_blocked_iff)
  with r show ?thesis by blast
qed

theorem resolution_is_checked_witness:
  "resolve_and_check demo_net ''a.test'' = Inr ''10.0.0.5'' \<and>
   (\<exists>results. getaddrinfo demo_net ''a.test'' = Addresses results)"
proof -
  have "resolve_and_check demo_net ''a.test'' = Inr ''10.0.0.5''"
    by (simp add: resolve_and_check_def demo_net_def demo_address)
  with resolution_is_checked [OF this] show ?thesis by blast
qed

section \<open>Nonces\<close>

text \<open>
  C20.  Over any sequence of issuing, consuming and pruning that starts with an empty store, a nonce is
  accepted at most as often as it was issued.
\<close>

theorem nonce_accepted_at_most_once:
  "nonce_accepts cfg v ops empty_db \<le> nonce_issues v ops"
  using nonce_accepts_bound [of cfg v ops empty_db] by (simp add: unused_count_def empty_db_def tcount_def)

text \<open>
  C21.  The response of a HEAD or POST request carries a nonce that the relay accepts for its whole
  lifetime, unless the store has reached its cap, in which case no nonce row is added.
\<close>

theorem responses_carry_live_nonces:
  assumes "dispatch cfg fresh now req r db = (Inr r', db')" "rq_method req = ''POST'' \<or> rq_method req = ''HEAD''"
  shows "(map_of (rs_headers r') ''Replay-Nonce'' = Some fresh \<and>
      (\<forall>t. now \<le> t \<and> t \<le> now + seconds (nonce_ttl cfg) \<longrightarrow> nonce_live cfg t db' fresh))
    \<or> (0 < nonce_max cfg \<and> nonce_max cfg \<le> int (length (nonces db)) \<and> db' = db)"
  using dispatch_nonce [OF assms] by blast

theorem responses_carry_live_nonces_witness:
  "\<exists>r' :: response. map_of (rs_headers r') ''Replay-Nonce'' = Some ''n9'' \<and>
     nonce_live demo_cfg 5 (snd (dispatch demo_cfg ''n9'' 0 demo_ack new_nonce_post empty_db)) ''n9''"
proof -
  obtain r' where d: "dispatch demo_cfg ''n9'' 0 demo_ack new_nonce_post empty_db =
      (Inr r', snd (dispatch demo_cfg ''n9'' 0 demo_ack new_nonce_post empty_db))"
    by (simp add: dispatch_def bindM_apply generate_nonce_cases demo_ack_def make_request_def empty_db_def)
  have m: "rq_method demo_ack = ''POST'' \<or> rq_method demo_ack = ''HEAD''" by (simp add: demo_ack_def make_request_def)
  from responses_carry_live_nonces [OF d m] show ?thesis
    by (intro exI [of _ r']) (auto simp: empty_db_def seconds_def)
qed

text \<open>C22.  Pruning never removes a nonce that could still be accepted.\<close>

theorem pruning_is_safe:
  assumes "now \<le> later"
  shows "fst (consume_nonce cfg later v (snd (prune_nonces cfg now db))) = fst (consume_nonce cfg later v db)"
  using prune_keeps_live [OF assms, of cfg db v] by (simp add: consume_nonce_cases)

theorem pruning_is_safe_witness:
  "fst (consume_nonce demo_cfg 5 ''n1'' (snd (prune_nonces demo_cfg 2 (demo_db [demo_nonce ''n1''] [] [] [])))) = Inr ()"
  using pruning_is_safe [of 2 5 demo_cfg "''n1''" "demo_db [demo_nonce ''n1''] [] [] []"]
  by (simp add: nonce_eval demo_defs)

text \<open>
  C23.  The nonce table stays small.  After any history of issuing, consuming and pruning, none of them
  interrupted, it holds at most as many rows as the configured ceiling, and at most the nonces issued
  within one lifetime before the last pruning or after it (two requests that overlap can exceed the
  ceiling: \<open>concurrent_nonces_exceed_cap\<close>).
\<close>

theorem nonce_table_bounded:
  assumes "0 < nonce_max cfg" "\<forall>w u. Issue w u \<in> set ops' \<longrightarrow> nonce_cutoff cfg now \<le> u"
  shows "int (length (nonces (nonce_run cfg (ops @ Prune now # ops') empty_db))) \<le> nonce_max cfg \<and>
    length (nonces (nonce_run cfg (ops @ Prune now # ops') empty_db)) \<le> issued_since (nonce_cutoff cfg now) (ops @ ops')"
proof
  show "int (length (nonces (nonce_run cfg (ops @ Prune now # ops') empty_db))) \<le> nonce_max cfg"
    using assms(1) by (intro nonce_run_cap) (simp_all add: empty_db_def)
  show "length (nonces (nonce_run cfg (ops @ Prune now # ops') empty_db)) \<le> issued_since (nonce_cutoff cfg now) (ops @ ops')"
    using pruned_store_bounded [OF assms(2), of ops empty_db] by (simp add: rows_since_def issued_since_def empty_db_def)
qed

theorem nonce_table_bounded_witness:
  "length (nonces (nonce_run demo_cfg ([Issue ''a'' 0, Issue ''b'' 5] @ Prune (seconds 601) # [Issue ''c'' (seconds 602)]) empty_db)) \<le> 1"
  using nonce_table_bounded [of demo_cfg "[Issue ''c'' (seconds 602)]" "seconds 601" "[Issue ''a'' 0, Issue ''b'' 5]"]
  by (simp add: nonce_cutoff_def seconds_def issued_since_def del: nonce_run.simps)

section \<open>Accounts\<close>

text \<open>
  C24.  Registration is idempotent: once a key was registered, registering it again returns status 200
  with the location of the account created the first time and changes nothing.
\<close>

theorem registration_idempotent:
  assumes "account_keys_ok db" "register_account cfg D ar key db = (Inr r, db1)" "rs_status r = 201"
  shows "\<exists>r2. register_account cfg D2 ar2 key db1 = (Inr r2, db1) \<and> rs_status r2 = 200 \<and>
    map_of (rs_headers r2) ''Location'' = map_of (rs_headers r) ''Location''"
proof -
  have none: "tget a_public_key key (accounts db) = None"
  proof (rule ccontr)
    assume "tget a_public_key key (accounts db) \<noteq> None"
    then obtain a where "find_account_by_key key db = Inr (Some a)"
      using find_account_by_key_ok [OF assms(1), of key] by auto
    with assms(2,3) show False
      by (auto simp: register_account_def bindM_eq_Inr_iff account_reply_def json_response_def)
  qed
  have "find_account_by_key key db = Inr None" using find_account_by_key_ok [OF assms(1), of key] none by simp
  with assms(2,3) have new: "\<not> only_return_existing ar" "uuid4 D 0 \<notin> set (map a_id (accounts db))"
    by (auto simp: register_account_def bindM_eq_Inr_iff insert_account_Inr new_account_row_def json_response_def
        split: if_splits)
  note fresh = register_account_fresh [OF assms(1) none new, of cfg]
  have db1: "db1 = db\<lparr>accounts := accounts db @ [new_account_row D key (na_contact ar)]\<rparr>"
    and r: "r = account_reply cfg (uuid4 D 0) ''valid'' (map_option contact_json (na_contact ar)) 201"
    using assms(2) fresh by auto
  have ok: "account_keys_ok db1"
    unfolding db1 by (rule account_keys_insert [OF assms(1) \<open>find_account_by_key key db = Inr None\<close> new(2)])
  have row: "tget a_public_key key (accounts db1) = Some (new_account_row D key (na_contact ar))"
    by (simp add: db1 tget_append none tget_Cons new_account_row_def)
  have "load_contact (a_contact (new_account_row D key (na_contact ar))) =
      Inr (case na_contact ar of Some (x # xs) \<Rightarrow> Some (contact_json (x # xs)) | _ \<Rightarrow> None)"
    by (simp add: new_account_row_def)
  from register_account_existing [OF ok row this, of cfg D2 ar2] r show ?thesis
    by (simp add: account_reply_def json_response_def new_account_row_def)
qed

theorem registration_idempotent_witness:
  "\<exists>r2. register_account demo_cfg (demo_draws [''other'']) \<lparr>terms_of_service_agreed = True, na_contact = None, only_return_existing = False\<rparr>
      ''k'' (empty_db\<lparr>accounts := [\<lparr>a_id = ''acct'', a_public_key = ''k'', a_contact = None, a_status = ''valid'', a_created_at = 0\<rparr>]\<rparr>) =
      (Inr r2, empty_db\<lparr>accounts := [\<lparr>a_id = ''acct'', a_public_key = ''k'', a_contact = None, a_status = ''valid'', a_created_at = 0\<rparr>]\<rparr>) \<and>
    rs_status r2 = 200 \<and> map_of (rs_headers r2) ''Location'' = Some ''https://relay.test/acme/account/acct''"
proof -
  let ?ar = "\<lparr>terms_of_service_agreed = True, na_contact = None, only_return_existing = False\<rparr>"
  have "register_account demo_cfg (demo_draws [''acct'']) ?ar ''k'' empty_db =
      (Inr (account_reply demo_cfg ''acct'' ''valid'' None 201),
       empty_db\<lparr>accounts := [\<lparr>a_id = ''acct'', a_public_key = ''k'', a_contact = None, a_status = ''valid'', a_created_at = 0\<rparr>]\<rparr>)"
    using register_account_fresh [of empty_db "''k''" ?ar "demo_draws [''acct'']" demo_cfg]
    by (simp add: account_keys_ok_def empty_db_def new_account_row_def dump_contact_def demo_draws_def)
  from registration_idempotent [OF _ this, of "demo_draws [''other'']" ?ar] show ?thesis
    by (simp add: account_keys_ok_def empty_db_def account_reply_def json_response_def account_url_def)
qed



section \<open>Certificates and revocation\<close>

text \<open>
  C26.  Revocation answers 200 exactly when the payload carries a readable certificate whose serial
  matches a stored certificate of an order of the requesting account and the upstream CA accepted the
  forwarded request; a certificate of somebody else is never forwarded.
\<close>

theorem revocation_needs_ownership:
  "rs_status (revoke_reply L le_revoke payload acct db) = 200 \<longleftrightarrow>
     (\<exists>kvs b64 serial c ord. payload = JObj kvs \<and> map_of kvs ''certificate'' = Some b64 \<and>
        revoke_serial L b64 = Some serial \<and> c \<in> set (certificates db) \<and> ord \<in> set (orders db) \<and>
        o_id ord = c_order_id c \<and> o_account_id ord = acct \<and>
        (case c_serial c of Some h \<Rightarrow> h = serial_hex serial | None \<Rightarrow> serial_from_pem L (c_pem_chain c) = Some serial) \<and>
        le_revoke b64 (dict_get ''reason'' JNull kvs) = Inr ())"
  unfolding revoke_reply_status account_certs_iff cert_matches_def by blast

section \<open>The upstream certificate authority\<close>

text \<open>
  C27.  The zone the DNS provider is asked to change always contains the domain.  It is the longest
  configured zone that contains the domain, and without one the last two labels.
\<close>

theorem zone_contains_domain:
  assumes "d = rstrip_if (\<lambda>c. c = CHR ''.'') domain"
  shows "in_zone d (apex_domain domain overrides) \<and>
    (\<forall>z. z \<in> set overrides \<and> in_zone d z \<longrightarrow>
       apex_domain domain overrides \<in> set overrides \<and> length z \<le> length (apex_domain domain overrides)) \<and>
    ((\<nexists>z. z \<in> set overrides \<and> in_zone d z) \<longrightarrow>
       apex_domain domain overrides = join ''.'' (last_two (split_on CHR ''.'' d)))"
proof (cases "\<exists>z. z \<in> set overrides \<and> in_zone d z")
  case True
  then show ?thesis using apex_override [of _ overrides domain] unfolding assms by blast
next
  case False
  then have "\<forall>z \<in> set overrides. \<not> in_zone (rstrip_if (\<lambda>c. c = CHR ''.'') domain) z" unfolding assms by blast
  from apex_default [OF this] False show ?thesis unfolding assms by blast
qed

theorem zone_contains_domain_witness:
  "apex_domain ''a.e.co.uk.'' [''co.uk'', ''e.co.uk''] \<in> {''co.uk'', ''e.co.uk''} \<and>
   length ''e.co.uk'' \<le> length (apex_domain ''a.e.co.uk.'' [''co.uk'', ''e.co.uk''])"
proof -
  have d: "''a.e.co.uk'' = rstrip_if (\<lambda>c. c = CHR ''.'') ''a.e.co.uk.''" by (simp add: rstrip_if_def)
  have "in_zone ''a.e.co.uk'' ''e.co.uk''" unfolding in_zone_def by (intro disjI2 exI [of _ "''a''"]) simp
  moreover have "''e.co.uk'' \<in> set [''co.uk'', ''e.co.uk'']" by simp
  moreover have "set [''co.uk'', ''e.co.uk''] = {''co.uk'', ''e.co.uk''}" by simp
  ultimately show ?thesis
    using zone_contains_domain [OF d, of "[''co.uk'', ''e.co.uk'']"] by metis
qed

text \<open>
  C28.  Waiting for a certificate is bounded whatever the CA answers: at most sixty polls of the
  order and one download are sent, and nothing else of the client changes.  An upstream order that
  never leaves its intermediate state ends the wait after exactly sixty polls, with the certificate
  error that names the order.
\<close>

theorem polling_is_bounded:
  assumes "poll_order_for_cert G uri s = (r, t)"
  shows "(\<exists>k ps. le_sent t = le_sent s @ replicate k (uri, None) @ ps \<and> k \<le> 60 \<and> length ps \<le> 1 \<and>
      le_order_urls t = le_order_urls s) \<and>
    ((\<forall>w. \<exists>resp w' st. g_post G uri None w = (Inr resp, w') \<and> g_order_status G resp = Inr st \<and>
        st \<noteq> ''valid'' \<and> st \<noteq> ''invalid'') \<longrightarrow>
      r = Inl (poll_timeout_error uri) \<and> le_sent t = le_sent s @ replicate 60 (uri, None))"
proof (intro conjI impI)
  note p = assms [unfolded poll_order_for_cert_def finalize_poll_attempts_def]
  show "\<exists>k ps. le_sent t = le_sent s @ replicate k (uri, None) @ ps \<and> k \<le> 60 \<and> length ps \<le> 1 \<and>
      le_order_urls t = le_order_urls s"
    using poll_loop_frame [OF p] by blast
  assume stuck: "\<forall>w. \<exists>resp w' st. g_post G uri None w = (Inr resp, w') \<and> g_order_status G resp = Inr st \<and>
      st \<noteq> ''valid'' \<and> st \<noteq> ''invalid''"
  have "\<exists>t. poll_loop G uri 60 s = (Inl (poll_timeout_error uri), t) \<and> le_sent t = le_sent s @ replicate 60 (uri, None)"
    by (rule poll_loop_stuck) (use stuck in blast)
  with p show "r = Inl (poll_timeout_error uri)" "le_sent t = le_sent s @ replicate 60 (uri, None)" by auto
qed

theorem polling_is_bounded_witness:
  "fst (poll_order_for_cert (demo_ca ''processing'') ''o1'' demo_le) = Inl (poll_timeout_error ''o1'') \<and>
   le_sent (snd (poll_order_for_cert (demo_ca ''processing'') ''o1'' demo_le)) = le_sent demo_le @ replicate 60 (''o1'', None)"
proof -
  have "poll_order_for_cert (demo_ca ''processing'') ''o1'' demo_le =
    (fst (poll_order_for_cert (demo_ca ''processing'') ''o1'' demo_le), snd (poll_order_for_cert (demo_ca ''processing'') ''o1'' demo_le))"
    by simp
  note b = conjunct2 [OF polling_is_bounded [OF this], THEN mp]
  show ?thesis by (rule b) (simp add: demo_ca_def demo_answer_def)
qed

text \<open>
  C29.  Recovery of a certificate.  When the CA refuses a finalize request because the order is
  finalized already, the client polls the order URL it was given with the new order and its result is
  the result of that poll; the remembered URL is dropped in any case.
\<close>

theorem finalized_order_is_recovered:
  assumes "liftW (g_check_bound G) s = (Inr (), s1)" "liftW (g_new_order_url G) s1 = (Inr no, s2)"
    "le_post G no (Some (identifiers_payload (g_identifiers G domain))) s2 = (Inr resp, s3)"
    "re_location resp = Some url" "le_new_order G domain s = (Inr ord, t)"
    "le_post G (ao_finalize ord) (Some (finalize_payload G csr))
       (t\<lparr>le_order_urls := filter (\<lambda>(k, _). k \<noteq> ao_finalize ord) (le_order_urls t)\<rparr>) = (Inl (AcmeExc cls msg), t1)"
    "contains ''orderNotReady'' msg"
  shows "finalize_and_wait G ord csr t = poll_order_for_cert G url t1 \<and>
    map_of (le_order_urls (snd (finalize_and_wait G ord csr t))) (ao_finalize ord) = None"
proof
  have "map_of (le_order_urls t) (ao_finalize ord) = Some url"
    using le_new_order_captures [OF assms(1-5)] by (simp add: map_of_dict_set)
  then show "finalize_and_wait G ord csr t = poll_order_for_cert G url t1"
    by (rule finalize_and_wait_recovers [OF _ assms(6)]) (simp add: assms(7) is_order_already_finalized_def)
  show "map_of (le_order_urls (snd (finalize_and_wait G ord csr t))) (ao_finalize ord) = None"
    using finalize_and_wait_pops [of G ord csr t] by (auto simp: map_of_eq_None_iff prod_eq_iff)
qed

theorem finalized_order_is_recovered_witness:
  "\<exists>ord t t1. le_new_order (demo_ca ''valid'') ''a'' demo_le = (Inr ord, t) \<and>
     finalize_and_wait (demo_ca ''valid'') ord ''csr'' t = poll_order_for_cert (demo_ca ''valid'') ''o1'' t1 \<and>
     map_of (le_order_urls (snd (finalize_and_wait (demo_ca ''valid'') ord ''csr'' t))) ''f1'' = None"
proof -
  let ?G = "demo_ca ''valid''"
  define ord where "ord = \<lparr>ao_authorizations = [(''a'', JStr ''az1'')], ao_finalize = ''f1''\<rparr>"
  define t where "t = (demo_le_sent [(''no'', Some (identifiers_payload [''a'']))])\<lparr>le_order_urls := [(''f1'', ''o1'')]\<rparr>"
  have le: "demo_le = demo_le_sent []" by (simp add: demo_le_sent_def demo_le_def)
  have new: "le_new_order ?G ''a'' (demo_le_sent []) = (Inr ord, t)" unfolding ord_def t_def by (rule demo_new_order)
  have t: "t\<lparr>le_order_urls := filter (\<lambda>(k, _). k \<noteq> ao_finalize ord) (le_order_urls t)\<rparr> =
      demo_le_sent [(''no'', Some (identifiers_payload [''a'']))]"
    by (simp add: t_def ord_def demo_le_sent_def demo_le_def)
  have f: "ao_finalize ord = ''f1''" by (simp add: ord_def)
  have ca: "g_identifiers ?G ''a'' = [''a'']" "liftW (g_check_bound ?G) s = (Inr (), s)"
    "liftW (g_new_order_url ?G) s = (Inr ''no'', s)" for s
    by (simp_all add: demo_ca_def liftW_def returnM_def)
  have no: "le_post ?G ''no'' (Some (identifiers_payload (g_identifiers ?G ''a''))) (demo_le_sent []) =
      (Inr \<lparr>re_location = Some ''o1'', re_content = demo_order_body\<rparr>, demo_le_sent [(''no'', Some (identifiers_payload [''a'']))])"
    unfolding demo_le_post ca by (simp add: demo_answer_def)
  have fin: "le_post ?G (ao_finalize ord) (Some (finalize_payload ?G ''csr''))
      (t\<lparr>le_order_urls := filter (\<lambda>(k, _). k \<noteq> ao_finalize ord) (le_order_urls t)\<rparr>) =
      (Inl (AcmeExc ''AcmeError'' ''orderNotReady''), demo_le_sent [(''no'', Some (identifiers_payload [''a''])),
         (''f1'', Some (finalize_payload ?G ''csr''))])"
    unfolding t unfolding f demo_le_post by (simp add: demo_answer_def)
  have "contains ''orderNotReady'' ''orderNotReady''" by code_simp
  from finalized_order_is_recovered [OF ca(2) ca(3) no _ new fin this] show ?thesis
    using new unfolding le f by auto
qed

text \<open>
  C30.  Every exception of an issuance has a problem document with a detail text and one of five
  types; an exception that is not of the ACME library never shows its text.
\<close>

theorem issuance_failure_has_problem:
  "(\<exists>ty detail. acme_problem bases e = problem ty detail \<and> detail \<noteq> [] \<and>
      ty \<in> {RATE_LIMITED, UNAUTHORIZED, DNS, CONNECTION, SERVER_INTERNAL}) \<and>
   (is_known_acme_error bases e \<or>
      acme_problem bases e = problem SERVER_INTERNAL ''An unexpected error occurred while issuing the certificate.'')"
proof
  show "\<exists>ty detail. acme_problem bases e = problem ty detail \<and> detail \<noteq> [] \<and>
      ty \<in> {RATE_LIMITED, UNAUTHORIZED, DNS, CONNECTION, SERVER_INTERNAL}"
    by (rule acme_problem_shape [of bases e]) blast
  show "is_known_acme_error bases e \<or>
      acme_problem bases e = problem SERVER_INTERNAL ''An unexpected error occurred while issuing the certificate.''"
    by (cases e) (simp_all add: is_known_acme_error_def isinstance_acme_def acme_problem_def acme_problems_def)
qed

section \<open>Encodings\<close>

text \<open>
  C31.  The stored form of a public key identifies the key: two keys have the same form exactly when
  their members, sorted at every level, agree, so the order in which a client writes them is immaterial.
\<close>

theorem canonical_jwk_identifies_key:
  assumes "wf_json (JObj kvs)" "wf_json (JObj kvs')"
  shows "(canonical_jwk (JObj kvs) = canonical_jwk (JObj kvs') \<longleftrightarrow> sort_json (JObj kvs) = sort_json (JObj kvs')) \<and>
    (set kvs = set kvs' \<longrightarrow> canonical_jwk (JObj kvs) = canonical_jwk (JObj kvs'))"
  using canonical_jwk_eq_iff [OF assms] sort_json_members [of kvs kvs'] assms by simp

theorem canonical_jwk_identifies_key_witness:
  "canonical_jwk (JObj [(''kty'', JStr ''EC''), (''crv'', JStr ''P-256'')]) =
   canonical_jwk (JObj [(''crv'', JStr ''P-256''), (''kty'', JStr ''EC'')])"
  using canonical_jwk_identifies_key [of "[(''kty'', JStr ''EC''), (''crv'', JStr ''P-256'')]"
      "[(''crv'', JStr ''P-256''), (''kty'', JStr ''EC'')]"]
  by (simp add: insert_commute)

section \<open>Start-up and limits of the protection\<close>

text \<open>
  C32.  The start-up succeeds and settles everything.  On a database any release can have left, at
  a URL without percent signs (Alembic cannot be configured with others), with a provider that loads
  and a key file that is absent or readable, the application starts: the schema is that of the models, nothing is left in the state processing, every interrupted order is invalid
  and says why, every other order, the accounts and the certificates are as they were, the client is
  that of the configured provider and the stored key, and both loops run.  Starting once more on the
  result, with whatever fresh key, changes nothing.
\<close>

theorem start_up_settles_everything:
  assumes "alembic_at A (database_url cfg)" "known_schema cfg (ap_schema s)"
    "configure_logging cfg = Inr ()" "le_verify_ssl cfg" "get_provider env (dns_provider cfg) = Inr p"
    "load_or_create_account_key K N (le_account_key_path cfg) akey (ap_files s) = (Inr key, fs)"
    "al_new_account N (client_init cfg p key) (acme_email cfg) = Inr ()" "pem_inverse K N"
  shows "\<exists>t. lifespan A create_all K N env akey cfg s = (Inr (), t) \<and>
    matches_models (ap_schema t) \<and> sc_version (ap_schema t) = Some rev_0002 \<and>
    (\<forall>r \<in> set (orders (ap_db t)). o_status r \<noteq> ''processing'') \<and>
    (\<forall>z \<in> set (authorizations (ap_db t)). z_status z \<noteq> ''processing'') \<and>
    length (orders (ap_db t)) = length (orders (ap_db s)) \<and>
    (\<forall>k < length (orders (ap_db s)). orders (ap_db t) ! k =
       (if o_status (orders (ap_db s) ! k) = ''processing''
        then (orders (ap_db s) ! k)\<lparr>o_status := ''invalid'', o_error := Some interrupted_order_error\<rparr>
        else orders (ap_db s) ! k)) \<and>
    accounts (ap_db t) = accounts (ap_db s) \<and> certificates (ap_db t) = certificates (ap_db s) \<and>
    ap_client t = Some (client_init cfg p key) \<and> ap_background t = [PruneLoop, RenewalLoop (ap_has_context s)] \<and>
    (\<forall>akey'. lifespan A create_all K N env akey' cfg t = (Inr (), t))"
proof -
  obtain sc where sc: "init_db A create_all cfg (ap_schema s) = Inr sc" "matches_models sc" "sc_version sc = Some rev_0002"
    using init_db_reaches [of A cfg "ap_schema s" create_all] assms(1,2) by blast
  have "open_client K N env cfg akey (ap_files s) = (Inr (client_init cfg p key), fs)"
    using assms(5-7) by (simp add: open_client_def init_account_def)
  from lifespan_complete [OF assms(3) _ sc(1) this] assms(4)
  obtain t where t: "lifespan A create_all K N env akey cfg s = (Inr (), t)"
    "t = s\<lparr>ap_schema := sc, ap_db := reset_processing_orders (ap_db s), ap_files := fs,
       ap_client := Some (client_init cfg p key), ap_background := [PruneLoop, RenewalLoop (ap_has_context s)]\<rparr>" by blast
  have "lifespan A create_all K N env akey' cfg t = (Inr (), t)" for akey'
    using lifespan_again [OF t(1) assms(3,8), of "ap_schema s" akey'] assms(1,2) sc(3) t(2) by simp
  with t sc(2,3) show ?thesis by (intro exI [of _ t]) (simp add: reset_result)
qed

theorem start_up_settles_everything_witness:
  "\<exists>t. lifespan demo_alembic_lib Inr demo_keygen demo_acme_lib (\<lambda>_. None) ''k'' demo_cfg (demo_app demo_old_schema) = (Inr (), t) \<and>
     matches_models (ap_schema t) \<and> o_status (orders (ap_db t) ! 0) = ''invalid''"
proof -
  let ?s = "demo_app demo_old_schema"
  obtain t where t: "lifespan demo_alembic_lib Inr demo_keygen demo_acme_lib (\<lambda>_. None) ''k'' demo_cfg ?s = (Inr (), t)"
    "matches_models (ap_schema t)"
    "\<forall>k < length (orders (ap_db ?s)). orders (ap_db t) ! k =
       (if o_status (orders (ap_db ?s) ! k) = ''processing''
        then (orders (ap_db ?s) ! k)\<lparr>o_status := ''invalid'', o_error := Some interrupted_order_error\<rparr>
        else orders (ap_db ?s) ! k)"
    using start_up_settles_everything [where A = demo_alembic_lib and cfg = demo_cfg and s = ?s and p = Null and
        env = "\<lambda>_. None" and K = demo_keygen and N = demo_acme_lib and akey = "''k''" and create_all = Inr]
      demo_alembic_at(1) demo_start by blast
  have "o_status (orders (ap_db ?s) ! 0) = ''processing''" "0 < length (orders (ap_db ?s))"
    by (simp_all add: demo_app_def demo_db_def demo_order_sel)
  with t show ?thesis by (intro exI [of _ t]) simp
qed

section \<open>DNS providers\<close>

text \<open>
  C33.  Credentials stay with the provider.  Whatever provider is configured, fulfilling a DNS-01
  challenge and cleaning it up send requests to the API of that provider only, whatever the API
  answers in between.
\<close>

theorem dns_requests_stay_with_provider:
  "(\<exists>cs. api_sent (le_world (snd (fulfill_dns_01 (with_provider E p G) zones domain challenge s))) = api_sent (le_world s) @ cs \<and>
      list_all (\<lambda>c. startswith (hc_url c) (provider_base p)) cs) \<and>
    (\<exists>cs. api_sent (le_world (snd (clear_dns_01 (with_provider E p G) zones domain s))) = api_sent (le_world s) @ cs \<and>
      list_all (\<lambda>c. startswith (hc_url c) (provider_base p)) cs)"
proof
  have client: "loaded.client E p G = with_provider E p G" by (simp add: loaded.client_def with_provider_def)
  obtain r t where f: "fulfill_dns_01 (with_provider E p G) zones domain challenge s = (r, t)" by (rule prod.exhaust)
  from loaded.fulfill_confined [OF f [folded client]] f
  show "\<exists>cs. api_sent (le_world (snd (fulfill_dns_01 (with_provider E p G) zones domain challenge s))) = api_sent (le_world s) @ cs \<and>
      list_all (\<lambda>c. startswith (hc_url c) (provider_base p)) cs" by simp
  obtain r' t' where c: "clear_dns_01 (with_provider E p G) zones domain s = (r', t')" by (rule prod.exhaust)
  from loaded.clear_confined [OF c [folded client]] c
  show "\<exists>cs. api_sent (le_world (snd (clear_dns_01 (with_provider E p G) zones domain s))) = api_sent (le_world s) @ cs \<and>
      list_all (\<lambda>c. startswith (hc_url c) (provider_base p)) cs" by simp
qed







section \<open>The relay's own certificate\<close>

text \<open>
  C38.  Crash safety of the certificate files.  Wherever a crash interrupts the writing of a renewed
  pair, also in the middle of a file, the certificate file is complete, the old or the new one, a new
  certificate is never paired with an old key, and the file of a new key is private.
\<close>

theorem crash_never_pairs_new_cert_with_old_key:
  assumes "crash (write_relay_cert_ops (cert_path cfg) (key_path cfg) pem key) fs fs'"
  shows "(text_at fs' (cert_path cfg), text_at fs' (key_path cfg)) \<in>
      {(text_at fs (cert_path cfg), text_at fs (key_path cfg)), (text_at fs (cert_path cfg), Some key), (Some pem, Some key)} \<and>
    (fs' (key_path cfg) = fs (key_path cfg) \<or> fs' (key_path cfg) = Some \<lparr>f_text = key, f_mode = 6 * 8 ^ 2\<rparr>)"
  using crash_pairs [OF assms] crash_key_private [OF assms] by simp

theorem crash_never_pairs_new_cert_with_old_key_witness:
  "(text_at (run_ops (take 4 (write_relay_cert_ops (cert_path demo_cfg) (key_path demo_cfg) ''c'' ''k'')) (\<lambda>_. None)) (cert_path demo_cfg),
    text_at (run_ops (take 4 (write_relay_cert_ops (cert_path demo_cfg) (key_path demo_cfg) ''c'' ''k'')) (\<lambda>_. None)) (key_path demo_cfg))
   \<in> {(None, None), (None, Some ''k''), (Some ''c'', Some ''k'')}"
  using crash_never_pairs_new_cert_with_old_key
    [OF crash_take [of "write_relay_cert_ops (cert_path demo_cfg) (key_path demo_cfg) ''c'' ''k''" "\<lambda>_. None" 4]]
  by (simp add: text_at_def)

text \<open>
  C39.  Without a valid certificate the start-up keeps trying: when the account can be opened and the
  first attempt that succeeds is the one numbered \<open>n\<close>, it returns after exactly \<open>n\<close> sleeps of between
  one and fifteen minutes, the pair of that attempt is on disk, and whoever opens the account
  afterwards gets the same client.
\<close>

theorem start_up_retries_until_issued:
  assumes "\<forall>d. cert_days_remaining_if_usable L cfg now fs = Some d \<longrightarrow> d \<le> 0"
    "open_client K N env cfg akey fs = (Inr client, fs0)" "pem_inverse K N" "le_account_key_path cfg \<notin> relay_paths cfg"
    "\<forall>i < n. attempt_fails K (\<lambda>k. order k client) priv cfg i"
    "order n client (relay_domain cfg) (kg_csr K (priv n) (relay_domain cfg)) = Inr pem" "n < fuel"
  shows "\<exists>fs' sleeps. ensure_relay_cert L K N env akey order priv cfg now fuel fs = Some (Inr (fs', sleeps)) \<and>
    length sleeps = n \<and> (\<forall>d \<in> set sleeps. 60 \<le> d \<and> d \<le> 900) \<and>
    text_at fs' (cert_path cfg) = Some pem \<and> text_at fs' (key_path cfg) = Some (kg_pem K (priv n)) \<and>
    (\<forall>akey'. open_client K N env cfg akey' fs' = (Inr client, fs'))"
proof -
  let ?left = "cert_days_remaining_if_usable L cfg now fs"
  let ?fs = "write_relay_cert (cert_path cfg) (key_path cfg) pem (kg_pem K (priv n)) fs0"
  have "ensure_loop K (\<lambda>k. order k client) priv cfg ?left fuel 0 retry_initial fs0 = Some (?fs, map backoff [0..<n])"
    using ensure_loop_retries [of ?left n K "\<lambda>k. order k client" priv cfg 0 pem fuel fs0] assms by simp
  moreover have small: "\<forall>d. ?left = Some d \<longrightarrow> d < renew_threshold"
    using assms(1) by (auto simp: renew_threshold_def days_def seconds_def)
  then have "\<not> (case ?left of Some d \<Rightarrow> d \<ge> renew_threshold | None \<Rightarrow> False)" by (auto split: option.splits)
  ultimately have run: "ensure_relay_cert L K N env akey order priv cfg now fuel fs = Some (Inr (?fs, map backoff [0..<n]))"
    using assms(2) by (simp add: ensure_relay_cert_def)
  obtain c fs1 where "open_client K N env cfg akey fs = (Inr c, fs1)"
    "\<forall>akey'. open_client K N env cfg akey' ?fs = (Inr c, ?fs)"
    by (rule boot_same_account [OF run small assms(3,4)])
  with run assms(2) show ?thesis
    using write_relay_cert_result(1,2) [of cfg pem "kg_pem K (priv n)" fs0] backoff_bounds
    by (auto simp: text_at_def retry_initial_def retry_max_def)
qed

theorem start_up_retries_until_issued_witness:
  "\<exists>fs' sleeps. ensure_relay_cert demo_libs demo_keygen demo_acme_lib (\<lambda>_. None) ''k''
       (\<lambda>i _ _ _. if i = 0 then Inl (PyError ''OSError'') else Inr ''pem'') (\<lambda>_. ''c'') demo_cfg 0 2 (\<lambda>_. None) = Some (Inr (fs', sleeps)) \<and>
     length sleeps = 1 \<and> text_at fs' (cert_path demo_cfg) = Some ''pem''"
proof -
  obtain fs0 where o: "open_client demo_keygen demo_acme_lib (\<lambda>_. None) demo_cfg ''k'' (\<lambda>_. None) =
      (Inr (client_init demo_cfg Null ''k''), fs0)"
    using demo_open by blast
  show ?thesis
    using start_up_retries_until_issued [where L = demo_libs and K = demo_keygen and N = demo_acme_lib and env = "\<lambda>_. None"
        and akey = "''k''" and order = "\<lambda>i _ _ _. if i = 0 then Inl (PyError ''OSError'') else Inr ''pem''" and priv = "\<lambda>_. ''c''"
        and cfg = demo_cfg and now = 0 and n = 1 and fuel = 2 and fs = "\<lambda>_. None" and pem = "''pem''", OF _ o]
      demo_pem_inverse demo_key_path
    by (auto simp: cert_days_remaining_if_usable_def relay_cert_exists_def attempt_fails_def)
qed

text \<open>
  C40.  The certificate in use never expires.  The listener starts with a certificate that has thirty days
  left, rounds of the renewal loop come at most \<open>period\<close> apart, whatever the authority issues loads and
  has thirty days left, and of any \<open>m\<close> attempts in a row one succeeds.  If \<open>m\<close> periods fit in thirty days,
  then after every round the loop is alive and the certificate in the listener, which is the one on disk,
  is good beyond the next round.
\<close>

theorem served_certificate_never_expires:
  assumes "build_tls_server load cfg fs = Tls port pem key" "pem_leaf L pem = Some (sn, until)" "now + renew_threshold \<le> until"
    "\<forall>k c. round_order K order cfg priv k = Inr c \<longrightarrow> load c (kg_pem K (priv k)) = Inr () \<and>
       (\<exists>sn na. pem_leaf L c = Some (sn, na) \<and> wake k + renew_threshold \<le> na)"
    "\<forall>k. \<exists>j < m. \<exists>c. round_order K order cfg priv (k + j) = Inr c"
    "wake 0 \<le> now + period" "\<forall>k. wake (Suc k) \<le> wake k + period" "0 \<le> period" "int m * period \<le> days 30"
  shows "\<exists>t c k sn na. renewal_loop L K order load cfg wake priv n \<lparr>tl_files = fs, tl_live = Some (pem, key)\<rparr> = (Inr (), t) \<and>
    tl_live t = Some (c, k) \<and> text_at (tl_files t) (cert_path cfg) = Some c \<and> pem_leaf L c = Some (sn, na) \<and> wake n \<le> na"
proof -
  have "presents L cfg \<lparr>tl_files = fs, tl_live = Some (pem, key)\<rparr> until"
    using build_tls_server_Tls(3) [OF assms(1)] assms(2) by (auto simp: presents_def text_at_def)
  moreover have "int m * period \<le> renew_threshold" using assms(9) by (simp add: renew_threshold_def)
  ultimately show ?thesis
    using renewal_keeps_valid [where n = n, of L cfg _ until now K order priv load wake m period] assms(3-8)
    unfolding presents_def by blast
qed

theorem served_certificate_never_expires_witness:
  "\<exists>t c k sn na. renewal_loop demo_renewal_libs demo_keygen demo_renewals (\<lambda>_ _. Inr ()) demo_cfg (\<lambda>k. days (int k + 1)) (\<lambda>_. ''k'') 100
      \<lparr>tl_files = demo_pair, tl_live = Some ('''', ''k'')\<rparr> = (Inr (), t) \<and> tl_live t = Some (c, k) \<and>
    text_at (tl_files t) (cert_path demo_cfg) = Some c \<and> pem_leaf demo_renewal_libs c = Some (sn, na) \<and> days 101 \<le> na"
proof -
  have often: "\<exists>j < 2. \<exists>c. round_order demo_keygen demo_renewals demo_cfg (\<lambda>_. ''k'') (k + j) = Inr c" for k :: nat
    by (rule exI [of _ "if even k then 1 else 0"]) (simp add: round_order_def demo_renewals_def)
  have "\<exists>t c k sn na. renewal_loop demo_renewal_libs demo_keygen demo_renewals (\<lambda>_ _. Inr ()) demo_cfg (\<lambda>k. days (int k + 1)) (\<lambda>_. ''k'') 100
      \<lparr>tl_files = demo_pair, tl_live = Some ('''', ''k'')\<rparr> = (Inr (), t) \<and> tl_live t = Some (c, k) \<and>
    text_at (tl_files t) (cert_path demo_cfg) = Some c \<and> pem_leaf demo_renewal_libs c = Some (sn, na) \<and> days (int 100 + 1) \<le> na"
    by (rule served_certificate_never_expires [OF demo_pair_served, where m = 2 and period = "days 1" and now = 0])
       (use often in \<open>auto simp: demo_renewal_libs_def round_order_def demo_renewals_def renew_threshold_def days_def seconds_def\<close>)
  then show ?thesis by simp
qed

end
